theory Spec2Isabelle
  imports Complex_Main
begin

section \<open>JavaScript strings\<close>

text \<open>
  A JavaScript string is modelled as a \<^typ>\<open>string\<close>, one \<^typ>\<open>char\<close> per code unit,
  which covers the code units 0 to 255 (ASCII and Latin-1). On that range the white space
  of \<^verbatim>\<open>String.prototype.trim\<close> and of the regular expression class \<^verbatim>\<open>\s\<close> is
  TAB, LF, VT, FF, CR, SPACE and NBSP, and \<^verbatim>\<open>toLowerCase\<close> maps A to Z and the
  Latin-1 capitals (0xC0 to 0xDE, without the multiplication sign 0xD7) 32 places up.
\<close>

definition isSpace :: "char \<Rightarrow> bool" where
  "isSpace c = ((of_char c :: nat) \<in> {9, 10, 11, 12, 13, 32, 160})"

definition toLowerChar :: "char \<Rightarrow> char" where
  "toLowerChar c =
     (let n = (of_char c :: nat)
      in if (65 \<le> n \<and> n \<le> 90) \<or> (192 \<le> n \<and> n \<le> 222 \<and> n \<noteq> 215)
         then char_of (n + 32) else c)"

definition toLowerCase :: "string \<Rightarrow> string" where
  "toLowerCase s = map toLowerChar s"

definition trim :: "string \<Rightarrow> string" where
  "trim s = rev (dropWhile isSpace (rev (dropWhile isSpace s)))"

text \<open>\<^verbatim>\<open>s.replace(/\s+/g, ' ')\<close>: every maximal run of white space becomes one space.\<close>

function collapseSpaces :: "string \<Rightarrow> string" where
  "collapseSpaces [] = []"
| "collapseSpaces (c # cs) =
     (if isSpace c then CHR '' '' # collapseSpaces (dropWhile isSpace cs)
      else c # collapseSpaces cs)"
  by pat_completeness auto
termination
  by (relation "measure length") (auto simp: less_Suc_eq_le length_dropWhile_le)

fun startsWith :: "string \<Rightarrow> string \<Rightarrow> bool" where
  "startsWith s [] = True"
| "startsWith [] (q # qs) = False"
| "startsWith (c # cs) (q # qs) = (c = q \<and> startsWith cs qs)"

text \<open>\<^verbatim>\<open>s.includes(q)\<close>: \<open>q\<close> occurs in \<open>s\<close> as a contiguous run.\<close>

fun strIncludes :: "string \<Rightarrow> string \<Rightarrow> bool" where
  "strIncludes [] q = (q = [])"
| "strIncludes (c # cs) q = (startsWith (c # cs) q \<or> strIncludes cs q)"

section \<open>The locator engine (src/utils/finders.ts)\<close>

record SnapshotRect =
  r_x :: real
  r_y :: real
  r_width :: real
  r_height :: real

text \<open>
  The node of a snapshot; every field is optional in the source. The fields \<open>type\<close>,
  \<open>label\<close>, \<open>value\<close>, \<open>identifier\<close>, \<open>rect\<close>, \<open>ref\<close>, \<open>depth\<close> and \<open>index\<close> carry
  the prefix \<open>n_\<close> here.
\<close>

record SnapshotNode =
  n_index :: "nat option"
  n_ref :: "string option"
  n_depth :: "nat option"
  n_type :: "string option"
  n_label :: "string option"
  n_value :: "string option"
  n_identifier :: "string option"
  n_rect :: "SnapshotRect option"

datatype FindLocator = LocAny | LocText | LocLabel | LocValue | LocRole | LocId

record FindMatchOptions =
  requireRect :: "bool option"

definition normalizeText :: "string \<Rightarrow> string" where
  "normalizeText v = collapseSpaces (toLowerCase (trim v))"

text \<open>\<^verbatim>\<open>value.split('.').pop()\<close>: what follows the last dot, the whole string without one.\<close>

definition lastSegment :: "string \<Rightarrow> string" where
  "lastSegment s = rev (takeWhile (\<lambda>c. c \<noteq> CHR ''.'') (rev s))"

text \<open>
  \<^verbatim>\<open>s.replace(/XCUIElementType/gi, '')\<close>: scanning from the left, every occurrence of
  the word, in any mix of cases, is dropped and the scan goes on behind it.
\<close>

fun removeXCUIElementType :: "string \<Rightarrow> string" where
  "removeXCUIElementType [] = []"
| "removeXCUIElementType (c # cs) =
     (if toLowerCase (take 15 (c # cs)) = ''xcuielementtype''
      then removeXCUIElementType (drop 14 cs)
      else c # removeXCUIElementType cs)"

definition normalizeRole :: "string \<Rightarrow> string" where
  "normalizeRole v =
     (let normalized = trim v
      in if normalized = [] then []
         else let normalized = toLowerCase (removeXCUIElementType (lastSegment normalized))
              in if startsWith normalized ''ax'' then drop 2 normalized else normalized)"

definition matchText :: "string option \<Rightarrow> string \<Rightarrow> int" where
  "matchText v query =
     (let normalized = normalizeText (case v of None \<Rightarrow> [] | Some s \<Rightarrow> s)
      in if normalized = [] then 0
         else if normalized = query then 2
         else if strIncludes normalized query then 1
         else 0)"

definition matchRole :: "string option \<Rightarrow> string \<Rightarrow> int" where
  "matchRole v query =
     (let normalized = normalizeRole (case v of None \<Rightarrow> [] | Some s \<Rightarrow> s)
      in if normalized = [] then 0
         else if normalized = query then 2
         else if strIncludes normalized query then 1
         else 0)"

fun matchNode :: "SnapshotNode \<Rightarrow> FindLocator \<Rightarrow> string \<Rightarrow> int" where
  "matchNode node LocRole query = matchRole (n_type node) query"
| "matchNode node LocLabel query = matchText (n_label node) query"
| "matchNode node LocValue query = matchText (n_value node) query"
| "matchNode node LocId query = matchText (n_identifier node) query"
| "matchNode node _ query =
     max (max (matchText (n_label node) query) (matchText (n_value node) query))
         (matchText (n_identifier node) query)"

text \<open>
  A node takes part in the scan unless \<^verbatim>\<open>options.requireRect && !node.rect\<close> holds
  (the first \<^verbatim>\<open>continue\<close> of the loop below); the theorems speak of the nodes of the
  list that take part.
\<close>

definition eligible :: "FindMatchOptions \<Rightarrow> SnapshotNode \<Rightarrow> bool" where
  "eligible opts node = (\<not> (requireRect opts = Some True \<and> n_rect node = None))"

text \<open>
  The \<^verbatim>\<open>for\<close> loop of \<^verbatim>\<open>findNodeByLocator\<close>, with the variable \<open>best\<close> as the
  accumulator; \<^verbatim>\<open>continue\<close> is the recursive call with \<open>best\<close> unchanged,
  \<^verbatim>\<open>break\<close> returns without looking at the rest of the list.
\<close>

fun findLoop ::
  "FindLocator \<Rightarrow> string \<Rightarrow> FindMatchOptions \<Rightarrow> SnapshotNode list \<Rightarrow>
   (SnapshotNode \<times> int) option \<Rightarrow> (SnapshotNode \<times> int) option" where
  "findLoop locator q opts [] best = best"
| "findLoop locator q opts (node # nodes) best =
     (if requireRect opts = Some True \<and> n_rect node = None
      then findLoop locator q opts nodes best
      else let score = matchNode node locator q
           in if score \<le> 0 then findLoop locator q opts nodes best
              else if (case best of None \<Rightarrow> True | Some b \<Rightarrow> score > snd b)
                   then (if score \<ge> 2 then Some (node, score)
                         else findLoop locator q opts nodes (Some (node, score)))
                   else findLoop locator q opts nodes best)"

definition findNodeByLocator ::
  "SnapshotNode list \<Rightarrow> FindLocator \<Rightarrow> string \<Rightarrow> FindMatchOptions \<Rightarrow> SnapshotNode option" where
  "findNodeByLocator nodes locator query opts =
     (let normalizedQuery = normalizeText query
      in if normalizedQuery = [] then None
         else map_option fst (findLoop locator normalizedQuery opts nodes None))"

section \<open>Thrown values and the retry executor (src/utils/retry.ts)\<close>

text \<open>
  \<^verbatim>\<open>AppError\<close> (utils/errors.ts) as the code builds and reads it: a code, a message and
  optional details, of which the sources use \<open>stderr\<close>, \<open>stdout\<close>, \<open>retryable\<close> and
  \<open>error\<close>.
\<close>

record ErrorDetails =
  d_stderr :: "string option"
  d_stdout :: "string option"
  d_retryable :: "bool option"
  d_error :: "string option"

record AppError =
  err_code :: string
  err_message :: string
  err_details :: "ErrorDetails option"

text \<open>
  A \<^verbatim>\<open>catch\<close> receives a value of type \<^verbatim>\<open>unknown\<close>: any JavaScript value can be
  thrown. \<open>JAppError\<close> is an instance of \<^verbatim>\<open>AppError\<close>, \<open>JError\<close> any other object
  (its text kept), the rest are the primitive values. \<open>truthy\<close> is the test that
  \<^verbatim>\<open>if (lastError)\<close> makes.
\<close>

datatype jsval =
    JUndefined
  | JNull
  | JBoolean bool
  | JNumber real
  | JString string
  | JError string
  | JAppError AppError

fun truthy :: "jsval \<Rightarrow> bool" where
  "truthy JUndefined = False"
| "truthy JNull = False"
| "truthy (JBoolean b) = b"
| "truthy (JNumber n) = (n \<noteq> 0)"
| "truthy (JString s) = (s \<noteq> [])"
| "truthy (JError s) = True"
| "truthy (JAppError e) = True"

text \<open>
  The options. \<open>attempts\<close> is a \<^verbatim>\<open>number\<close>, which need not be whole: it is a real
  number here (not-a-number and the infinities are left out). The counter \<open>attempt\<close> of
  the loop starts at 1 and is raised by 1, so it is an integer.
\<close>

record RetryOptions =
  attempts :: "real option"
  baseDelayMs :: "real option"
  maxDelayMs :: "real option"
  jitter :: "real option"
  shouldRetry :: "(jsval \<Rightarrow> int \<Rightarrow> bool) option"

record RetryDefaults =
  def_attempts :: real
  def_baseDelayMs :: real
  def_maxDelayMs :: real
  def_jitter :: real

definition defaultOptions :: RetryDefaults where
  "defaultOptions =
     \<lparr>def_attempts = 3, def_baseDelayMs = 200, def_maxDelayMs = 2000, def_jitter = 2 / 10\<rparr>"

text \<open>
  \<^verbatim>\<open>computeDelay\<close>; numbers are real numbers here, and the result of
  \<^verbatim>\<open>Math.random()\<close> is the last argument \<open>r\<close>.
\<close>

definition computeDelay :: "real \<Rightarrow> real \<Rightarrow> real \<Rightarrow> int \<Rightarrow> real \<Rightarrow> real" where
  "computeDelay base maxD jit attempt r =
     (let exp = min maxD (base * 2 powi (attempt - 1));
          jitterAmount = exp * jit
      in max 0 (exp + (r * 2 - 1) * jitterAmount))"

text \<open>
  What a run of \<^verbatim>\<open>withRetry\<close> does, in order: \<open>Called n e\<close> is the \<open>n\<close>-th call of
  \<open>fn\<close> with what it threw (\<open>None\<close> when it returned), \<open>Slept d\<close> is
  \<^verbatim>\<open>await sleep(d)\<close>.
\<close>

datatype retry_event = Called int "jsval option" | Slept real

text \<open>
  The statements behind the loop: \<^verbatim>\<open>if (lastError) throw lastError; throw new
  AppError('COMMAND_FAILED', 'retry failed')\<close>.
\<close>

definition retryFailed :: AppError where
  "retryFailed = \<lparr>err_code = ''COMMAND_FAILED'', err_message = ''retry failed'', err_details = None\<rparr>"

definition throwLast :: "jsval \<Rightarrow> jsval" where
  "throwLast lastError = (if truthy lastError then lastError else JAppError retryFailed)"

text \<open>
  The \<^verbatim>\<open>for\<close> loop. The operation \<open>fn\<close> acts on a world \<open>'w\<close> and returns a value
  (\<open>Inr\<close>) or throws (\<open>Inl\<close>); \<open>rnd n\<close> is what \<^verbatim>\<open>Math.random()\<close> gives at attempt
  \<open>n\<close>. The result is what \<^verbatim>\<open>withRetry\<close> returns or throws, the world after the last
  call, and the events in order.
\<close>

function retryLoop ::
  "('w \<Rightarrow> (jsval + 'a) \<times> 'w) \<Rightarrow> real \<Rightarrow> real \<Rightarrow> real \<Rightarrow> real \<Rightarrow>
   (jsval \<Rightarrow> int \<Rightarrow> bool) option \<Rightarrow> (int \<Rightarrow> real) \<Rightarrow>
   int \<Rightarrow> jsval \<Rightarrow> 'w \<Rightarrow> retry_event list \<Rightarrow> (jsval + 'a) \<times> 'w \<times> retry_event list" where
  "retryLoop fn atts base maxD jit should rnd attempt lastError w tr =
     (if of_int attempt \<le> atts then
        (case fn w of
           (Inr v, w') \<Rightarrow> (Inr v, w', tr @ [Called attempt None])
         | (Inl err, w') \<Rightarrow>
             if of_int attempt \<ge> atts
             then (Inl (throwLast err), w', tr @ [Called attempt (Some err)])
             else if (case should of None \<Rightarrow> False | Some f \<Rightarrow> \<not> f err attempt)
             then (Inl (throwLast err), w', tr @ [Called attempt (Some err)])
             else retryLoop fn atts base maxD jit should rnd (attempt + 1) err w'
                    (tr @ [Called attempt (Some err),
                           Slept (computeDelay base maxD jit attempt (rnd attempt))]))
      else (Inl (throwLast lastError), w, tr))"
  by pat_completeness auto
termination
  by (relation "measure (\<lambda>(fn, atts, base, maxD, jit, should, rnd, attempt, lastError, w, tr).
                   nat (\<lfloor>atts\<rfloor> + 1 - attempt))") (auto simp: le_floor_iff)

declare retryLoop.simps [simp del]

text \<open>
  The first four statements of \<^verbatim>\<open>withRetry\<close>:
  \<^verbatim>\<open>options.attempts ?? defaultOptions.attempts\<close> and its like.
\<close>

definition attemptsOf :: "RetryOptions \<Rightarrow> real" where
  "attemptsOf options = (case attempts options of Some a \<Rightarrow> a | None \<Rightarrow> def_attempts defaultOptions)"

definition baseDelayOf :: "RetryOptions \<Rightarrow> real" where
  "baseDelayOf options =
     (case baseDelayMs options of Some b \<Rightarrow> b | None \<Rightarrow> def_baseDelayMs defaultOptions)"

definition maxDelayOf :: "RetryOptions \<Rightarrow> real" where
  "maxDelayOf options =
     (case maxDelayMs options of Some m \<Rightarrow> m | None \<Rightarrow> def_maxDelayMs defaultOptions)"

definition jitterOf :: "RetryOptions \<Rightarrow> real" where
  "jitterOf options = (case jitter options of Some j \<Rightarrow> j | None \<Rightarrow> def_jitter defaultOptions)"

definition withRetry ::
  "('w \<Rightarrow> (jsval + 'a) \<times> 'w) \<Rightarrow> RetryOptions \<Rightarrow> (int \<Rightarrow> real) \<Rightarrow> 'w \<Rightarrow>
   (jsval + 'a) \<times> 'w \<times> retry_event list" where
  "withRetry fn options rnd w =
     retryLoop fn (attemptsOf options) (baseDelayOf options) (maxDelayOf options)
       (jitterOf options) (shouldRetry options) rnd 1 JUndefined w []"

text \<open>The calls of the operation among the events of a run.\<close>

fun isCalled :: "retry_event \<Rightarrow> bool" where
  "isCalled (Called n e) = True"
| "isCalled (Slept d) = False"

definition calls :: "retry_event list \<Rightarrow> nat" where
  "calls tr = length (filter isCalled tr)"

section \<open>Refs (utils/snapshot.ts)\<close>

text \<open>The decimal numeral of a number, as \<^verbatim>\<open>"e" + index\<close> renders the index.\<close>

definition digitChar :: "nat \<Rightarrow> char" where
  "digitChar d = char_of (48 + d)"

function decimal :: "nat \<Rightarrow> string" where
  "decimal n = (if n < 10 then [digitChar n] else decimal (n div 10) @ [digitChar (n mod 10)])"
  by pat_completeness auto
termination
  by (relation "measure id") auto

declare decimal.simps [simp del]

text \<open>The number that a decimal numeral stands for.\<close>

definition decimalValue :: "string \<Rightarrow> nat" where
  "decimalValue s = foldl (\<lambda>acc c. 10 * acc + (of_char c - 48)) 0 s"

definition isDigit :: "char \<Rightarrow> bool" where
  "isDigit c = (48 \<le> (of_char c :: nat) \<and> (of_char c :: nat) \<le> 57)"

text \<open>
  Modelled from the spec: \<^verbatim>\<open>attachRefs\<close> of utils/snapshot.ts, which is not among the
  sources. The spec: "assigns ref = "e" + positionalIndex to every node in the given
  order".
\<close>

definition attachRefs :: "SnapshotNode list \<Rightarrow> SnapshotNode list" where
  "attachRefs nodes =
     map (\<lambda>(i, node). node\<lparr>n_ref := Some (''e'' @ decimal i)\<rparr>) (enumerate 0 nodes)"

text \<open>
  Modelled from the spec: \<^verbatim>\<open>findNodeByRef\<close> of utils/snapshot.ts, which is not among
  the sources. The spec: "linear lookup by exact ref match; returns null if absent".
\<close>

definition findNodeByRef :: "SnapshotNode list \<Rightarrow> string \<Rightarrow> SnapshotNode option" where
  "findNodeByRef nodes ref = List.find (\<lambda>node. n_ref node = Some ref) nodes"

text \<open>
  Modelled from the spec: \<^verbatim>\<open>normalizeRef\<close> of utils/snapshot.ts, which is not among the
  sources. The spec: "accepts forms with or without a leading @; returns null for
  empty/invalid input", a ref being "an opaque string token (e<N>, N = 0-based index)":
  one leading \<open>@\<close> is dropped, and what remains is returned when it is the letter \<open>e\<close>
  followed by decimal digits.
\<close>

definition isRefToken :: "string \<Rightarrow> bool" where
  "isRefToken s =
     (case s of [] \<Rightarrow> False
      | c # ds \<Rightarrow> c = CHR ''e'' \<and> ds \<noteq> [] \<and> list_all isDigit ds)"

definition normalizeRef :: "string \<Rightarrow> string option" where
  "normalizeRef input =
     (let s = (if startsWith input ''@'' then drop 1 input else input)
      in if isRefToken s then Some s else None)"

text \<open>
  Modelled from the spec: \<^verbatim>\<open>centerOfRect\<close> of utils/snapshot.ts, which is not among the
  sources. The spec: "returns the geometric center".
\<close>

definition centerOfRect :: "SnapshotRect \<Rightarrow> real \<times> real" where
  "centerOfRect rect = (r_x rect + r_width rect / 2, r_y rect + r_height rect / 2)"

section \<open>The accessibility snapshot (platforms/ios/ax-snapshot, src/unnamed/part_001)\<close>

record AXFrame =
  fr_x :: real
  fr_y :: real
  fr_width :: real
  fr_height :: real

datatype AXNode =
  AXNode (ax_role: "string option") (ax_subrole: "string option") (ax_label: "string option")
         (ax_value: "string option") (ax_identifier: "string option")
         (ax_frame: "AXFrame option") (ax_children: "AXNode list option")

text \<open>
  An element of the list \<open>nodes\<close> of \<^verbatim>\<open>snapshotAx\<close>: \<^verbatim>\<open>AXNode & { depth: number }\<close>,
  whose \<open>children\<close> are always \<^verbatim>\<open>undefined\<close> and are left out.
\<close>

record FlatNode =
  fl_role :: "string option"
  fl_subrole :: "string option"
  fl_label :: "string option"
  fl_value :: "string option"
  fl_identifier :: "string option"
  fl_frame :: "AXFrame option"
  fl_depth :: nat

text \<open>
  The closure \<^verbatim>\<open>walk\<close>. It appends to the two arrays \<open>nodes\<close> and \<open>frameSamples\<close> of
  the enclosing function; here they are passed in and returned. The sample is the frame
  as the helper reported it, taken before \<open>rootFrame\<close> is subtracted.
\<close>

fun walk ::
  "AXFrame option \<Rightarrow> AXNode \<Rightarrow> nat \<Rightarrow> FlatNode list \<times> AXFrame list \<Rightarrow>
   FlatNode list \<times> AXFrame list" where
  "walk rootFrame (AXNode role subrole label val ident frame children) depth (nodes, frameSamples) =
     (let frameSamples' = (case frame of Some f \<Rightarrow> frameSamples @ [f] | None \<Rightarrow> frameSamples);
          frame' =
            (case frame of
               None \<Rightarrow> None
             | Some f \<Rightarrow>
                 (case rootFrame of
                    None \<Rightarrow> Some f
                  | Some r \<Rightarrow>
                      Some \<lparr>fr_x = fr_x f - fr_x r, fr_y = fr_y f - fr_y r,
                            fr_width = fr_width f, fr_height = fr_height f\<rparr>));
          nodes' = nodes @ [\<lparr>fl_role = role, fl_subrole = subrole, fl_label = label,
                             fl_value = val, fl_identifier = ident, fl_frame = frame',
                             fl_depth = depth\<rparr>]
      in fold (\<lambda>child acc. walk rootFrame child (depth + 1) acc)
              (case children of None \<Rightarrow> [] | Some cs \<Rightarrow> cs) (nodes', frameSamples'))"

text \<open>
  The loop of \<^verbatim>\<open>normalizeFrames\<close> that finds the least \<open>x\<close> and the least \<open>y\<close>. Both
  start at \<^verbatim>\<open>Number.POSITIVE_INFINITY\<close>, which is \<open>None\<close> here: every number is below it.
\<close>

fun minLoop :: "AXFrame list \<Rightarrow> real option \<times> real option \<Rightarrow> real option \<times> real option" where
  "minLoop [] (minX, minY) = (minX, minY)"
| "minLoop (frame # frames) (minX, minY) =
     minLoop frames
       (if (case minX of None \<Rightarrow> True | Some m \<Rightarrow> fr_x frame < m) then Some (fr_x frame) else minX,
        if (case minY of None \<Rightarrow> True | Some m \<Rightarrow> fr_y frame < m) then Some (fr_y frame) else minY)"

text \<open>\<^verbatim>\<open>m <= c\<close> for a minimum \<open>m\<close> that may still be infinite.\<close>

definition belowOpt :: "real option \<Rightarrow> real \<Rightarrow> bool" where
  "belowOpt m c = (case m of None \<Rightarrow> False | Some v \<Rightarrow> v \<le> c)"

text \<open>
  The function that \<^verbatim>\<open>normalizeFrames\<close> maps over the nodes when \<open>nearZero\<close> holds:
  the origin is added to the corner of the frame, if the node has one.
\<close>

definition addOrigin :: "AXFrame \<Rightarrow> FlatNode \<Rightarrow> FlatNode" where
  "addOrigin origin node =
     node\<lparr>fl_frame :=
       (case fl_frame node of
          None \<Rightarrow> None
        | Some f \<Rightarrow>
            Some \<lparr>fr_x = fr_x f + fr_x origin, fr_y = fr_y f + fr_y origin,
                  fr_width = fr_width f, fr_height = fr_height f\<rparr>)\<rparr>"

definition normalizeFrames ::
  "FlatNode list \<Rightarrow> AXFrame option \<Rightarrow> AXFrame list \<Rightarrow> FlatNode list" where
  "normalizeFrames nodes originFrame frames =
     (case originFrame of
        None \<Rightarrow> nodes
      | Some origin \<Rightarrow>
          if length frames = 0 then nodes
          else let (minX, minY) = minLoop frames (None, None);
                   nearZero = (belowOpt minX 5 \<and> belowOpt minY 5)
               in if nearZero
                  then map (addOrigin origin) nodes
                  else nodes)"

text \<open>
  The part of \<^verbatim>\<open>snapshotAx\<close> behind the decoding of the helper's output: from the
  decoded tree and window frame to the nodes it returns.
\<close>

definition mapNode :: "FlatNode \<times> nat \<Rightarrow> SnapshotNode" where
  "mapNode p =
     (case p of (node, index) \<Rightarrow>
        \<lparr>n_index = Some index, n_ref = None, n_depth = Some (fl_depth node),
         n_type = (case fl_subrole node of Some t \<Rightarrow> Some t | None \<Rightarrow> fl_role node),
         n_label = fl_label node, n_value = fl_value node, n_identifier = fl_identifier node,
         n_rect = (case fl_frame node of
                     None \<Rightarrow> None
                   | Some f \<Rightarrow> Some \<lparr>r_x = fr_x f, r_y = fr_y f,
                                       r_width = fr_width f, r_height = fr_height f\<rparr>)\<rparr>)"

definition snapshotTree :: "AXNode \<Rightarrow> AXFrame option \<Rightarrow> SnapshotNode list" where
  "snapshotTree tree originFrame =
     (let rootFrame = (case ax_frame tree of Some f \<Rightarrow> Some f | None \<Rightarrow> originFrame);
          (nodes, frameSamples) = walk rootFrame tree 0 ([], []);
          normalized = normalizeFrames nodes rootFrame frameSamples
      in map mapNode (zip normalized [0 ..< length normalized]))"

text \<open>
  The drift correction as the specification words it, to be compared with
  \<open>normalizeFrames\<close>: "if the minimum observed (x, y) across all sampled frames is not
  already near zero (> 5 px in either axis), the normalizer ... adds back the origin
  frame's (x, y) to every node's rect", and keeps the nodes otherwise.
\<close>

definition normalizeFrames_spec :: "FlatNode list \<Rightarrow> AXFrame \<Rightarrow> AXFrame list \<Rightarrow> FlatNode list" where
  "normalizeFrames_spec nodes origin frames =
     (if 5 < Min (fr_x ` set frames) \<or> 5 < Min (fr_y ` set frames)
      then map (addOrigin origin) nodes else nodes)"

text \<open>
  What \<open>walk\<close> computes, said without the two arrays: the frames that the helper
  reported, in pre-order, and the nodes in pre-order with the root frame subtracted.
\<close>

definition subtractRoot :: "AXFrame option \<Rightarrow> AXFrame \<Rightarrow> AXFrame" where
  "subtractRoot rootFrame f =
     (case rootFrame of
        None \<Rightarrow> f
      | Some r \<Rightarrow> \<lparr>fr_x = fr_x f - fr_x r, fr_y = fr_y f - fr_y r,
                    fr_width = fr_width f, fr_height = fr_height f\<rparr>)"

fun reportedFrames :: "AXNode \<Rightarrow> AXFrame list" where
  "reportedFrames (AXNode role subrole label val ident frame children) =
     (case frame of Some f \<Rightarrow> [f] | None \<Rightarrow> []) @
     concat (map reportedFrames (case children of None \<Rightarrow> [] | Some cs \<Rightarrow> cs))"

fun preorder :: "AXFrame option \<Rightarrow> AXNode \<Rightarrow> nat \<Rightarrow> FlatNode list" where
  "preorder rootFrame (AXNode role subrole label val ident frame children) depth =
     \<lparr>fl_role = role, fl_subrole = subrole, fl_label = label, fl_value = val,
      fl_identifier = ident, fl_frame = map_option (subtractRoot rootFrame) frame,
      fl_depth = depth\<rparr> #
     concat (map (\<lambda>child. preorder rootFrame child (depth + 1))
               (case children of None \<Rightarrow> [] | Some cs \<Rightarrow> cs))"

subsection \<open>Processes, files and the helper binary\<close>

record DeviceInfo =
  dev_platform :: string
  dev_kind :: string
  dev_id :: string
  dev_name :: string

record CmdResult =
  cr_stdout :: "string option"
  cr_stderr :: "string option"
  cr_exitCode :: int

text \<open>
  The world that \<^verbatim>\<open>snapshotAx\<close> acts on: the processes spawned so far (command and
  arguments, in order), the texts appended to files so far (path and text, in order), and
  the state \<open>'x\<close> of everything outside the program (the file system, the simulator).
\<close>

record 'x world =
  w_spawned :: "(string \<times> string list) list"
  w_appended :: "(string \<times> string) list"
  w_ext :: 'x

text \<open>
  What the program calls but does not define. \<open>runCmd\<close> is utils/exec.ts run with
  \<^verbatim>\<open>allowFailure: true\<close>: given the command, its arguments and the working directory it
  returns the result of the process, or throws, and may change the outside.
  \<open>jsonParse\<close> is \<^verbatim>\<open>JSON.parse\<close> followed by the reading of the value: \<open>Inl\<close> is the
  text \<^verbatim>\<open>String(err)\<close> of the error it throws. \<open>random n\<close> is the result of
  \<^verbatim>\<open>Math.random()\<close> at the \<open>n\<close>-th attempt of a retry.
\<close>

datatype payload =
    PSnapshot "AXNode option" "AXFrame option"
  | PTree AXNode
  | PNull
  | PPrimitive

text \<open>
  \<open>PSnapshot root windowFrame\<close> is an object with a key \<open>root\<close> (\<open>root\<close> is \<open>None\<close> when
  the value is missing or falsy, \<open>windowFrame\<close> is \<open>None\<close> when it is missing or
  \<^verbatim>\<open>null\<close>); \<open>PTree\<close> is any other object, read as the root node; \<open>PNull\<close> is
  \<^verbatim>\<open>null\<close>; \<open>PPrimitive\<close> is a number, a string or a boolean, all of whose properties
  read as \<^verbatim>\<open>undefined\<close>.
\<close>

record 'x AxEnv =
  runCmd :: "string \<Rightarrow> string list \<Rightarrow> string option \<Rightarrow> 'x \<Rightarrow> (jsval + CmdResult) \<times> 'x"
  existsSync :: "'x \<Rightarrow> string \<Rightarrow> bool"
  envAxBinary :: "string option"
  cwd :: string
  pathJoin :: "string list \<Rightarrow> string"
  pathDirname :: "string \<Rightarrow> string"
  jsonParse :: "string \<Rightarrow> string + payload"
  random :: "int \<Rightarrow> real"

definition spawn ::
  "'x AxEnv \<Rightarrow> string \<Rightarrow> string list \<Rightarrow> string option \<Rightarrow> 'x world \<Rightarrow>
   (jsval + CmdResult) \<times> 'x world" where
  "spawn env cmd args dir w =
     (case runCmd env cmd args dir (w_ext w) of
        (r, x') \<Rightarrow> (r, w\<lparr>w_spawned := w_spawned w @ [(cmd, args)], w_ext := x'\<rparr>))"

definition appendFileSync :: "string \<Rightarrow> string \<Rightarrow> 'x world \<Rightarrow> 'x world" where
  "appendFileSync path text w = w\<lparr>w_appended := w_appended w @ [(path, text)]\<rparr>"

definition showInt :: "int \<Rightarrow> string" where
  "showInt i = (if i < 0 then ''-'' @ decimal (nat (- i)) else decimal (nat i))"

text \<open>The loop of \<^verbatim>\<open>findProjectRoot\<close>, \<open>n\<close> rounds left.\<close>

fun findRootLoop :: "'x AxEnv \<Rightarrow> 'x \<Rightarrow> nat \<Rightarrow> string \<Rightarrow> string option" where
  "findRootLoop env x 0 current = None"
| "findRootLoop env x (Suc n) current =
     (if existsSync env x (pathJoin env [current, ''package.json'']) then Some current
      else findRootLoop env x n (pathDirname env current))"

definition findProjectRoot :: "'x AxEnv \<Rightarrow> 'x \<Rightarrow> string" where
  "findProjectRoot env x =
     (case findRootLoop env x 6 (cwd env) of Some dir \<Rightarrow> dir | None \<Rightarrow> cwd env)"

definition buildFailed :: "CmdResult \<Rightarrow> AppError" where
  "buildFailed result =
     \<lparr>err_code = ''COMMAND_FAILED'', err_message = ''Failed to build AX snapshot tool'',
      err_details = Some \<lparr>d_stderr = cr_stderr result, d_stdout = cr_stdout result,
                           d_retryable = None, d_error = None\<rparr>\<rparr>"

definition ensureAxSnapshotBinary :: "'x AxEnv \<Rightarrow> 'x world \<Rightarrow> (jsval + string) \<times> 'x world" where
  "ensureAxSnapshotBinary env w =
     (let projectRoot = findProjectRoot env (w_ext w);
          packageDir = pathJoin env [projectRoot, ''ios-runner'', ''AXSnapshot''];
          packagedPath = pathJoin env [projectRoot, ''dist'', ''bin'', ''axsnapshot''];
          binaryPath = pathJoin env [packageDir, ''.build'', ''release'', ''axsnapshot'']
      in if (case envAxBinary env of
               None \<Rightarrow> False
             | Some envPath \<Rightarrow> envPath \<noteq> [] \<and> existsSync env (w_ext w) envPath)
         then (Inr (case envAxBinary env of Some envPath \<Rightarrow> envPath | None \<Rightarrow> []), w)
         else if existsSync env (w_ext w) packagedPath then (Inr packagedPath, w)
         else if existsSync env (w_ext w) binaryPath then (Inr binaryPath, w)
         else (case spawn env ''swift'' [''build'', ''-c'', ''release''] (Some packageDir) w of
                 (Inl err, w') \<Rightarrow> (Inl err, w')
               | (Inr result, w') \<Rightarrow>
                   if cr_exitCode result \<noteq> 0 \<or> \<not> existsSync env (w_ext w') binaryPath
                   then (Inl (JAppError (buildFailed result)), w')
                   else (Inr binaryPath, w')))"

subsection \<open>One attempt, and the whole of \<^verbatim>\<open>snapshotAx\<close>\<close>

definition axHintFromStderr :: "string \<Rightarrow> string" where
  "axHintFromStderr stderrText =
     (let lower = toLowerCase stderrText
      in if strIncludes lower ''accessibility permission''
         then '' Enable Accessibility for your terminal in System Settings > Privacy & Security > Accessibility, ''
              @ ''or use --backend xctest (slower snapshots via XCTest).''
         else if strIncludes lower ''could not find ios app content''
         then '' AX snapshot sometimes caches empty content. Try restarting the Simulator app.''
         else [])"

definition appendAxTrace :: "string \<Rightarrow> CmdResult \<Rightarrow> 'x world \<Rightarrow> 'x world" where
  "appendAxTrace traceLogPath result w =
     (let stdoutText = (case cr_stdout result of Some t \<Rightarrow> t | None \<Rightarrow> []);
          stderrText = (case cr_stderr result of Some t \<Rightarrow> t | None \<Rightarrow> []);
          header = [CHR 0x0A] @ ''[axsnapshot] exit='' @ showInt (cr_exitCode result)
                   @ '' stdoutBytes='' @ decimal (length stdoutText)
                   @ '' stderrBytes='' @ decimal (length stderrText) @ [CHR 0x0A];
          w1 = appendFileSync traceLogPath header w
      in if cr_exitCode result \<noteq> 0 \<or> length stderrText > 0
         then (let w2 = (if length stderrText > 0
                         then appendFileSync traceLogPath (stderrText @ [CHR 0x0A]) w1 else w1)
               in if cr_exitCode result \<noteq> 0 \<and> length stdoutText > 0
                  then appendFileSync traceLogPath (stdoutText @ [CHR 0x0A]) w2 else w2)
         else w1)"

definition isRetryableAxError :: "string \<Rightarrow> bool" where
  "isRetryableAxError stderrText =
     (let lower = toLowerCase stderrText
      in if strIncludes lower ''could not find ios app content'' then True
         else if strIncludes lower ''timeout'' then True
         else False)"

definition isRetryableError :: "jsval \<Rightarrow> bool" where
  "isRetryableError err =
     (case err of
        JAppError e \<Rightarrow>
          err_code e = ''COMMAND_FAILED'' \<and>
          (case err_details e of None \<Rightarrow> False | Some d \<Rightarrow> d_retryable d = Some True)
      | _ \<Rightarrow> False)"

text \<open>\<^verbatim>\<open>(attemptResult.stderr ?? '').toString()\<close>\<close>

definition stderrOf :: "CmdResult \<Rightarrow> string" where
  "stderrOf result = (case cr_stderr result of Some t \<Rightarrow> t | None \<Rightarrow> [])"

definition snapshotFailed :: "CmdResult \<Rightarrow> AppError" where
  "snapshotFailed attemptResult =
     (let stderrText = stderrOf attemptResult;
          hint = axHintFromStderr stderrText;
          retryable = isRetryableAxError stderrText
      in \<lparr>err_code = ''COMMAND_FAILED'', err_message = ''AX snapshot failed'',
          err_details = Some \<lparr>d_stderr = Some (stderrText @ hint),
                               d_stdout = cr_stdout attemptResult,
                               d_retryable = Some retryable, d_error = None\<rparr>\<rparr>)"

text \<open>The operation handed to \<^verbatim>\<open>withRetry\<close>: one run of the helper.\<close>

definition axAttempt ::
  "'x AxEnv \<Rightarrow> string \<Rightarrow> string option \<Rightarrow> 'x world \<Rightarrow> (jsval + CmdResult) \<times> 'x world" where
  "axAttempt env binary traceLogPath w =
     (case spawn env binary [] None w of
        (Inl err, w1) \<Rightarrow> (Inl err, w1)
      | (Inr attemptResult, w1) \<Rightarrow>
          (let w2 = (case traceLogPath of
                       None \<Rightarrow> w1
                     | Some path \<Rightarrow> if path \<noteq> [] then appendAxTrace path attemptResult w1 else w1)
           in if cr_exitCode attemptResult \<noteq> 0
              then (Inl (JAppError (snapshotFailed attemptResult)), w2)
              else (Inr attemptResult, w2)))"

text \<open>The options that \<^verbatim>\<open>snapshotAx\<close> hands to \<^verbatim>\<open>withRetry\<close>: only \<open>shouldRetry\<close>.\<close>

definition axRetryOptions :: RetryOptions where
  "axRetryOptions =
     \<lparr>attempts = None, baseDelayMs = None, maxDelayMs = None, jitter = None,
      shouldRetry = Some (\<lambda>err attempt. isRetryableError err)\<rparr>"

definition invalidJson :: "string \<Rightarrow> AppError" where
  "invalidJson text =
     \<lparr>err_code = ''COMMAND_FAILED'', err_message = ''Invalid AX snapshot JSON'',
      err_details = Some \<lparr>d_stderr = None, d_stdout = None, d_retryable = None,
                           d_error = Some text\<rparr>\<rparr>"

text \<open>
  The \<^verbatim>\<open>try\<close> block that decodes the helper's output: the tree and the window frame,
  or the error thrown. \<^verbatim>\<open>JSON.parse(undefined)\<close> throws a syntax error, whose text is
  not modelled; \<^verbatim>\<open>null\<close> passes the block and fails at \<^verbatim>\<open>tree.frame\<close> behind it
  with a \<^verbatim>\<open>TypeError\<close>.
\<close>

definition emptyNode :: AXNode where
  "emptyNode = AXNode None None None None None None None"

definition decodePayload :: "'x AxEnv \<Rightarrow> string option \<Rightarrow> jsval + AXNode \<times> AXFrame option" where
  "decodePayload env out =
     (case out of
        None \<Rightarrow> Inl (JAppError (invalidJson ''SyntaxError''))
      | Some text \<Rightarrow>
          (case jsonParse env text of
             Inl msg \<Rightarrow> Inl (JAppError (invalidJson msg))
           | Inr (PSnapshot None windowFrame) \<Rightarrow>
               Inl (JAppError (invalidJson ''Error: AX snapshot missing root''))
           | Inr (PSnapshot (Some rootNode) windowFrame) \<Rightarrow> Inr (rootNode, windowFrame)
           | Inr (PTree tree) \<Rightarrow> Inr (tree, None)
           | Inr PNull \<Rightarrow> Inl (JError ''TypeError'')
           | Inr PPrimitive \<Rightarrow> Inr (emptyNode, None)))"

record SnapshotAxOptions =
  traceLogPath :: "string option"

definition unsupportedAx :: AppError where
  "unsupportedAx =
     \<lparr>err_code = ''UNSUPPORTED_OPERATION'',
      err_message = ''AX snapshot is only supported on iOS simulators'', err_details = None\<rparr>"

text \<open>\<^verbatim>\<open>snapshotAx\<close> behind its first statement, the check of the device.\<close>

definition snapshotAxSupported ::
  "'x AxEnv \<Rightarrow> SnapshotAxOptions \<Rightarrow> 'x world \<Rightarrow> (jsval + SnapshotNode list) \<times> 'x world" where
  "snapshotAxSupported env options w =
     (case ensureAxSnapshotBinary env w of
        (Inl err, w1) \<Rightarrow> (Inl err, w1)
      | (Inr binary, w1) \<Rightarrow>
          (case withRetry (axAttempt env binary (traceLogPath options)) axRetryOptions
                  (random env) w1 of
             (Inl err, w2, tr) \<Rightarrow> (Inl err, w2)
           | (Inr result, w2, tr) \<Rightarrow>
               (case decodePayload env (cr_stdout result) of
                  Inl err \<Rightarrow> (Inl err, w2)
                | Inr (tree, originFrame) \<Rightarrow> (Inr (snapshotTree tree originFrame), w2))))"

definition snapshotAx ::
  "'x AxEnv \<Rightarrow> DeviceInfo \<Rightarrow> SnapshotAxOptions \<Rightarrow> 'x world \<Rightarrow>
   (jsval + SnapshotNode list) \<times> 'x world" where
  "snapshotAx env device options w =
     (if dev_platform device \<noteq> ''ios'' \<or> dev_kind device \<noteq> ''simulator''
      then (Inl (JAppError unsupportedAx), w)
      else snapshotAxSupported env options w)"

section \<open>The session daemon (daemon.ts, src/unnamed/part_001)\<close>

record CommandFlags =
  cf_out :: "string option"
  cf_verbose :: "bool option"
  cf_snapshotInteractiveOnly :: "bool option"
  cf_snapshotCompact :: "bool option"
  cf_snapshotDepth :: "nat option"
  cf_snapshotScope :: "string option"
  cf_snapshotRaw :: "bool option"
  cf_other :: "(string \<times> string) list"

definition noFlags :: CommandFlags where
  "noFlags =
     \<lparr>cf_out = None, cf_verbose = None, cf_snapshotInteractiveOnly = None,
      cf_snapshotCompact = None, cf_snapshotDepth = None, cf_snapshotScope = None,
      cf_snapshotRaw = None, cf_other = []\<rparr>"

record DaemonRequest =
  rq_token :: string
  rq_session :: string
  rq_command :: string
  rq_positionals :: "string list option"
  rq_flags :: "CommandFlags option"

record SnapshotState =
  ss_nodes :: "SnapshotNode list"
  ss_truncated :: "bool option"
  ss_createdAt :: nat

record SessionState =
  s_name :: string
  s_device :: DeviceInfo
  s_createdAt :: nat
  s_appBundleId :: "string option"
  s_snapshot :: "SnapshotState option"

record DispatchContext =
  cx_appBundleId :: "string option"
  cx_verbose :: "bool option"
  cx_logPath :: string
  cx_snapshotInteractiveOnly :: "bool option"
  cx_snapshotCompact :: "bool option"
  cx_snapshotDepth :: "nat option"
  cx_snapshotScope :: "string option"
  cx_snapshotRaw :: "bool option"

text \<open>
  What \<^verbatim>\<open>dispatchCommand\<close> resolves to, when it is not \<^verbatim>\<open>undefined\<close>: the daemon reads
  \<open>nodes\<close> and \<open>truncated\<close>, the rest is passed on.
\<close>

record DispatchData =
  dd_nodes :: "SnapshotNode list option"
  dd_truncated :: "bool option"
  dd_other :: "(string \<times> string) list"

record SessionSummary =
  sm_name :: string
  sm_platform :: string
  sm_device :: string
  sm_id :: string
  sm_createdAt :: nat

text \<open>The \<open>data\<close> of a response, one constructor for each shape the handler builds.\<close>

datatype ResponseData =
    Sessions "SessionSummary list"
  | SessionNamed string
  | Snapshot "SnapshotNode list" bool
  | RefPoint string real real
  | RefAttrs string SnapshotNode
  | RefText string string SnapshotNode
  | Forwarded DispatchData
  | NoData

datatype DaemonResponse = Ok ResponseData | Failed string string

text \<open>
  What the handler calls but does not define (core/dispatch.ts, platforms/ios, the clock).
  Each call acts on the outside \<open>'x\<close> and returns (\<open>Inr\<close>) or throws (\<open>Inl\<close>).
  \<open>numToString\<close> is \<^verbatim>\<open>String(x)\<close> on a number.
\<close>

record 'x DaemonEnv =
  token :: string
  logPath :: string
  resolveTargetDevice :: "CommandFlags \<Rightarrow> 'x \<Rightarrow> (jsval + DeviceInfo) \<times> 'x"
  resolveIosApp :: "DeviceInfo \<Rightarrow> string \<Rightarrow> 'x \<Rightarrow> (jsval + string) \<times> 'x"
  dispatchCommand ::
    "DeviceInfo \<Rightarrow> string \<Rightarrow> string list \<Rightarrow> string option \<Rightarrow> DispatchContext \<Rightarrow> 'x \<Rightarrow>
     (jsval + DispatchData option) \<times> 'x"
  stopIosRunnerSession :: "string \<Rightarrow> 'x \<Rightarrow> (jsval + unit) \<times> 'x"
  dateNow :: "'x \<Rightarrow> nat"
  numToString :: "real \<Rightarrow> string"

text \<open>
  What a request does, in order: the calls to the outside and the changes of the session
  map.
\<close>

datatype daemon_event =
    DeviceResolved
  | AppResolved string
  | Dispatched string string "string list"
  | RunnerStopped string
  | SessionSet string
  | SessionDeleted string

text \<open>
  The state of the daemon: the map \<open>sessions\<close> (a JavaScript \<^verbatim>\<open>Map\<close>, which keeps its
  keys in the order of their first insertion), the events so far, and the outside.
\<close>

record 'x daemon =
  sessions :: "(string \<times> SessionState) list"
  events :: "daemon_event list"
  outside :: 'x

definition mapGet :: "(string \<times> 'v) list \<Rightarrow> string \<Rightarrow> 'v option" where
  "mapGet m k = map_of m k"

fun mapSet :: "(string \<times> 'v) list \<Rightarrow> string \<Rightarrow> 'v \<Rightarrow> (string \<times> 'v) list" where
  "mapSet [] k v = [(k, v)]"
| "mapSet (p # ps) k v = (if fst p = k then (k, v) # ps else p # mapSet ps k v)"

definition mapDelete :: "(string \<times> 'v) list \<Rightarrow> string \<Rightarrow> (string \<times> 'v) list" where
  "mapDelete m k = filter (\<lambda>p. fst p \<noteq> k) m"

definition contextFromFlags ::
  "'x DaemonEnv \<Rightarrow> CommandFlags option \<Rightarrow> string option \<Rightarrow> DispatchContext" where
  "contextFromFlags env flags appBundleId =
     \<lparr>cx_appBundleId = appBundleId,
      cx_verbose = Option.bind flags cf_verbose,
      cx_logPath = logPath env,
      cx_snapshotInteractiveOnly = Option.bind flags cf_snapshotInteractiveOnly,
      cx_snapshotCompact = Option.bind flags cf_snapshotCompact,
      cx_snapshotDepth = Option.bind flags cf_snapshotDepth,
      cx_snapshotScope = Option.bind flags cf_snapshotScope,
      cx_snapshotRaw = Option.bind flags cf_snapshotRaw\<rparr>"

text \<open>The calls to the outside, each leaving its event.\<close>

definition doResolveDevice ::
  "'x DaemonEnv \<Rightarrow> CommandFlags \<Rightarrow> 'x daemon \<Rightarrow> (jsval + DeviceInfo) \<times> 'x daemon" where
  "doResolveDevice env flags st =
     (case resolveTargetDevice env flags (outside st) of
        (r, x') \<Rightarrow> (r, st\<lparr>events := events st @ [DeviceResolved], outside := x'\<rparr>))"

definition doResolveIosApp ::
  "'x DaemonEnv \<Rightarrow> DeviceInfo \<Rightarrow> string \<Rightarrow> 'x daemon \<Rightarrow> (jsval + string) \<times> 'x daemon" where
  "doResolveIosApp env device app st =
     (case resolveIosApp env device app (outside st) of
        (r, x') \<Rightarrow> (r, st\<lparr>events := events st @ [AppResolved app], outside := x'\<rparr>))"

definition doDispatch ::
  "'x DaemonEnv \<Rightarrow> DeviceInfo \<Rightarrow> string \<Rightarrow> string list \<Rightarrow> string option \<Rightarrow> DispatchContext \<Rightarrow>
   'x daemon \<Rightarrow> (jsval + DispatchData option) \<times> 'x daemon" where
  "doDispatch env device command positionals out ctx st =
     (case dispatchCommand env device command positionals out ctx (outside st) of
        (r, x') \<Rightarrow>
          (r, st\<lparr>events := events st @ [Dispatched (dev_id device) command positionals],
                 outside := x'\<rparr>))"

definition doStopRunner ::
  "'x DaemonEnv \<Rightarrow> string \<Rightarrow> 'x daemon \<Rightarrow> (jsval + unit) \<times> 'x daemon" where
  "doStopRunner env deviceId st =
     (case stopIosRunnerSession env deviceId (outside st) of
        (r, x') \<Rightarrow> (r, st\<lparr>events := events st @ [RunnerStopped deviceId], outside := x'\<rparr>))"

definition sessionsSet :: "string \<Rightarrow> SessionState \<Rightarrow> 'x daemon \<Rightarrow> 'x daemon" where
  "sessionsSet name session st =
     st\<lparr>sessions := mapSet (sessions st) name session, events := events st @ [SessionSet name]\<rparr>"

definition sessionsDelete :: "string \<Rightarrow> 'x daemon \<Rightarrow> 'x daemon" where
  "sessionsDelete name st =
     st\<lparr>sessions := mapDelete (sessions st) name, events := events st @ [SessionDeleted name]\<rparr>"

subsection \<open>The branches of \<^verbatim>\<open>handleRequest\<close>\<close>

text \<open>
  Each branch takes the request, the session name (\<^verbatim>\<open>req.session || 'default'\<close>) and the
  state, and gives what the handler returns (\<open>Inr\<close>) or throws (\<open>Inl\<close>) with the state
  it leaves. An exception leaves the handler at the \<^verbatim>\<open>await\<close> that raised it: the
  statements behind it are not run.
\<close>

definition isIosSimulator :: "DeviceInfo \<Rightarrow> bool" where
  "isIosSimulator device = (dev_platform device = ''ios'' \<and> dev_kind device = ''simulator'')"

definition positionalsOf :: "DaemonRequest \<Rightarrow> string list" where
  "positionalsOf req = (case rq_positionals req of Some ps \<Rightarrow> ps | None \<Rightarrow> [])"

definition positionalAt :: "DaemonRequest \<Rightarrow> nat \<Rightarrow> string option" where
  "positionalAt req i =
     (case rq_positionals req of
        None \<Rightarrow> None
      | Some ps \<Rightarrow> if i < length ps then Some (ps ! i) else None)"

definition outOf :: "DaemonRequest \<Rightarrow> string option" where
  "outOf req = Option.bind (rq_flags req) cf_out"

definition handleSessionList :: "'x daemon \<Rightarrow> (jsval + DaemonResponse) \<times> 'x daemon" where
  "handleSessionList st =
     (Inr (Ok (Sessions (map (\<lambda>(k, s).
                 \<lparr>sm_name = s_name s, sm_platform = dev_platform (s_device s),
                  sm_device = dev_name (s_device s), sm_id = dev_id (s_device s),
                  sm_createdAt = s_createdAt s\<rparr>) (sessions st)))), st)"

definition handleOpen ::
  "'x DaemonEnv \<Rightarrow> DaemonRequest \<Rightarrow> string \<Rightarrow> 'x daemon \<Rightarrow> (jsval + DaemonResponse) \<times> 'x daemon" where
  "handleOpen env req sessionName st =
     (case doResolveDevice env (case rq_flags req of Some f \<Rightarrow> f | None \<Rightarrow> noFlags) st of
        (Inl err, st1) \<Rightarrow> (Inl err, st1)
      | (Inr device, st1) \<Rightarrow>
          (let (appBundleId, st2) =
                 (if dev_platform device = ''ios''
                  then (case doResolveIosApp env device
                               (case positionalAt req 0 of Some a \<Rightarrow> a | None \<Rightarrow> []) st1 of
                          (Inl err, st') \<Rightarrow> (None, st')
                        | (Inr app, st') \<Rightarrow> (Some app, st'))
                  else (None, st1))
           in case doDispatch env device ''open'' (positionalsOf req) (outOf req)
                     (contextFromFlags env (rq_flags req) appBundleId) st2 of
                (Inl err, st3) \<Rightarrow> (Inl err, st3)
              | (Inr data, st3) \<Rightarrow>
                  (Inr (Ok (SessionNamed sessionName)),
                   sessionsSet sessionName
                     \<lparr>s_name = sessionName, s_device = device,
                      s_createdAt = dateNow env (outside st3),
                      s_appBundleId = appBundleId, s_snapshot = None\<rparr> st3)))"

text \<open>
  \<^verbatim>\<open>close\<close>. The app is closed first when the request names one, then the runner of an
  iOS simulator is stopped, then the entry is deleted; there is no \<^verbatim>\<open>try\<close> around the
  two calls.
\<close>

definition handleClose ::
  "'x DaemonEnv \<Rightarrow> DaemonRequest \<Rightarrow> string \<Rightarrow> 'x daemon \<Rightarrow> (jsval + DaemonResponse) \<times> 'x daemon" where
  "handleClose env req sessionName st =
     (case mapGet (sessions st) sessionName of
        None \<Rightarrow> (Inr (Failed ''SESSION_NOT_FOUND'' ''No active session''), st)
      | Some session \<Rightarrow>
          (case (if (case rq_positionals req of Some ps \<Rightarrow> length ps > 0 | None \<Rightarrow> False)
                 then (case doDispatch env (s_device session) ''close'' (positionalsOf req)
                              (outOf req)
                              (contextFromFlags env (rq_flags req) (s_appBundleId session)) st of
                         (Inl err, st1) \<Rightarrow> (Inl err, st1)
                       | (Inr data, st1) \<Rightarrow> (Inr (), st1))
                 else (Inr (), st)) of
             (Inl err, st1) \<Rightarrow> (Inl err, st1)
           | (Inr u, st1) \<Rightarrow>
               (case (if isIosSimulator (s_device session)
                      then doStopRunner env (dev_id (s_device session)) st1
                      else (Inr (), st1)) of
                  (Inl err, st2) \<Rightarrow> (Inl err, st2)
                | (Inr u', st2) \<Rightarrow>
                    (Inr (Ok (SessionNamed sessionName)), sessionsDelete sessionName st2))))"

text \<open>
  \<^verbatim>\<open>snapshot\<close>. Without a session of that name the device is resolved from the flags
  (\<^verbatim>\<open>session?.device ?? (await resolveTargetDevice(req.flags ?? {}))\<close>), and the entry is
  written all the same.
\<close>

definition handleSnapshot ::
  "'x DaemonEnv \<Rightarrow> DaemonRequest \<Rightarrow> string \<Rightarrow> 'x daemon \<Rightarrow> (jsval + DaemonResponse) \<times> 'x daemon" where
  "handleSnapshot env req sessionName st =
     (let session = mapGet (sessions st) sessionName
      in case (case session of
                 Some s \<Rightarrow> (Inr (s_device s), st)
               | None \<Rightarrow>
                   doResolveDevice env (case rq_flags req of Some f \<Rightarrow> f | None \<Rightarrow> noFlags) st) of
           (Inl err, st1) \<Rightarrow> (Inl err, st1)
         | (Inr device, st1) \<Rightarrow>
             (let appBundleId = Option.bind session s_appBundleId
              in case doDispatch env device ''snapshot'' [] (outOf req)
                        (contextFromFlags env (rq_flags req) appBundleId) st1 of
                   (Inl err, st2) \<Rightarrow> (Inl err, st2)
                 | (Inr data, st2) \<Rightarrow>
                     (let nodes = attachRefs (case Option.bind data dd_nodes of
                                                Some ns \<Rightarrow> ns | None \<Rightarrow> []);
                          truncated = Option.bind data dd_truncated;
                          snapshot = \<lparr>ss_nodes = nodes, ss_truncated = truncated,
                                      ss_createdAt = dateNow env (outside st2)\<rparr>
                      in (Inr (Ok (Snapshot nodes (case truncated of Some t \<Rightarrow> t | None \<Rightarrow> False))),
                          sessionsSet sessionName
                            \<lparr>s_name = sessionName, s_device = device,
                             s_createdAt = (case session of Some s \<Rightarrow> s_createdAt s
                                            | None \<Rightarrow> dateNow env (outside st2)),
                             s_appBundleId = appBundleId, s_snapshot = Some snapshot\<rparr> st2))))"

definition noSnapshot :: DaemonResponse where
  "noSnapshot = Failed ''INVALID_ARGS'' ''No snapshot in session. Run snapshot first.''"

text \<open>\<^verbatim>\<open>session?.snapshot\<close>\<close>

definition snapshotOf :: "SessionState option \<Rightarrow> SnapshotState option" where
  "snapshotOf session = Option.bind session s_snapshot"

definition handleClick ::
  "'x DaemonEnv \<Rightarrow> DaemonRequest \<Rightarrow> string \<Rightarrow> 'x daemon \<Rightarrow> (jsval + DaemonResponse) \<times> 'x daemon" where
  "handleClick env req sessionName st =
     (let session = mapGet (sessions st) sessionName
      in case (session, snapshotOf session) of
           (Some sess, Some snap) \<Rightarrow>
             (let refInput = (case positionalAt req 0 of Some r \<Rightarrow> r | None \<Rightarrow> [])
              in case normalizeRef refInput of
                   None \<Rightarrow> (Inr (Failed ''INVALID_ARGS'' ''click requires a ref like @e2''), st)
                 | Some ref \<Rightarrow>
                     if ref = []
                     then (Inr (Failed ''INVALID_ARGS'' ''click requires a ref like @e2''), st)
                     else (case Option.bind (findNodeByRef (ss_nodes snap) ref) n_rect of
                             None \<Rightarrow>
                               (Inr (Failed ''COMMAND_FAILED''
                                       (''Ref '' @ refInput @ '' not found or has no bounds'')), st)
                           | Some rect \<Rightarrow>
                               (case centerOfRect rect of
                                  (x, y) \<Rightarrow>
                                    (case doDispatch env (s_device sess) ''press''
                                            [numToString env x, numToString env y] (outOf req)
                                            (contextFromFlags env (rq_flags req) (s_appBundleId sess))
                                            st of
                                       (Inl err, st1) \<Rightarrow> (Inl err, st1)
                                     | (Inr data, st1) \<Rightarrow> (Inr (Ok (RefPoint ref x y)), st1)))))
         | _ \<Rightarrow> (Inr noSnapshot, st))"

text \<open>\<^verbatim>\<open>req.positionals.slice(1).join(' ')\<close>\<close>

fun joinSpace :: "string list \<Rightarrow> string" where
  "joinSpace [] = []"
| "joinSpace [s] = s"
| "joinSpace (s # t # ts) = s @ '' '' @ joinSpace (t # ts)"

text \<open>
  \<^verbatim>\<open>fill\<close>. \<open>None\<close> is the case where the first positional does not start with \<open>@\<close>:
  the handler leaves the \<^verbatim>\<open>if\<close> and goes on to the tests behind it.
\<close>

definition handleFill ::
  "'x DaemonEnv \<Rightarrow> DaemonRequest \<Rightarrow> string \<Rightarrow> 'x daemon \<Rightarrow>
   ((jsval + DaemonResponse) \<times> 'x daemon) option" where
  "handleFill env req sessionName st =
     (let session = mapGet (sessions st) sessionName
      in case positionalAt req 0 of
           None \<Rightarrow> None
         | Some first \<Rightarrow>
             if \<not> startsWith first ''@'' then None
             else Some
               (case (session, snapshotOf session) of
                  (Some sess, Some snap) \<Rightarrow>
                    (case normalizeRef first of
                       None \<Rightarrow> (Inr (Failed ''INVALID_ARGS'' ''fill requires a ref like @e2''), st)
                     | Some ref \<Rightarrow>
                         if ref = []
                         then (Inr (Failed ''INVALID_ARGS'' ''fill requires a ref like @e2''), st)
                         else (let text = joinSpace (drop 1 (positionalsOf req))
                               in if text = []
                                  then (Inr (Failed ''INVALID_ARGS'' ''fill requires text after ref''), st)
                                  else (case Option.bind (findNodeByRef (ss_nodes snap) ref) n_rect of
                                          None \<Rightarrow>
                                            (Inr (Failed ''COMMAND_FAILED''
                                                    (''Ref '' @ first @ '' not found or has no bounds'')),
                                             st)
                                        | Some rect \<Rightarrow>
                                            (case centerOfRect rect of
                                               (x, y) \<Rightarrow>
                                                 (case doDispatch env (s_device sess) ''fill''
                                                         [numToString env x, numToString env y, text]
                                                         (outOf req)
                                                         (contextFromFlags env (rq_flags req)
                                                            (s_appBundleId sess)) st of
                                                    (Inl err, st1) \<Rightarrow> (Inl err, st1)
                                                  | (Inr None, st1) \<Rightarrow>
                                                      (Inr (Ok (RefPoint ref x y)), st1)
                                                  | (Inr (Some data), st1) \<Rightarrow>
                                                      (Inr (Ok (Forwarded data)), st1))))))
                | _ \<Rightarrow> (Inr noSnapshot, st)))"

definition handleGet ::
  "DaemonRequest \<Rightarrow> string \<Rightarrow> 'x daemon \<Rightarrow> (jsval + DaemonResponse) \<times> 'x daemon" where
  "handleGet req sessionName st =
     (let sub = positionalAt req 0;
          refInput = positionalAt req 1
      in if sub \<noteq> Some ''text'' \<and> sub \<noteq> Some ''attrs''
         then (Inr (Failed ''INVALID_ARGS'' ''get only supports text or attrs''), st)
         else (case snapshotOf (mapGet (sessions st) sessionName) of
                 None \<Rightarrow> (Inr noSnapshot, st)
               | Some snap \<Rightarrow>
                   (case normalizeRef (case refInput of Some r \<Rightarrow> r | None \<Rightarrow> []) of
                      None \<Rightarrow> (Inr (Failed ''INVALID_ARGS'' ''get text requires a ref like @e2''), st)
                    | Some ref \<Rightarrow>
                        if ref = []
                        then (Inr (Failed ''INVALID_ARGS'' ''get text requires a ref like @e2''), st)
                        else (case findNodeByRef (ss_nodes snap) ref of
                                None \<Rightarrow>
                                  (Inr (Failed ''COMMAND_FAILED''
                                          (''Ref '' @ (case refInput of Some r \<Rightarrow> r
                                                       | None \<Rightarrow> ''undefined'') @ '' not found'')), st)
                              | Some node \<Rightarrow>
                                  if sub = Some ''attrs'' then (Inr (Ok (RefAttrs ref node)), st)
                                  else (let candidates =
                                              filter (\<lambda>v. length v > 0)
                                                (map (\<lambda>v. case v of Some t \<Rightarrow> trim t | None \<Rightarrow> [])
                                                   [n_label node, n_value node, n_identifier node]);
                                            text = (case candidates of [] \<Rightarrow> [] | c # cs \<Rightarrow> c)
                                        in (Inr (Ok (RefText ref text node)), st))))))"

text \<open>The end of the handler: every other command is forwarded to the session's device.\<close>

definition handleOther ::
  "'x DaemonEnv \<Rightarrow> DaemonRequest \<Rightarrow> string \<Rightarrow> 'x daemon \<Rightarrow> (jsval + DaemonResponse) \<times> 'x daemon" where
  "handleOther env req sessionName st =
     (case mapGet (sessions st) sessionName of
        None \<Rightarrow> (Inr (Failed ''SESSION_NOT_FOUND'' ''No active session. Run open first.''), st)
      | Some session \<Rightarrow>
          (case doDispatch env (s_device session) (rq_command req) (positionalsOf req) (outOf req)
                  (contextFromFlags env (rq_flags req) (s_appBundleId session)) st of
             (Inl err, st1) \<Rightarrow> (Inl err, st1)
           | (Inr None, st1) \<Rightarrow> (Inr (Ok NoData), st1)
           | (Inr (Some data), st1) \<Rightarrow> (Inr (Ok (Forwarded data)), st1)))"

text \<open>
  The test of the \<^verbatim>\<open>fill\<close> branch, \<^verbatim>\<open>req.positionals?.[0]?.startsWith('@')\<close>, on its
  own: the request is in the ref form.
\<close>

definition refForm :: "DaemonRequest \<Rightarrow> bool" where
  "refForm req = (case positionalAt req 0 of Some first \<Rightarrow> startsWith first ''@'' | None \<Rightarrow> False)"

definition handleRequest ::
  "'x DaemonEnv \<Rightarrow> DaemonRequest \<Rightarrow> 'x daemon \<Rightarrow> (jsval + DaemonResponse) \<times> 'x daemon" where
  "handleRequest env req st =
     (if rq_token req \<noteq> token env then (Inr (Failed ''UNAUTHORIZED'' ''Invalid token''), st)
      else let command = rq_command req;
               sessionName = (if rq_session req = [] then ''default'' else rq_session req)
           in if command = ''session_list'' then handleSessionList st
              else if command = ''open'' then handleOpen env req sessionName st
              else if command = ''close'' then handleClose env req sessionName st
              else if command = ''snapshot'' then handleSnapshot env req sessionName st
              else if command = ''click'' then handleClick env req sessionName st
              else (case (if command = ''fill'' then handleFill env req sessionName st else None) of
                      Some r \<Rightarrow> r
                    | None \<Rightarrow>
                        if command = ''get'' then handleGet req sessionName st
                        else handleOther env req sessionName st))"

section \<open>Example inputs\<close>

text \<open>Three nodes whose labels contain the word camera.\<close>

definition cameraNodes :: "SnapshotNode list" where
  "cameraNodes =
     [\<lparr>n_index = Some 0, n_ref = None, n_depth = Some 0, n_type = Some ''XCUIElementTypeButton'',
       n_label = Some ''Camera Roll'', n_value = None, n_identifier = None, n_rect = None\<rparr>,
      \<lparr>n_index = Some 1, n_ref = None, n_depth = Some 0, n_type = Some ''AXStaticText'',
       n_label = Some '' CAMERA '', n_value = None, n_identifier = None, n_rect = None\<rparr>,
      \<lparr>n_index = Some 2, n_ref = None, n_depth = Some 0, n_type = Some ''Other'',
       n_label = Some ''camera'', n_value = None, n_identifier = None, n_rect = None\<rparr>]"

text \<open>
  An operation that fails twice and then succeeds; its world is the number of calls made
  so far.
\<close>

definition flakyOp :: "nat \<Rightarrow> (jsval + string) \<times> nat" where
  "flakyOp k = (if k < 2 then Inl (JError ''busy'') else Inr ''done'', Suc k)"

text \<open>An operation that rejects with \<^verbatim>\<open>undefined\<close>, as \<^verbatim>\<open>Promise.reject()\<close> does.\<close>

definition rejectOp :: "nat \<Rightarrow> (jsval + string) \<times> nat" where
  "rejectOp k = (Inl JUndefined, Suc k)"

definition retryOpts :: "real \<Rightarrow> (jsval \<Rightarrow> int \<Rightarrow> bool) option \<Rightarrow> RetryOptions" where
  "retryOpts n should =
     \<lparr>attempts = Some n, baseDelayMs = None, maxDelayMs = None, jitter = None,
      shouldRetry = should\<rparr>"

text \<open>
  A tree whose root has no frame and whose one child is reported at (3, 4), under a
  window at (100, 200); and a tree whose root is reported at (100, 200) with a child at
  (120, 230).
\<close>

definition windowTree :: AXNode where
  "windowTree =
     AXNode (Some ''AXApplication'') None None None None None
       (Some [AXNode (Some ''AXButton'') None (Some ''OK'') None None
                (Some \<lparr>fr_x = 3, fr_y = 4, fr_width = 10, fr_height = 10\<rparr>) None])"

definition windowFrame :: AXFrame where
  "windowFrame = \<lparr>fr_x = 100, fr_y = 200, fr_width = 390, fr_height = 844\<rparr>"

definition screenTree :: AXNode where
  "screenTree =
     AXNode (Some ''AXApplication'') None None None None
       (Some \<lparr>fr_x = 100, fr_y = 200, fr_width = 390, fr_height = 844\<rparr>)
       (Some [AXNode (Some ''AXButton'') None (Some ''OK'') None None
                (Some \<lparr>fr_x = 120, fr_y = 230, fr_width = 10, fr_height = 10\<rparr>) None])"

text \<open>
  A machine on which the helper is installed at the path of the environment variable.
  The outside is the number of processes run so far; the first \<open>failures\<close> runs of the
  helper exit with 1 and the given text on stderr, the later ones exit with 0.
\<close>

definition helperEnv :: "string \<Rightarrow> nat \<Rightarrow> (string \<Rightarrow> string + payload) \<Rightarrow> nat AxEnv" where
  "helperEnv stderrText failures parse =
     \<lparr>runCmd = (\<lambda>cmd args dir k.
        (Inr (if k < failures
              then \<lparr>cr_stdout = Some [], cr_stderr = Some stderrText, cr_exitCode = 1\<rparr>
              else \<lparr>cr_stdout = Some ''{}'', cr_stderr = Some [], cr_exitCode = 0\<rparr>), Suc k)),
      existsSync = (\<lambda>k path. path = ''/opt/axsnapshot''),
      envAxBinary = Some ''/opt/axsnapshot'',
      cwd = ''/app'',
      pathJoin = concat,
      pathDirname = (\<lambda>path. path),
      jsonParse = parse,
      random = (\<lambda>n. 1 / 2)\<rparr>"

definition freshWorld :: "nat world" where
  "freshWorld = \<lparr>w_spawned = [], w_appended = [], w_ext = 0\<rparr>"

definition iosSimulator :: DeviceInfo where
  "iosSimulator =
     \<lparr>dev_platform = ''ios'', dev_kind = ''simulator'', dev_id = ''SIM-1'', dev_name = ''iPhone 17''\<rparr>"

definition iosPhone :: DeviceInfo where
  "iosPhone =
     \<lparr>dev_platform = ''ios'', dev_kind = ''device'', dev_id = ''PHONE-1'', dev_name = ''iPhone''\<rparr>"

definition androidEmulator :: DeviceInfo where
  "androidEmulator =
     \<lparr>dev_platform = ''android'', dev_kind = ''emulator'', dev_id = ''emulator-5554'',
      dev_name = ''Pixel 9''\<rparr>"

text \<open>The two diagnostics of the helper (ios-runner/AXSnapshot), and a decoder.\<close>

definition permissionText :: string where
  "permissionText = ''axsnapshot error: Accessibility permission not granted.''"

definition contentText :: string where
  "contentText = ''axsnapshot error: Could not find iOS app content in Simulator.''"

definition parseWindow :: "string \<Rightarrow> string + payload" where
  "parseWindow text = Inr (PSnapshot (Some windowTree) (Some windowFrame))"

definition parseError :: "string \<Rightarrow> string + payload" where
  "parseError text = Inl ''SyntaxError: Unexpected end of JSON input''"

text \<open>
  A daemon whose outside always answers: the device found is the simulator, a dispatched
  command returns the three example nodes, except that \<open>close\<close> throws when
  \<open>closeFails\<close> is set.
\<close>

definition closeFailed :: AppError where
  "closeFailed =
     \<lparr>err_code = ''COMMAND_FAILED'', err_message = ''close failed'', err_details = None\<rparr>"

definition stubEnv :: "bool \<Rightarrow> unit DaemonEnv" where
  "stubEnv closeFails =
     \<lparr>token = ''secret'',
      logPath = ''/tmp/daemon.log'',
      resolveTargetDevice = (\<lambda>flags x. (Inr iosSimulator, x)),
      resolveIosApp = (\<lambda>device app x. (Inr ''com.apple.Preferences'', x)),
      dispatchCommand = (\<lambda>device command positionals out ctx x.
        if command = ''close'' \<and> closeFails then (Inl (JAppError closeFailed), x)
        else (Inr (Some \<lparr>dd_nodes = Some cameraNodes, dd_truncated = None, dd_other = []\<rparr>), x)),
      stopIosRunnerSession = (\<lambda>deviceId x. (Inr (), x)),
      dateNow = (\<lambda>x. 1000),
      numToString = (\<lambda>r. ''0'')\<rparr>"

definition settingsSession :: SessionState where
  "settingsSession =
     \<lparr>s_name = ''default'', s_device = iosSimulator, s_createdAt = 1,
      s_appBundleId = Some ''com.apple.Preferences'', s_snapshot = None\<rparr>"

definition openDaemon :: "unit daemon" where
  "openDaemon = \<lparr>sessions = [(''default'', settingsSession)], events = [], outside = ()\<rparr>"

definition emptyDaemon :: "unit daemon" where
  "emptyDaemon = \<lparr>sessions = [], events = [], outside = ()\<rparr>"

definition request :: "string \<Rightarrow> string \<Rightarrow> string list \<Rightarrow> DaemonRequest" where
  "request name command positionals =
     \<lparr>rq_token = ''secret'', rq_session = name, rq_command = command,
      rq_positionals = Some positionals, rq_flags = None\<rparr>"

section \<open>Properties of the locator engine\<close>

lemma matchText_range: "matchText v q \<in> {0, 1, 2}"
  by (simp add: matchText_def Let_def)

lemma matchRole_range: "matchRole v q \<in> {0, 1, 2}"
  by (simp add: matchRole_def Let_def)

lemma matchNode_range: "matchNode node locator q \<in> {0, 1, 2}"
proof -
  have m: "max (max a b) c \<in> {0, 1, 2}"
    if "a \<in> {0, 1, 2}" "b \<in> {0, 1, 2}" "c \<in> {0, 1, 2}" for a b c :: int
    using that by auto
  show ?thesis
    by (cases locator) (simp_all add: matchText_range matchRole_range m del: insert_iff)
qed

lemma findLoop_skip:
  "\<not> eligible opts node \<Longrightarrow>
   findLoop locator q opts (node # nodes) best = findLoop locator q opts nodes best"
  by (simp add: eligible_def)

lemma findLoop_step:
  assumes "eligible opts node"
  shows "findLoop locator q opts (node # nodes) best =
     (let score = matchNode node locator q
      in if score \<le> 0 then findLoop locator q opts nodes best
         else if (case best of None \<Rightarrow> True | Some b \<Rightarrow> score > snd b)
              then (if score \<ge> 2 then Some (node, score)
                    else findLoop locator q opts nodes (Some (node, score)))
              else findLoop locator q opts nodes best)"
proof -
  have "\<not> (requireRect opts = Some True \<and> n_rect node = None)"
    using assms unfolding eligible_def .
  then show ?thesis
    by (simp only: findLoop.simps if_False)
qed

lemma findLoop_substring_seen:
  "findLoop locator q opts nodes (Some (b, 1)) =
     (case List.find (\<lambda>n. matchNode n locator q = 2) (filter (eligible opts) nodes) of
        Some n \<Rightarrow> Some (n, 2)
      | None \<Rightarrow> Some (b, 1))"
proof (induction nodes)
  case Nil
  then show ?case by simp
next
  case (Cons node nodes)
  show ?case
  proof (cases "eligible opts node")
    case False
    have f: "filter (eligible opts) (node # nodes) = filter (eligible opts) nodes"
      using False by simp
    show ?thesis unfolding f findLoop_skip [OF False] by (rule Cons.IH)
  next
    case True
    have f: "filter (eligible opts) (node # nodes) = node # filter (eligible opts) nodes"
      using True by simp
    consider "matchNode node locator q = 0" | "matchNode node locator q = 1"
      | "matchNode node locator q = 2"
      using matchNode_range [of node locator q] by auto
    then show ?thesis
    proof cases
      case 1
      then show ?thesis unfolding f findLoop_step [OF True] using Cons.IH by simp
    next
      case 2
      then show ?thesis unfolding f findLoop_step [OF True] using Cons.IH by simp
    next
      case 3
      then show ?thesis unfolding f findLoop_step [OF True] by simp
    qed
  qed
qed

lemma findLoop_nothing_seen:
  "findLoop locator q opts nodes None =
     (case List.find (\<lambda>n. matchNode n locator q = 2) (filter (eligible opts) nodes) of
        Some n \<Rightarrow> Some (n, 2)
      | None \<Rightarrow>
          map_option (\<lambda>n. (n, 1))
            (List.find (\<lambda>n. matchNode n locator q = 1) (filter (eligible opts) nodes)))"
proof (induction nodes)
  case Nil
  then show ?case by simp
next
  case (Cons node nodes)
  show ?case
  proof (cases "eligible opts node")
    case False
    have f: "filter (eligible opts) (node # nodes) = filter (eligible opts) nodes"
      using False by simp
    show ?thesis unfolding f findLoop_skip [OF False] by (rule Cons.IH)
  next
    case True
    have f: "filter (eligible opts) (node # nodes) = node # filter (eligible opts) nodes"
      using True by simp
    consider "matchNode node locator q = 0" | "matchNode node locator q = 1"
      | "matchNode node locator q = 2"
      using matchNode_range [of node locator q] by auto
    then show ?thesis
    proof cases
      case 1
      then show ?thesis unfolding f findLoop_step [OF True] using Cons.IH
        by (simp cong: option.case_cong)
    next
      case 2
      then show ?thesis unfolding f findLoop_step [OF True] findLoop_substring_seen
        by (simp add: findLoop_substring_seen split: option.splits)
    next
      case 3
      then show ?thesis unfolding f findLoop_step [OF True] by simp
    qed
  qed
qed

lemma trim_all_space: "\<forall>c\<in>set s. isSpace c \<Longrightarrow> trim s = []"
proof -
  assume "\<forall>c\<in>set s. isSpace c"
  then have "dropWhile isSpace s = []" by (simp add: dropWhile_eq_Nil_conv)
  then have "trim s = rev (dropWhile isSpace (rev []))"
    unfolding trim_def by (simp only:)
  then show ?thesis by simp
qed

lemma normalizeText_all_space: "\<forall>c\<in>set s. isSpace c \<Longrightarrow> normalizeText s = []"
  by (simp add: normalizeText_def trim_all_space toLowerCase_def)


lemma collapseSpaces_Nil: "collapseSpaces s = [] \<longleftrightarrow> s = []"
  by (cases s) simp_all

lemma normalizeText_Nil_iff: "normalizeText s = [] \<longleftrightarrow> (\<forall>c\<in>set s. isSpace c)"
proof
  assume "normalizeText s = []"
  then have t: "trim s = []"
    by (simp add: normalizeText_def collapseSpaces_Nil toLowerCase_def)
  show "\<forall>c\<in>set s. isSpace c"
  proof (rule ccontr)
    assume "\<not> (\<forall>c\<in>set s. isSpace c)"
    then have ne: "dropWhile isSpace s \<noteq> []"
      by (simp add: dropWhile_eq_Nil_conv)
    then have "\<not> isSpace (hd (dropWhile isSpace s))"
      by (rule hd_dropWhile)
    moreover have "hd (dropWhile isSpace s) \<in> set (rev (dropWhile isSpace s))"
      using ne by simp
    moreover have "\<forall>c\<in>set (rev (dropWhile isSpace s)). isSpace c"
      using t unfolding trim_def by (simp add: dropWhile_eq_Nil_conv)
    ultimately show False by blast
  qed
next
  assume "\<forall>c\<in>set s. isSpace c"
  then show "normalizeText s = []" by (rule normalizeText_all_space)
qed

text \<open>
  Claim C10. A query normalizes to the empty string exactly when it is empty or consists
  of white space only, and for such a query \<open>findNodeByLocator\<close> returns \<^verbatim>\<open>null\<close>
  whatever the list of nodes, the locator and the options are: the result is fixed before
  the loop over the nodes starts.
\<close>

theorem findNodeByLocator_empty_query:
  "(normalizeText query = [] \<longleftrightarrow> (\<forall>c\<in>set query. isSpace c)) \<and>
   (normalizeText query = [] \<longrightarrow> findNodeByLocator nodes locator query opts = None)"
proof
  show "normalizeText query = [] \<longleftrightarrow> (\<forall>c\<in>set query. isSpace c)"
    by (rule normalizeText_Nil_iff)
  show "normalizeText query = [] \<longrightarrow> findNodeByLocator nodes locator query opts = None"
    by (simp add: findNodeByLocator_def)
qed

text \<open>The query of a space and a tab, on a list that has nodes labelled camera.\<close>

theorem findNodeByLocator_empty_query_witness:
  "normalizeText [CHR '' '', CHR 0x09] = [] \<and>
   findNodeByLocator cameraNodes LocLabel [CHR '' '', CHR 0x09] \<lparr>requireRect = None\<rparr> = None"
proof -
  have h: "\<forall>c\<in>set [CHR '' '', CHR 0x09]. isSpace c"
    by (simp add: isSpace_def)
  from findNodeByLocator_empty_query
         [of "[CHR '' '', CHR 0x09]" cameraNodes LocLabel "\<lparr>requireRect = None\<rparr>"] h
  show ?thesis by blast
qed

lemma matchText_score:
  assumes "q \<noteq> []"
  shows "matchText v q =
     (let t = normalizeText (case v of None \<Rightarrow> [] | Some s \<Rightarrow> s)
      in if t = q then 2 else if strIncludes t q then 1 else 0)"
  using assms by (auto simp: matchText_def Let_def)

lemma matchRole_score:
  assumes "q \<noteq> []"
  shows "matchRole v q =
     (let t = normalizeRole (case v of None \<Rightarrow> [] | Some s \<Rightarrow> s)
      in if t = q then 2 else if strIncludes t q then 1 else 0)"
  using assms by (auto simp: matchRole_def Let_def)

lemma findNodeByLocator_find:
  assumes "normalizeText query \<noteq> []"
  shows "findNodeByLocator nodes locator query opts =
     (case List.find (\<lambda>n. matchNode n locator (normalizeText query) = 2)
             (filter (eligible opts) nodes) of
        Some n \<Rightarrow> Some n
      | None \<Rightarrow> List.find (\<lambda>n. matchNode n locator (normalizeText query) = 1)
                  (filter (eligible opts) nodes))"
  using assms
  by (simp add: findNodeByLocator_def findLoop_nothing_seen option.map_comp comp_def
           option.map_ident split: option.splits)

lemma findNodeByLocator_no_score:
  assumes "\<forall>n\<in>set (filter (eligible opts) nodes). matchNode n locator (normalizeText query) \<le> 0"
  shows "findNodeByLocator nodes locator query opts = None"
proof (cases "normalizeText query = []")
  case True
  then show ?thesis by (simp add: findNodeByLocator_def)
next
  case False
  have "List.find (\<lambda>n. matchNode n locator (normalizeText query) = k)
          (filter (eligible opts) nodes) = None" if "0 < k" for k
    using assms that by (auto simp: find_None_iff)
  then show ?thesis
    using False by (simp add: findNodeByLocator_find)
qed

text \<open>
  Claim C5. For a query whose normalization \<open>q\<close> is not empty: a text field scores 2 when
  its normalization equals \<open>q\<close>, 1 when it only contains \<open>q\<close>, and 0 otherwise, and so
  does the type of a node under its role normalization; \<open>any\<close> and \<open>text\<close> take the
  greatest of the scores of label, value and identifier, \<open>role\<close> the score of the type,
  \<open>label\<close>, \<open>value\<close> and \<open>id\<close> the score of their field. Among the nodes that take
  part (all of them, or those with a rect when \<open>requireRect\<close> is set),
  \<open>findNodeByLocator\<close> returns the first that scores 2, or else the first that scores 1,
  and \<^verbatim>\<open>null\<close> when none scores above 0.
\<close>

theorem findNodeByLocator_scoring_and_selection:
  assumes "q = normalizeText query" and "q \<noteq> []"
  shows
    "(\<forall>v. matchText v q =
         (let t = normalizeText (case v of None \<Rightarrow> [] | Some s \<Rightarrow> s)
          in if t = q then 2 else if strIncludes t q then 1 else 0)) \<and>
     (\<forall>v. matchRole v q =
         (let t = normalizeRole (case v of None \<Rightarrow> [] | Some s \<Rightarrow> s)
          in if t = q then 2 else if strIncludes t q then 1 else 0)) \<and>
     (\<forall>node. matchNode node LocAny q =
         Max {matchText (n_label node) q, matchText (n_value node) q,
              matchText (n_identifier node) q}) \<and>
     (\<forall>node. matchNode node LocText q =
         Max {matchText (n_label node) q, matchText (n_value node) q,
              matchText (n_identifier node) q}) \<and>
     (\<forall>node. matchNode node LocRole q = matchRole (n_type node) q) \<and>
     (\<forall>node. matchNode node LocLabel q = matchText (n_label node) q) \<and>
     (\<forall>node. matchNode node LocValue q = matchText (n_value node) q) \<and>
     (\<forall>node. matchNode node LocId q = matchText (n_identifier node) q) \<and>
     findNodeByLocator nodes locator query opts =
       (case List.find (\<lambda>n. matchNode n locator q = 2) (filter (eligible opts) nodes) of
          Some n \<Rightarrow> Some n
        | None \<Rightarrow> List.find (\<lambda>n. matchNode n locator q = 1) (filter (eligible opts) nodes)) \<and>
     ((\<forall>n\<in>set (filter (eligible opts) nodes). matchNode n locator q \<le> 0) \<longrightarrow>
        findNodeByLocator nodes locator query opts = None)"
proof -
  have mx: "Max {a, b, c} = max (max a b) c" for a b c :: int
    by (simp add: max.assoc)
  have s1: "\<forall>v. matchText v q =
         (let t = normalizeText (case v of None \<Rightarrow> [] | Some s \<Rightarrow> s)
          in if t = q then 2 else if strIncludes t q then 1 else 0)"
    using matchText_score [OF assms(2)] by blast
  have s2: "\<forall>v. matchRole v q =
         (let t = normalizeRole (case v of None \<Rightarrow> [] | Some s \<Rightarrow> s)
          in if t = q then 2 else if strIncludes t q then 1 else 0)"
    using matchRole_score [OF assms(2)] by blast
  have s3: "findNodeByLocator nodes locator query opts =
       (case List.find (\<lambda>n. matchNode n locator q = 2) (filter (eligible opts) nodes) of
          Some n \<Rightarrow> Some n
        | None \<Rightarrow> List.find (\<lambda>n. matchNode n locator q = 1) (filter (eligible opts) nodes))"
    unfolding assms(1) by (rule findNodeByLocator_find) (use assms in simp)
  have s4: "(\<forall>n\<in>set (filter (eligible opts) nodes). matchNode n locator q \<le> 0) \<longrightarrow>
        findNodeByLocator nodes locator query opts = None"
    using assms(1) findNodeByLocator_no_score [of opts nodes locator query] by blast
  show ?thesis
    using s1 s2 s3 s4 by (simp only: mx matchNode.simps simp_thms)
qed

text \<open>
  The label query Camera on the three example nodes: the first node contains the word, the
  second and the third equal it after normalization, and the second is returned.
\<close>

theorem findNodeByLocator_scoring_and_selection_witness:
  "''camera'' = normalizeText '' Camera'' \<and> ''camera'' \<noteq> [] \<and>
   findNodeByLocator cameraNodes LocLabel '' Camera'' \<lparr>requireRect = None\<rparr> =
     Some (cameraNodes ! 1) \<and>
   map (\<lambda>n. matchNode n LocLabel ''camera'') cameraNodes = [1, 2, 2]"
proof -
  have h1: "''camera'' = normalizeText '' Camera''" by code_simp
  have h2: "''camera'' \<noteq> []" by simp
  have sc: "map (\<lambda>n. matchNode n LocLabel ''camera'') cameraNodes = [1, 2, 2]"
    by code_simp
  have f: "(case List.find (\<lambda>n. matchNode n LocLabel ''camera'' = 2)
                  (filter (eligible \<lparr>requireRect = None\<rparr>) cameraNodes) of
              Some n \<Rightarrow> Some n
            | None \<Rightarrow> List.find (\<lambda>n. matchNode n LocLabel ''camera'' = 1)
                        (filter (eligible \<lparr>requireRect = None\<rparr>) cameraNodes)) =
           Some (cameraNodes ! 1)"
    by code_simp
  from findNodeByLocator_scoring_and_selection
         [OF h1 h2, of cameraNodes LocLabel "\<lparr>requireRect = None\<rparr>"] f
  have "findNodeByLocator cameraNodes LocLabel '' Camera'' \<lparr>requireRect = None\<rparr> =
          Some (cameraNodes ! 1)"
    by simp
  then show ?thesis using h1 h2 sc by simp
qed

section \<open>Properties of the retry executor\<close>

lemma retryLoop_exhausted:
  "atts < of_int attempt \<Longrightarrow>
   retryLoop fn atts base maxD jit should rnd attempt lastError w tr =
     (Inl (throwLast lastError), w, tr)"
  by (subst retryLoop.simps) simp

lemma retryLoop_success:
  "of_int attempt \<le> atts \<Longrightarrow> fn w = (Inr v, w') \<Longrightarrow>
   retryLoop fn atts base maxD jit should rnd attempt lastError w tr =
     (Inr v, w', tr @ [Called attempt None])"
  by (subst retryLoop.simps) simp

lemma retryLoop_stop:
  "of_int attempt \<le> atts \<Longrightarrow> fn w = (Inl err, w') \<Longrightarrow>
   atts \<le> of_int attempt \<or> (\<exists>f. should = Some f \<and> \<not> f err attempt) \<Longrightarrow>
   retryLoop fn atts base maxD jit should rnd attempt lastError w tr =
     (Inl (throwLast err), w', tr @ [Called attempt (Some err)])"
  by (subst retryLoop.simps) auto

lemma retryLoop_continue:
  "of_int attempt < atts \<Longrightarrow> fn w = (Inl err, w') \<Longrightarrow>
   \<forall>f. should = Some f \<longrightarrow> f err attempt \<Longrightarrow>
   retryLoop fn atts base maxD jit should rnd attempt lastError w tr =
     retryLoop fn atts base maxD jit should rnd (attempt + 1) err w'
       (tr @ [Called attempt (Some err), Slept (computeDelay base maxD jit attempt (rnd attempt))])"
  by (subst retryLoop.simps) (auto split: option.splits)

lemma retryLoop_calls:
  "retryLoop fn atts base maxD jit should rnd attempt lastError w tr = (res, w', tr') \<Longrightarrow>
   calls tr' \<le> calls tr + nat (\<lfloor>atts\<rfloor> + 1 - attempt)"
proof (induction fn atts base maxD jit should rnd attempt lastError w tr rule: retryLoop.induct)
  case (1 fn atts base maxD jit should rnd attempt lastError w tr)
  show ?case
  proof (cases "of_int attempt \<le> atts")
    case False
    then show ?thesis using "1.prems" by (simp add: retryLoop_exhausted)
  next
    case True
    then have fl: "attempt \<le> \<lfloor>atts\<rfloor>" by (simp add: le_floor_iff)
    obtain r w1 where fw: "fn w = (r, w1)" by (cases "fn w")
    show ?thesis
    proof (cases r)
      case (Inr v)
      then show ?thesis
        using True fl fw "1.prems" by (auto simp: retryLoop_success calls_def)
    next
      case (Inl err)
      show ?thesis
      proof (cases "atts \<le> of_int attempt \<or> (\<exists>f. should = Some f \<and> \<not> f err attempt)")
        case stop: True
        then show ?thesis
          using True fl fw Inl "1.prems" retryLoop_stop [of attempt atts fn w err w1 should]
          by (auto simp: calls_def)
      next
        case go: False
        then have lt: "of_int attempt < atts" and ok: "\<forall>f. should = Some f \<longrightarrow> f err attempt"
          by auto
        have c: "(case should of None \<Rightarrow> False | Some f \<Rightarrow> \<not> f err attempt) = False"
          using ok by (auto split: option.splits)
        have "calls tr' \<le>
                calls (tr @ [Called attempt (Some err),
                             Slept (computeDelay base maxD jit attempt (rnd attempt))])
                + nat (\<lfloor>atts\<rfloor> + 1 - (attempt + 1))"
          using "1.IH" [OF True fw [symmetric] _ _ _] Inl lt c "1.prems"
                retryLoop_continue [OF lt _ ok, of fn w w1]  fw
          by auto
        then show ?thesis using fl by (simp add: calls_def)
      qed
    qed
  qed
qed


lemma retryLoop_failure_end:
  "retryLoop fn atts base maxD jit should rnd attempt lastError w tr = (Inl e, w', tr') \<Longrightarrow>
   (atts < of_int attempt \<and> tr' = tr \<and> w' = w \<and> e = throwLast lastError) \<or>
   (\<exists>pre n err. tr' = pre @ [Called n (Some err)] \<and> e = throwLast err \<and>
       attempt \<le> n \<and> of_int n \<le> atts \<and>
       (atts \<le> of_int n \<or> (\<exists>f. should = Some f \<and> \<not> f err n))) \<or>
   (\<exists>pre n err. tr' = pre @ [Called n (Some err), Slept (computeDelay base maxD jit n (rnd n))] \<and>
       e = throwLast err \<and> attempt \<le> n \<and> of_int n < atts \<and> atts < of_int n + 1)"
proof (induction fn atts base maxD jit should rnd attempt lastError w tr rule: retryLoop.induct)
  case (1 fn atts base maxD jit should rnd attempt lastError w tr)
  show ?case
  proof (cases "of_int attempt \<le> atts")
    case False
    then show ?thesis using "1.prems" by (simp add: retryLoop_exhausted)
  next
    case True
    obtain r w1 where fw: "fn w = (r, w1)" by (cases "fn w")
    show ?thesis
    proof (cases r)
      case (Inr v)
      then show ?thesis
        using True fw "1.prems" by (simp add: retryLoop_success)
    next
      case (Inl err)
      show ?thesis
      proof (cases "atts \<le> of_int attempt \<or> (\<exists>f. should = Some f \<and> \<not> f err attempt)")
        case stop: True
        have "retryLoop fn atts base maxD jit should rnd attempt lastError w tr =
                (Inl (throwLast err), w1, tr @ [Called attempt (Some err)])"
          using True fw Inl stop by (intro retryLoop_stop) auto
        then have "tr' = tr @ [Called attempt (Some err)]" and "e = throwLast err"
          using "1.prems" by auto
        then show ?thesis using True stop by blast
      next
        case go: False
        then have lt: "of_int attempt < atts" and ok: "\<forall>f. should = Some f \<longrightarrow> f err attempt"
          by auto
        have c: "(case should of None \<Rightarrow> False | Some f \<Rightarrow> \<not> f err attempt) = False"
          using ok by (auto split: option.splits)
        have fwl: "fn w = (Inl err, w1)" using fw Inl by simp
        let ?tr1 = "tr @ [Called attempt (Some err),
                          Slept (computeDelay base maxD jit attempt (rnd attempt))]"
        have run: "retryLoop fn atts base maxD jit should rnd (attempt + 1) err w1 ?tr1 =
                     (Inl e, w', tr')"
          using retryLoop_continue [of attempt atts fn w err w1 should, OF lt fwl ok] "1.prems"
          by simp
        have p4: "\<not> atts \<le> of_int attempt" using lt by simp
        have p5: "\<not> (case should of None \<Rightarrow> False | Some f \<Rightarrow> \<not> f err attempt)"
          using c by simp
        have ih: "(atts < of_int (attempt + 1) \<and> tr' = ?tr1 \<and> w' = w1 \<and> e = throwLast err) \<or>
              (\<exists>pre n err'. tr' = pre @ [Called n (Some err')] \<and> e = throwLast err' \<and>
                  attempt + 1 \<le> n \<and> of_int n \<le> atts \<and>
                  (atts \<le> of_int n \<or> (\<exists>f. should = Some f \<and> \<not> f err' n))) \<or>
              (\<exists>pre n err'. tr' = pre @ [Called n (Some err'),
                                           Slept (computeDelay base maxD jit n (rnd n))] \<and>
                  e = throwLast err' \<and> attempt + 1 \<le> n \<and> of_int n < atts \<and>
                  atts < of_int n + 1)"
          by (rule "1.IH" [OF True fw [symmetric] Inl p4 p5 run])
        then consider
            (a) "atts < of_int (attempt + 1)" "tr' = ?tr1" "e = throwLast err"
          | (b) pre n err' where "tr' = pre @ [Called n (Some err')]" "e = throwLast err'"
              "attempt + 1 \<le> n" "of_int n \<le> atts"
              "atts \<le> of_int n \<or> (\<exists>f. should = Some f \<and> \<not> f err' n)"
          | (c) pre n err' where
              "tr' = pre @ [Called n (Some err'), Slept (computeDelay base maxD jit n (rnd n))]"
              "e = throwLast err'" "attempt + 1 \<le> n" "of_int n < atts" "atts < of_int n + 1"
          by metis
        then show ?thesis
        proof cases
          case a
          have "tr' = tr @ [Called attempt (Some err),
                            Slept (computeDelay base maxD jit attempt (rnd attempt))] \<and>
                e = throwLast err \<and> attempt \<le> attempt \<and> of_int attempt < atts \<and>
                atts < of_int attempt + 1"
            using a lt by simp
          then show ?thesis by blast
        next
          case b
          have "tr' = pre @ [Called n (Some err')] \<and> e = throwLast err' \<and>
                attempt \<le> n \<and> of_int n \<le> atts \<and>
                (atts \<le> of_int n \<or> (\<exists>f. should = Some f \<and> \<not> f err' n))"
            using b by simp
          then show ?thesis by blast
        next
          case c
          have "tr' = pre @ [Called n (Some err'), Slept (computeDelay base maxD jit n (rnd n))] \<and>
                e = throwLast err' \<and> attempt \<le> n \<and> of_int n < atts \<and> atts < of_int n + 1"
            using c by simp
          then show ?thesis by blast
        qed
      qed
    qed
  qed
qed




lemma throwLast_truthy: "truthy err \<Longrightarrow> throwLast err = err"
  by (simp add: throwLast_def)

lemma throwLast_undefined: "throwLast JUndefined = JAppError retryFailed"
  by (simp add: throwLast_def)

lemma withRetry_calls:
  assumes "withRetry fn options rnd w = (res, w', tr)"
  shows "real (calls tr) \<le> max 0 (attemptsOf options)"
proof -
  have "calls tr \<le> calls [] + nat (\<lfloor>attemptsOf options\<rfloor> + 1 - 1)"
    using assms unfolding withRetry_def by (rule retryLoop_calls)
  then have c: "calls tr \<le> nat \<lfloor>attemptsOf options\<rfloor>"
    by (simp add: calls_def)
  show ?thesis
  proof (cases "0 \<le> \<lfloor>attemptsOf options\<rfloor>")
    case True
    have "real (calls tr) \<le> real (nat \<lfloor>attemptsOf options\<rfloor>)"
      using c by simp
    also have "\<dots> = of_int \<lfloor>attemptsOf options\<rfloor>"
      using True by simp
    also have "\<dots> \<le> attemptsOf options"
      by (rule of_int_floor_le)
    finally show ?thesis by simp
  next
    case False
    then have "calls tr = 0" using c by simp
    then show ?thesis by simp
  qed
qed

lemma withRetry_failure_cases:
  assumes "withRetry fn options rnd w = (Inl e, w', tr)"
  shows "(attemptsOf options < 1 \<and> tr = [] \<and> w' = w \<and> e = JAppError retryFailed) \<or>
     (\<exists>pre n err. tr = pre @ [Called n (Some err)] \<and> e = throwLast err \<and>
        1 \<le> n \<and> of_int n \<le> attemptsOf options \<and>
        (attemptsOf options \<le> of_int n \<or> (\<exists>f. shouldRetry options = Some f \<and> \<not> f err n))) \<or>
     (\<exists>pre n err.
        tr = pre @ [Called n (Some err),
                    Slept (computeDelay (baseDelayOf options) (maxDelayOf options)
                             (jitterOf options) n (rnd n))] \<and>
        e = throwLast err \<and> 1 \<le> n \<and> of_int n < attemptsOf options \<and>
        attemptsOf options < of_int n + 1)"
  using retryLoop_failure_end [OF assms [unfolded withRetry_def]]
  by (simp add: throwLast_undefined)

lemma withRetry_failure_end:
  assumes "withRetry fn options rnd w = (Inl e, w', tr)"
    and "attemptsOf options = of_int m"
  shows "(attemptsOf options < 1 \<and> tr = [] \<and> w' = w \<and> e = JAppError retryFailed) \<or>
     (\<exists>pre n err. tr = pre @ [Called n (Some err)] \<and> e = throwLast err \<and>
        1 \<le> n \<and> of_int n \<le> attemptsOf options \<and>
        (attemptsOf options \<le> of_int n \<or> (\<exists>f. shouldRetry options = Some f \<and> \<not> f err n)))"
proof -
  have no: "\<not> (of_int n < attemptsOf options \<and> attemptsOf options < of_int n + 1)" for n :: int
    unfolding assms(2) by simp
  show ?thesis
    using retryLoop_failure_end [OF assms(1) [unfolded withRetry_def]] no
    by (auto simp: throwLast_undefined)
qed

lemma withRetry_twice_then_success:
  assumes a: "attemptsOf options = 3"
    and s: "\<forall>f. shouldRetry options = Some f \<longrightarrow> f e1 1 \<and> f e2 2"
    and f1: "fn w = (Inl e1, w1)" and f2: "fn w1 = (Inl e2, w2)" and f3: "fn w2 = (Inr v, w3)"
  shows "withRetry fn options rnd w =
     (Inr v, w3,
      [Called 1 (Some e1),
       Slept (computeDelay (baseDelayOf options) (maxDelayOf options) (jitterOf options) 1 (rnd 1)),
       Called 2 (Some e2),
       Slept (computeDelay (baseDelayOf options) (maxDelayOf options) (jitterOf options) 2 (rnd 2)),
       Called 3 None])"
proof -
  have s1: "\<forall>f. shouldRetry options = Some f \<longrightarrow> f e1 1"
    and s2: "\<forall>f. shouldRetry options = Some f \<longrightarrow> f e2 2"
    using s by auto
  show ?thesis
    unfolding withRetry_def a
    by (simp add: retryLoop_continue [of 1 3 fn w e1 w1, OF _ f1 s1]
                  retryLoop_continue [of 2 3 fn w1 e2 w2, OF _ f2 s2]
                  retryLoop_success [of 3 3 fn w2 v w3, OF _ f3])
qed

lemma withRetry_refused:
  assumes "1 \<le> attemptsOf options" and "shouldRetry options = Some f"
    and "fn w = (Inl e, w1)" and "\<not> f e 1"
  shows "withRetry fn options rnd w = (Inl (throwLast e), w1, [Called 1 (Some e)])"
  unfolding withRetry_def
  using retryLoop_stop [of 1 "attemptsOf options" fn w e w1 "shouldRetry options"] assms
  by simp

lemma withRetry_zero_attempts:
  assumes "attemptsOf options = 0"
  shows "withRetry fn options rnd w = (Inl (JAppError retryFailed), w, [])"
  unfolding withRetry_def assms
  by (simp add: retryLoop_exhausted throwLast_undefined)

text \<open>
  Claim C4, as amended. In every run of \<open>withRetry\<close> the operation is called at most
  \<open>attempts\<close> times (not at all when \<open>attempts\<close> is below 1). At every round of the
  loop, a failure at an attempt whose number has reached \<open>attempts\<close>, or one for which
  \<open>shouldRetry\<close> returns false, ends the run there: nothing is slept and the operation
  is not called again. What is thrown then is the value caught when that value is
  truthy, as every error object is, and the generic error \<open>retry failed\<close> when it is
  falsy. A run that throws ends in one of three ways: nothing was called, because
  \<open>attempts\<close> is below 1; or the last event is the failed call that caused the throw;
  or the last events are a failed call and the sleep after it, which happens only when
  \<open>attempts\<close> lies strictly between the number of that call and the next whole number.
  When \<open>attempts\<close> is a whole number the third way is closed, so that the failure of
  the last attempt is thrown with no sleep after it. With three attempts and a
  \<open>shouldRetry\<close> that agrees, an operation that fails twice and then succeeds is called
  three times and its value is returned; when \<open>shouldRetry\<close> refuses the first failure
  the operation is called once; with \<open>attempts\<close> zero the generic error is thrown and
  nothing is called.
\<close>

theorem withRetry_attempts_and_propagation:
  fixes fn :: "'w \<Rightarrow> (jsval + 'a) \<times> 'w"
  shows
    "(\<forall>res w' tr. withRetry fn options rnd w = (res, w', tr) \<longrightarrow>
        real (calls tr) \<le> max 0 (attemptsOf options)) \<and>
     (\<forall>attempt lastError u tr err u'.
        of_int attempt \<le> attemptsOf options \<and> fn u = (Inl err, u') \<and>
        (attemptsOf options \<le> of_int attempt \<or>
         (\<exists>f. shouldRetry options = Some f \<and> \<not> f err attempt)) \<longrightarrow>
        retryLoop fn (attemptsOf options) (baseDelayOf options) (maxDelayOf options)
          (jitterOf options) (shouldRetry options) rnd attempt lastError u tr =
        (Inl (throwLast err), u', tr @ [Called attempt (Some err)])) \<and>
     (\<forall>err. throwLast err = (if truthy err then err else JAppError retryFailed)) \<and>
     (\<forall>e w' tr. withRetry fn options rnd w = (Inl e, w', tr) \<longrightarrow>
        (attemptsOf options < 1 \<and> tr = [] \<and> w' = w \<and> e = JAppError retryFailed) \<or>
        (\<exists>pre n err. tr = pre @ [Called n (Some err)] \<and> e = throwLast err \<and>
           1 \<le> n \<and> of_int n \<le> attemptsOf options \<and>
           (attemptsOf options \<le> of_int n \<or>
            (\<exists>f. shouldRetry options = Some f \<and> \<not> f err n))) \<or>
        (\<exists>pre n err.
           tr = pre @ [Called n (Some err),
                       Slept (computeDelay (baseDelayOf options) (maxDelayOf options)
                                (jitterOf options) n (rnd n))] \<and>
           e = throwLast err \<and> 1 \<le> n \<and> of_int n < attemptsOf options \<and>
           attemptsOf options < of_int n + 1)) \<and>
     (\<forall>m e w' tr. attemptsOf options = of_int m \<and>
        withRetry fn options rnd w = (Inl e, w', tr) \<longrightarrow>
        (attemptsOf options < 1 \<and> tr = [] \<and> w' = w \<and> e = JAppError retryFailed) \<or>
        (\<exists>pre n err. tr = pre @ [Called n (Some err)] \<and> e = throwLast err \<and>
           1 \<le> n \<and> of_int n \<le> attemptsOf options \<and>
           (attemptsOf options \<le> of_int n \<or>
            (\<exists>f. shouldRetry options = Some f \<and> \<not> f err n)))) \<and>
     (\<forall>e1 w1 e2 w2 v w3.
        attemptsOf options = 3 \<and> (\<forall>f. shouldRetry options = Some f \<longrightarrow> f e1 1 \<and> f e2 2) \<and>
        fn w = (Inl e1, w1) \<and> fn w1 = (Inl e2, w2) \<and> fn w2 = (Inr v, w3) \<longrightarrow>
        withRetry fn options rnd w =
          (Inr v, w3,
           [Called 1 (Some e1),
            Slept (computeDelay (baseDelayOf options) (maxDelayOf options) (jitterOf options) 1 (rnd 1)),
            Called 2 (Some e2),
            Slept (computeDelay (baseDelayOf options) (maxDelayOf options) (jitterOf options) 2 (rnd 2)),
            Called 3 None])) \<and>
     (\<forall>f e w1.
        1 \<le> attemptsOf options \<and> shouldRetry options = Some f \<and> fn w = (Inl e, w1) \<and> \<not> f e 1 \<longrightarrow>
        withRetry fn options rnd w = (Inl (throwLast e), w1, [Called 1 (Some e)])) \<and>
     (attemptsOf options = 0 \<longrightarrow>
        withRetry fn options rnd w = (Inl (JAppError retryFailed), w, []))"
proof (intro conjI allI impI)
  fix res w' tr
  assume "withRetry fn options rnd w = (res, w', tr)"
  then show "real (calls tr) \<le> max 0 (attemptsOf options)" by (rule withRetry_calls)
next
  fix attempt :: int and lastError u tr err u'
  assume "of_int attempt \<le> attemptsOf options \<and> fn u = (Inl err, u') \<and>
        (attemptsOf options \<le> of_int attempt \<or>
         (\<exists>f. shouldRetry options = Some f \<and> \<not> f err attempt))"
  then show "retryLoop fn (attemptsOf options) (baseDelayOf options) (maxDelayOf options)
          (jitterOf options) (shouldRetry options) rnd attempt lastError u tr =
        (Inl (throwLast err), u', tr @ [Called attempt (Some err)])"
    by (intro retryLoop_stop) auto
next
  fix err
  show "throwLast err = (if truthy err then err else JAppError retryFailed)"
    by (simp add: throwLast_def)
next
  fix e w' tr
  assume "withRetry fn options rnd w = (Inl e, w', tr)"
  then show "(attemptsOf options < 1 \<and> tr = [] \<and> w' = w \<and> e = JAppError retryFailed) \<or>
        (\<exists>pre n err. tr = pre @ [Called n (Some err)] \<and> e = throwLast err \<and>
           1 \<le> n \<and> of_int n \<le> attemptsOf options \<and>
           (attemptsOf options \<le> of_int n \<or>
            (\<exists>f. shouldRetry options = Some f \<and> \<not> f err n))) \<or>
        (\<exists>pre n err.
           tr = pre @ [Called n (Some err),
                       Slept (computeDelay (baseDelayOf options) (maxDelayOf options)
                                (jitterOf options) n (rnd n))] \<and>
           e = throwLast err \<and> 1 \<le> n \<and> of_int n < attemptsOf options \<and>
           attemptsOf options < of_int n + 1)"
    by (rule withRetry_failure_cases)
next
  fix m :: int and e w' tr
  assume "attemptsOf options = of_int m \<and> withRetry fn options rnd w = (Inl e, w', tr)"
  then show "(attemptsOf options < 1 \<and> tr = [] \<and> w' = w \<and> e = JAppError retryFailed) \<or>
        (\<exists>pre n err. tr = pre @ [Called n (Some err)] \<and> e = throwLast err \<and>
           1 \<le> n \<and> of_int n \<le> attemptsOf options \<and>
           (attemptsOf options \<le> of_int n \<or>
            (\<exists>f. shouldRetry options = Some f \<and> \<not> f err n)))"
    using withRetry_failure_end [of fn options rnd w e w' tr m] by blast
next
  fix e1 w1 e2 w2 v w3
  assume "attemptsOf options = 3 \<and> (\<forall>f. shouldRetry options = Some f \<longrightarrow> f e1 1 \<and> f e2 2) \<and>
        fn w = (Inl e1, w1) \<and> fn w1 = (Inl e2, w2) \<and> fn w2 = (Inr v, w3)"
  then show "withRetry fn options rnd w =
          (Inr v, w3,
           [Called 1 (Some e1),
            Slept (computeDelay (baseDelayOf options) (maxDelayOf options) (jitterOf options) 1 (rnd 1)),
            Called 2 (Some e2),
            Slept (computeDelay (baseDelayOf options) (maxDelayOf options) (jitterOf options) 2 (rnd 2)),
            Called 3 None])"
    by (intro withRetry_twice_then_success) auto
next
  fix f e w1
  assume "1 \<le> attemptsOf options \<and> shouldRetry options = Some f \<and> fn w = (Inl e, w1) \<and> \<not> f e 1"
  then show "withRetry fn options rnd w = (Inl (throwLast e), w1, [Called 1 (Some e)])"
    by (intro withRetry_refused [of options f]) auto
next
  assume "attemptsOf options = 0"
  then show "withRetry fn options rnd w = (Inl (JAppError retryFailed), w, [])"
    by (rule withRetry_zero_attempts)
qed

text \<open>
  The operation that fails twice and then succeeds, under three attempts with a
  \<open>shouldRetry\<close> that always agrees, under one that always refuses, and under zero
  attempts.
\<close>

theorem withRetry_attempts_and_propagation_witness:
  "withRetry flakyOp (retryOpts 3 (Some (\<lambda>e n. True))) (\<lambda>n. 1 / 2) 0 =
     (Inr ''done'', 3,
      [Called 1 (Some (JError ''busy'')), Slept 200,
       Called 2 (Some (JError ''busy'')), Slept 400, Called 3 None]) \<and>
   withRetry flakyOp (retryOpts 3 (Some (\<lambda>e n. False))) (\<lambda>n. 1 / 2) 0 =
     (Inl (JError ''busy''), 1, [Called 1 (Some (JError ''busy''))]) \<and>
   withRetry flakyOp (retryOpts 0 None) (\<lambda>n. 1 / 2) 0 = (Inl (JAppError retryFailed), 0, [])"
proof -
  have d: "attemptsOf (retryOpts n s) = n" "shouldRetry (retryOpts n s) = s"
    "baseDelayOf (retryOpts n s) = 200" "maxDelayOf (retryOpts n s) = 2000"
    "jitterOf (retryOpts n s) = 2 / 10" for n s
    by (simp_all add: retryOpts_def attemptsOf_def baseDelayOf_def maxDelayOf_def jitterOf_def
          defaultOptions_def)
  have a: "withRetry flakyOp (retryOpts 3 (Some (\<lambda>e n. True))) (\<lambda>n. 1 / 2) 0 =
     (Inr ''done'', 3,
      [Called 1 (Some (JError ''busy'')), Slept 200,
       Called 2 (Some (JError ''busy'')), Slept 400, Called 3 None])"
    using withRetry_attempts_and_propagation
            [of flakyOp "retryOpts 3 (Some (\<lambda>e n. True))" "\<lambda>n. 1 / 2" 0]
    by (simp add: d flakyOp_def computeDelay_def)
  have b: "withRetry flakyOp (retryOpts 3 (Some (\<lambda>e n. False))) (\<lambda>n. 1 / 2) 0 =
     (Inl (JError ''busy''), 1, [Called 1 (Some (JError ''busy''))])"
    using withRetry_attempts_and_propagation
            [of flakyOp "retryOpts 3 (Some (\<lambda>e n. False))" "\<lambda>n. 1 / 2" 0]
    by (simp add: d flakyOp_def)
  have z: "withRetry flakyOp (retryOpts 0 None) (\<lambda>n. 1 / 2) 0 = (Inl (JAppError retryFailed), 0, [])"
    using withRetry_attempts_and_propagation [of flakyOp "retryOpts 0 None" "\<lambda>n. 1 / 2" 0]
    by (simp add: d)
  show ?thesis using a b z by simp
qed

text \<open>
  Claim C4 as stated fails in two places. An operation that rejects with
  \<^verbatim>\<open>undefined\<close>, under one attempt: the value thrown by \<open>withRetry\<close> is the generic
  error \<open>retry failed\<close>, not the value caught. And with \<open>attempts\<close> at two and a half,
  the operation that fails twice is called twice, and after its second and last call
  the run sleeps once more before it throws.
\<close>

theorem withRetry_propagation_counterexample:
  "withRetry rejectOp (retryOpts 1 None) (\<lambda>n. 1 / 2) 0 =
     (Inl (JAppError retryFailed), 1, [Called 1 (Some JUndefined)]) \<and>
   JAppError retryFailed \<noteq> JUndefined \<and>
   withRetry flakyOp (retryOpts (5 / 2) None) (\<lambda>n. 1 / 2) 0 =
     (Inl (JError ''busy''), 2,
      [Called 1 (Some (JError ''busy'')), Slept 200,
       Called 2 (Some (JError ''busy'')), Slept 400])"
proof -
  have d: "attemptsOf (retryOpts n s) = n" "shouldRetry (retryOpts n s) = s"
    "baseDelayOf (retryOpts n s) = 200" "maxDelayOf (retryOpts n s) = 2000"
    "jitterOf (retryOpts n s) = 2 / 10" for n s
    by (simp_all add: retryOpts_def attemptsOf_def baseDelayOf_def maxDelayOf_def jitterOf_def
          defaultOptions_def)
  have a: "withRetry rejectOp (retryOpts 1 None) (\<lambda>n. 1 / 2) 0 =
     (Inl (JAppError retryFailed), 1, [Called 1 (Some JUndefined)])"
    by (simp add: withRetry_def d retryLoop.simps [of _ _ _ _ _ _ _ 1] rejectOp_def throwLast_def)
  have b: "withRetry flakyOp (retryOpts (5 / 2) None) (\<lambda>n. 1 / 2) 0 =
     (Inl (JError ''busy''), 2,
      [Called 1 (Some (JError ''busy'')), Slept 200,
       Called 2 (Some (JError ''busy'')), Slept 400])"
    by (simp add: withRetry_def d retryLoop.simps [of _ _ _ _ _ _ _ 1]
          retryLoop.simps [of _ _ _ _ _ _ _ 2] retryLoop.simps [of _ _ _ _ _ _ _ 3]
          flakyOp_def throwLast_def computeDelay_def)
  show ?thesis using a b by simp
qed




section \<open>Properties of the refs\<close>

lemma of_char_digitChar: "d < 10 \<Longrightarrow> (of_char (digitChar d) :: nat) = 48 + d"
  by (simp add: digitChar_def)

lemma decimalValue_snoc:
  "decimalValue (s @ [c]) = 10 * decimalValue s + (of_char c - 48)"
  by (simp add: decimalValue_def)

lemma decimalValue_decimal: "decimalValue (decimal n) = n"
proof (induction n rule: decimal.induct)
  case (1 n)
  show ?case
  proof (cases "n < 10")
    case True
    then show ?thesis
      by (subst decimal.simps) (simp add: decimalValue_def of_char_digitChar)
  next
    case False
    then have "decimalValue (decimal n) =
                 10 * decimalValue (decimal (n div 10)) + (of_char (digitChar (n mod 10)) - 48)"
      by (subst decimal.simps) (simp add: decimalValue_snoc)
    also have "\<dots> = 10 * (n div 10) + n mod 10"
      using "1.IH" [OF False] by (simp add: of_char_digitChar)
    finally show ?thesis by simp
  qed
qed

lemma decimal_inject: "decimal m = decimal n \<Longrightarrow> m = n"
  by (metis decimalValue_decimal)

lemma length_attachRefs: "length (attachRefs nodes) = length nodes"
  by (simp add: attachRefs_def)

lemma nth_attachRefs:
  "i < length nodes \<Longrightarrow> attachRefs nodes ! i = (nodes ! i)\<lparr>n_ref := Some (''e'' @ decimal i)\<rparr>"
  by (simp add: attachRefs_def nth_enumerate_eq)

lemma attachRefs_idem: "attachRefs (attachRefs nodes) = attachRefs nodes"
  by (rule nth_equalityI) (simp_all add: length_attachRefs nth_attachRefs)

lemma findNodeByRef_attachRefs:
  assumes "i < length nodes"
  shows "findNodeByRef (attachRefs nodes) (''e'' @ decimal i) = Some (attachRefs nodes ! i)"
proof -
  have "\<exists>k<length (attachRefs nodes).
          n_ref (attachRefs nodes ! k) = Some (''e'' @ decimal i) \<and>
          attachRefs nodes ! i = attachRefs nodes ! k \<and>
          (\<forall>j<k. n_ref (attachRefs nodes ! j) \<noteq> Some (''e'' @ decimal i))"
  proof (intro exI [of _ i] conjI allI impI)
    show "i < length (attachRefs nodes)" using assms by (simp add: length_attachRefs)
    show "n_ref (attachRefs nodes ! i) = Some (''e'' @ decimal i)"
      using assms by (simp add: nth_attachRefs)
    show "attachRefs nodes ! i = attachRefs nodes ! i" ..
  next
    fix j assume "j < i"
    then have "j < length nodes" and "j \<noteq> i" using assms by auto
    then show "n_ref (attachRefs nodes ! j) \<noteq> Some (''e'' @ decimal i)"
      using decimal_inject [of j i] by (auto simp: nth_attachRefs)
  qed
  then show ?thesis
    unfolding findNodeByRef_def find_Some_iff by blast
qed

lemma findNodeByRef_member:
  assumes "node \<in> set (attachRefs nodes)" and "n_ref node = Some ref"
  shows "findNodeByRef (attachRefs nodes) ref = Some node"
proof -
  obtain i where i: "i < length nodes" and n: "node = attachRefs nodes ! i"
    using assms(1) by (auto simp: in_set_conv_nth length_attachRefs)
  then have "ref = ''e'' @ decimal i"
    using assms(2) by (simp add: nth_attachRefs)
  then show ?thesis using findNodeByRef_attachRefs [OF i] n by simp
qed

lemma normalizeRef_token:
  assumes "isRefToken s"
  shows "normalizeRef (CHR ''@'' # s) = Some s" and "normalizeRef s = Some s"
proof -
  obtain ds where "s = CHR ''e'' # ds"
    using assms by (auto simp: isRefToken_def split: list.splits)
  then show "normalizeRef (CHR ''@'' # s) = Some s" and "normalizeRef s = Some s"
    using assms by (simp_all add: normalizeRef_def)
qed

text \<open>
  Claim C7. \<open>attachRefs\<close> keeps the length and the order of the list and gives the node
  at position \<open>i\<close> the ref \<open>e\<close> followed by the decimal numeral of \<open>i\<close>; applied twice
  it gives what it gives applied once. \<open>findNodeByRef\<close> on the result, with the ref of
  position \<open>i\<close> or with the ref that a node of the result carries, returns that node.
  \<open>normalizeRef\<close> returns \<open>e3\<close> for \<open>@e3\<close> and for \<open>e3\<close>, any ref token with or
  without a leading \<open>@\<close>, and \<^verbatim>\<open>null\<close> for the empty string. As functions of HOL the
  three are pure and deterministic.
\<close>

theorem attachRefs_findNodeByRef_roundtrip:
  "length (attachRefs nodes) = length nodes \<and>
   (\<forall>i<length nodes. attachRefs nodes ! i = (nodes ! i)\<lparr>n_ref := Some (''e'' @ decimal i)\<rparr>) \<and>
   attachRefs (attachRefs nodes) = attachRefs nodes \<and>
   (\<forall>i<length nodes.
      findNodeByRef (attachRefs nodes) (''e'' @ decimal i) = Some (attachRefs nodes ! i)) \<and>
   (\<forall>node ref. node \<in> set (attachRefs nodes) \<and> n_ref node = Some ref \<longrightarrow>
      findNodeByRef (attachRefs nodes) ref = Some node) \<and>
   normalizeRef ''@e3'' = Some ''e3'' \<and> normalizeRef ''e3'' = Some ''e3'' \<and>
   normalizeRef [] = None \<and>
   (\<forall>s. isRefToken s \<longrightarrow> normalizeRef (CHR ''@'' # s) = Some s \<and> normalizeRef s = Some s)"
proof -
  have t: "isRefToken ''e3''" by (simp add: isRefToken_def isDigit_def)
  have e: "normalizeRef [] = None" by (simp add: normalizeRef_def isRefToken_def)
  show ?thesis
    using length_attachRefs [of nodes] nth_attachRefs [of _ nodes] attachRefs_idem [of nodes]
      findNodeByRef_attachRefs [of _ nodes] findNodeByRef_member [of _ nodes]
      normalizeRef_token [OF t] e normalizeRef_token
    by (intro conjI allI impI) blast+
qed

text \<open>The three example nodes: their refs, and the lookup of \<open>e2\<close>.\<close>

theorem attachRefs_findNodeByRef_roundtrip_witness:
  "findNodeByRef (attachRefs cameraNodes) ''e2'' =
     Some ((cameraNodes ! 2)\<lparr>n_ref := Some ''e2''\<rparr>) \<and>
   map n_ref (attachRefs cameraNodes) = [Some ''e0'', Some ''e1'', Some ''e2'']"
proof -
  have l: "(2::nat) < length cameraNodes" by (simp add: cameraNodes_def)
  have d: "decimal 2 = ''2''" by code_simp
  have r: "map n_ref (attachRefs cameraNodes) = [Some ''e0'', Some ''e1'', Some ''e2'']"
    by code_simp
  from attachRefs_findNodeByRef_roundtrip [of cameraNodes] l
  have "findNodeByRef (attachRefs cameraNodes) (''e'' @ decimal 2) = Some (attachRefs cameraNodes ! 2)"
    and "attachRefs cameraNodes ! 2 = (cameraNodes ! 2)\<lparr>n_ref := Some (''e'' @ decimal 2)\<rparr>"
    by blast+
  then show ?thesis using d r by simp
qed

section \<open>Properties of the frame normalizer\<close>

lemma minLoop_below:
  "belowOpt (fst (minLoop frames (mx, my))) c \<longleftrightarrow> belowOpt mx c \<or> (\<exists>f\<in>set frames. fr_x f \<le> c)"
  "belowOpt (snd (minLoop frames (mx, my))) c \<longleftrightarrow> belowOpt my c \<or> (\<exists>f\<in>set frames. fr_y f \<le> c)"
proof (induction frames arbitrary: mx my)
  case Nil
  { case 1 show ?case by simp }
  { case 2 show ?case by simp }
next
  case (Cons f frames)
  { case 1
    show ?case
      unfolding minLoop.simps Cons.IH(1)
      by (cases mx) (auto simp: belowOpt_def) }
  { case 2
    show ?case
      unfolding minLoop.simps Cons.IH(2)
      by (cases my) (auto simp: belowOpt_def) }
qed

lemma nearZero_iff:
  assumes "frames \<noteq> []"
  shows "(case minLoop frames (None, None) of
            (minX, minY) \<Rightarrow> belowOpt minX 5 \<and> belowOpt minY 5) \<longleftrightarrow>
         Min (fr_x ` set frames) \<le> 5 \<and> Min (fr_y ` set frames) \<le> 5"
proof -
  have x: "Min (fr_x ` set frames) \<le> 5 \<longleftrightarrow> (\<exists>f\<in>set frames. fr_x f \<le> 5)"
    using assms by (subst Min_le_iff) auto
  have y: "Min (fr_y ` set frames) \<le> 5 \<longleftrightarrow> (\<exists>f\<in>set frames. fr_y f \<le> 5)"
    using assms by (subst Min_le_iff) auto
  obtain minX minY where m: "minLoop frames (None, None) = (minX, minY)"
    by (cases "minLoop frames (None, None)")
  have "belowOpt minX 5 \<longleftrightarrow> (\<exists>f\<in>set frames. fr_x f \<le> 5)"
    using minLoop_below(1) [of frames None None 5] m by (simp add: belowOpt_def)
  moreover have "belowOpt minY 5 \<longleftrightarrow> (\<exists>f\<in>set frames. fr_y f \<le> 5)"
    using minLoop_below(2) [of frames None None 5] m by (simp add: belowOpt_def)
  ultimately show ?thesis
    unfolding m x y by simp
qed

lemma normalizeFrames_Min:
  assumes "frames \<noteq> []"
  shows "normalizeFrames nodes (Some origin) frames =
     (if Min (fr_x ` set frames) \<le> 5 \<and> Min (fr_y ` set frames) \<le> 5
      then map (addOrigin origin) nodes else nodes)"
proof -
  obtain minX minY where m: "minLoop frames (None, None) = (minX, minY)"
    by (cases "minLoop frames (None, None)")
  have n: "(belowOpt minX 5 \<and> belowOpt minY 5) =
           (Min (fr_x ` set frames) \<le> 5 \<and> Min (fr_y ` set frames) \<le> 5)"
    using nearZero_iff [OF assms] m by simp
  have "normalizeFrames nodes (Some origin) frames =
          (if belowOpt minX 5 \<and> belowOpt minY 5
           then map (addOrigin origin) nodes else nodes)"
    using assms by (simp add: normalizeFrames_def m Let_def)
  then show ?thesis unfolding n .
qed

lemma normalizeFrames_near:
  assumes "frames \<noteq> []"
    and "Min (fr_x ` set frames) \<le> 5 \<and> Min (fr_y ` set frames) \<le> 5"
  shows "normalizeFrames nodes (Some origin) frames = map (addOrigin origin) nodes"
  unfolding normalizeFrames_Min [OF assms(1)] using assms(2) by simp

lemma normalizeFrames_far:
  assumes "frames \<noteq> []"
    and "5 < Min (fr_x ` set frames) \<or> 5 < Min (fr_y ` set frames)"
  shows "normalizeFrames nodes (Some origin) frames = nodes"
  unfolding normalizeFrames_Min [OF assms(1)] using assms(2) by auto

lemma addOrigin_size:
  "map_option fr_width (fl_frame (addOrigin origin node)) = map_option fr_width (fl_frame node)"
  "map_option fr_height (fl_frame (addOrigin origin node)) = map_option fr_height (fl_frame node)"
  by (simp_all add: addOrigin_def split: option.splits)

lemma normalizeFrames_cases:
  "normalizeFrames nodes originFrame frames = nodes \<or>
   (\<exists>origin. normalizeFrames nodes originFrame frames = map (addOrigin origin) nodes)"
  by (auto simp: normalizeFrames_def Let_def split: option.splits prod.splits)

lemma normalizeFrames_size:
  "map (\<lambda>node. map_option fr_width (fl_frame node)) (normalizeFrames nodes originFrame frames) =
     map (\<lambda>node. map_option fr_width (fl_frame node)) nodes"
  "map (\<lambda>node. map_option fr_height (fl_frame node)) (normalizeFrames nodes originFrame frames) =
     map (\<lambda>node. map_option fr_height (fl_frame node)) nodes"
  using normalizeFrames_cases [of nodes originFrame frames]
  by (auto simp: addOrigin_size)

lemma fold_walk:
  assumes "\<And>child ns fs. child \<in> set cs \<Longrightarrow>
             walk rootFrame child d (ns, fs) =
               (ns @ preorder rootFrame child d, fs @ reportedFrames child)"
  shows "fold (\<lambda>child acc. walk rootFrame child d acc) cs (ns, fs) =
     (ns @ concat (map (\<lambda>child. preorder rootFrame child d) cs),
      fs @ concat (map reportedFrames cs))"
  using assms by (induction cs arbitrary: ns fs) simp_all

lemma walk_preorder:
  "walk rootFrame node depth (ns, fs) =
     (ns @ preorder rootFrame node depth, fs @ reportedFrames node)"
proof (induction rootFrame node depth "(ns, fs)" arbitrary: ns fs rule: walk.induct)
  case (1 rootFrame role subrole label val ident frame children depth nodes frameSamples)
  have f: "(case frame of
              None \<Rightarrow> None
            | Some f \<Rightarrow>
                (case rootFrame of
                   None \<Rightarrow> Some f
                 | Some r \<Rightarrow>
                     Some \<lparr>fr_x = fr_x f - fr_x r, fr_y = fr_y f - fr_y r,
                           fr_width = fr_width f, fr_height = fr_height f\<rparr>)) =
           map_option (subtractRoot rootFrame) frame"
    by (simp add: subtractRoot_def split: option.splits)
  have s: "(case frame of Some f \<Rightarrow> frameSamples @ [f] | None \<Rightarrow> frameSamples) =
           frameSamples @ (case frame of Some f \<Rightarrow> [f] | None \<Rightarrow> [])"
    by (simp split: option.splits)
  have ih: "walk rootFrame child (depth + 1) (ns, fs) =
              (ns @ preorder rootFrame child (depth + 1), fs @ reportedFrames child)"
    if "child \<in> set (case children of None \<Rightarrow> [] | Some cs \<Rightarrow> cs)" for child ns fs
    using "1.hyps" [OF refl refl refl that] by simp
  show ?case
    unfolding walk.simps Let_def f s
    by (subst fold_walk [OF ih]) simp_all
qed

lemma snapshotTree_eq:
  assumes "(case ax_frame tree of Some f \<Rightarrow> Some f | None \<Rightarrow> originFrame) = Some r"
    and "reportedFrames tree \<noteq> []"
  shows "snapshotTree tree originFrame =
     (let flat = preorder (Some r) tree 0;
          out = (if Min (fr_x ` set (reportedFrames tree)) \<le> 5 \<and>
                    Min (fr_y ` set (reportedFrames tree)) \<le> 5
                 then map (addOrigin r) flat else flat)
      in map mapNode (zip out [0 ..< length out]))"
  unfolding snapshotTree_def assms(1) Let_def
  by (simp add: walk_preorder normalizeFrames_Min [OF assms(2)])


lemma addOrigin_frame:
  "fl_frame (node :: FlatNode) = Some f \<Longrightarrow>
   fl_frame (addOrigin origin node) =
     Some \<lparr>fr_x = fr_x f + fr_x origin, fr_y = fr_y f + fr_y origin,
           fr_width = fr_width f, fr_height = fr_height f\<rparr>"
  by (simp add: addOrigin_def)

text \<open>
  Claim C1, as amended. The frames sampled by \<open>walk\<close> are the frames as the helper
  reported them, before the root frame is subtracted. When the list of samples is not
  empty and an origin is known: if the least \<open>x\<close> and the least \<open>y\<close> of the samples are
  both at most 5, \<open>normalizeFrames\<close> adds the origin's \<open>x\<close> and \<open>y\<close> to the corner of
  every node that has a frame; if one of them is greater than 5, the nodes are returned
  as they are, with the subtracted coordinates. Widths and heights are the same in both
  branches. So \<open>snapshotTree\<close>, for a tree with a root frame (its own, or else the window
  frame) and at least one reported frame, returns the pre-order nodes with the root
  frame subtracted, and with it added again in the first case.
\<close>

theorem normalizeFrames_drift_correction:
  "(frames \<noteq> [] \<longrightarrow>
      (Min (fr_x ` set frames) \<le> 5 \<and> Min (fr_y ` set frames) \<le> 5 \<longrightarrow>
         normalizeFrames nodes (Some origin) frames = map (addOrigin origin) nodes) \<and>
      (5 < Min (fr_x ` set frames) \<or> 5 < Min (fr_y ` set frames) \<longrightarrow>
         normalizeFrames nodes (Some origin) frames = nodes)) \<and>
   (\<forall>(node :: FlatNode) f. fl_frame node = Some f \<longrightarrow>
      fl_frame (addOrigin origin node) =
        Some \<lparr>fr_x = fr_x f + fr_x origin, fr_y = fr_y f + fr_y origin,
              fr_width = fr_width f, fr_height = fr_height f\<rparr>) \<and>
   map (\<lambda>node. map_option fr_width (fl_frame node)) (normalizeFrames nodes originFrame frames) =
     map (\<lambda>node. map_option fr_width (fl_frame node)) nodes \<and>
   map (\<lambda>node. map_option fr_height (fl_frame node)) (normalizeFrames nodes originFrame frames) =
     map (\<lambda>node. map_option fr_height (fl_frame node)) nodes \<and>
   walk rootFrame tree 0 ([], []) = (preorder rootFrame tree 0, reportedFrames tree) \<and>
   (\<forall>r. (case ax_frame tree of Some f \<Rightarrow> Some f | None \<Rightarrow> originFrame) = Some r \<and>
        reportedFrames tree \<noteq> [] \<longrightarrow>
      snapshotTree tree originFrame =
        (let flat = preorder (Some r) tree 0;
             out = (if Min (fr_x ` set (reportedFrames tree)) \<le> 5 \<and>
                       Min (fr_y ` set (reportedFrames tree)) \<le> 5
                    then map (addOrigin r) flat else flat)
         in map mapNode (zip out [0 ..< length out])))"
proof (intro conjI impI allI)
  assume "frames \<noteq> []"
    and "Min (fr_x ` set frames) \<le> 5 \<and> Min (fr_y ` set frames) \<le> 5"
  then show "normalizeFrames nodes (Some origin) frames = map (addOrigin origin) nodes"
    by (rule normalizeFrames_near)
next
  assume "frames \<noteq> []"
    and "5 < Min (fr_x ` set frames) \<or> 5 < Min (fr_y ` set frames)"
  then show "normalizeFrames nodes (Some origin) frames = nodes"
    by (rule normalizeFrames_far)
next
  fix node :: FlatNode and f
  assume "fl_frame node = Some f"
  then show "fl_frame (addOrigin origin node) =
        Some \<lparr>fr_x = fr_x f + fr_x origin, fr_y = fr_y f + fr_y origin,
              fr_width = fr_width f, fr_height = fr_height f\<rparr>"
    by (rule addOrigin_frame)
next
  show "map (\<lambda>node. map_option fr_width (fl_frame node)) (normalizeFrames nodes originFrame frames) =
     map (\<lambda>node. map_option fr_width (fl_frame node)) nodes"
    by (rule normalizeFrames_size)
next
  show "map (\<lambda>node. map_option fr_height (fl_frame node)) (normalizeFrames nodes originFrame frames) =
     map (\<lambda>node. map_option fr_height (fl_frame node)) nodes"
    by (rule normalizeFrames_size)
next
  show "walk rootFrame tree 0 ([], []) = (preorder rootFrame tree 0, reportedFrames tree)"
    using walk_preorder [of rootFrame tree 0 "[]" "[]"] by simp
next
  fix r
  assume "(case ax_frame tree of Some f \<Rightarrow> Some f | None \<Rightarrow> originFrame) = Some r \<and>
        reportedFrames tree \<noteq> []"
  then show "snapshotTree tree originFrame =
        (let flat = preorder (Some r) tree 0;
             out = (if Min (fr_x ` set (reportedFrames tree)) \<le> 5 \<and>
                       Min (fr_y ` set (reportedFrames tree)) \<le> 5
                    then map (addOrigin r) flat else flat)
         in map mapNode (zip out [0 ..< length out]))"
    by (intro snapshotTree_eq) auto
qed

lemma windowTree_flat:
  "reportedFrames windowTree = [\<lparr>fr_x = 3, fr_y = 4, fr_width = 10, fr_height = 10\<rparr>]"
  "preorder (Some windowFrame) windowTree 0 =
     [\<lparr>fl_role = Some ''AXApplication'', fl_subrole = None, fl_label = None, fl_value = None,
       fl_identifier = None, fl_frame = None, fl_depth = 0\<rparr>,
      \<lparr>fl_role = Some ''AXButton'', fl_subrole = None, fl_label = Some ''OK'', fl_value = None,
       fl_identifier = None,
       fl_frame = Some \<lparr>fr_x = - 97, fr_y = - 196, fr_width = 10, fr_height = 10\<rparr>,
       fl_depth = 1\<rparr>]"
  by (simp_all add: windowTree_def windowFrame_def subtractRoot_def)

lemma screenTree_flat:
  "reportedFrames screenTree =
     [\<lparr>fr_x = 100, fr_y = 200, fr_width = 390, fr_height = 844\<rparr>,
      \<lparr>fr_x = 120, fr_y = 230, fr_width = 10, fr_height = 10\<rparr>]"
  "preorder (Some \<lparr>fr_x = 100, fr_y = 200, fr_width = 390, fr_height = 844\<rparr>) screenTree 0 =
     [\<lparr>fl_role = Some ''AXApplication'', fl_subrole = None, fl_label = None, fl_value = None,
       fl_identifier = None,
       fl_frame = Some \<lparr>fr_x = 0, fr_y = 0, fr_width = 390, fr_height = 844\<rparr>, fl_depth = 0\<rparr>,
      \<lparr>fl_role = Some ''AXButton'', fl_subrole = None, fl_label = Some ''OK'', fl_value = None,
       fl_identifier = None,
       fl_frame = Some \<lparr>fr_x = 20, fr_y = 30, fr_width = 10, fr_height = 10\<rparr>,
       fl_depth = 1\<rparr>]"
  by (simp_all add: screenTree_def subtractRoot_def)

text \<open>
  Both branches: the tree under a window, whose child is reported at (3, 4), and the
  tree reported in screen coordinates from (100, 200).
\<close>

theorem normalizeFrames_drift_correction_witness:
  "map n_rect (snapshotTree windowTree (Some windowFrame)) =
     [None, Some \<lparr>r_x = 3, r_y = 4, r_width = 10, r_height = 10\<rparr>] \<and>
   map n_rect (snapshotTree screenTree None) =
     [Some \<lparr>r_x = 0, r_y = 0, r_width = 390, r_height = 844\<rparr>,
      Some \<lparr>r_x = 20, r_y = 30, r_width = 10, r_height = 10\<rparr>]"
proof -
  let ?s = "\<lparr>fr_x = 100, fr_y = 200, fr_width = 390, fr_height = 844\<rparr>"
  have a: "(case ax_frame windowTree of Some f \<Rightarrow> Some f | None \<Rightarrow> Some windowFrame) =
             Some windowFrame \<and> reportedFrames windowTree \<noteq> []"
    by (simp add: windowTree_def)
  have b: "(case ax_frame screenTree of Some f \<Rightarrow> Some f | None \<Rightarrow> None) = Some ?s \<and>
           reportedFrames screenTree \<noteq> []"
    by (simp add: screenTree_def)
  from normalizeFrames_drift_correction
         [where tree = windowTree and originFrame = "Some windowFrame"] a
  have "snapshotTree windowTree (Some windowFrame) =
        (let flat = preorder (Some windowFrame) windowTree 0;
             out = (if Min (fr_x ` set (reportedFrames windowTree)) \<le> 5 \<and>
                       Min (fr_y ` set (reportedFrames windowTree)) \<le> 5
                    then map (addOrigin windowFrame) flat else flat)
         in map mapNode (zip out [0 ..< length out]))"
    by blast
  then have w: "map n_rect (snapshotTree windowTree (Some windowFrame)) =
     [None, Some \<lparr>r_x = 3, r_y = 4, r_width = 10, r_height = 10\<rparr>]"
    unfolding windowTree_flat by (simp add: Let_def addOrigin_def mapNode_def windowFrame_def)
  from normalizeFrames_drift_correction [where tree = screenTree and originFrame = None] b
  have "snapshotTree screenTree None =
        (let flat = preorder (Some ?s) screenTree 0;
             out = (if Min (fr_x ` set (reportedFrames screenTree)) \<le> 5 \<and>
                       Min (fr_y ` set (reportedFrames screenTree)) \<le> 5
                    then map (addOrigin ?s) flat else flat)
         in map mapNode (zip out [0 ..< length out]))"
    by blast
  then have "map n_rect (snapshotTree screenTree None) =
     [Some \<lparr>r_x = 0, r_y = 0, r_width = 390, r_height = 844\<rparr>,
      Some \<lparr>r_x = 20, r_y = 30, r_width = 10, r_height = 10\<rparr>]"
    unfolding screenTree_flat by (simp add: Let_def mapNode_def)
  with w show ?thesis by simp
qed

text \<open>
  Claim C1 as stated fails. For the tree under a window the least sample is (3, 4) as
  reported and (-97, -196) with the window's corner subtracted: neither is greater than
  5 in an axis, so the claim keeps the subtracted coordinates (-97, -196). The code adds
  the corner of the window back and returns the button at (3, 4).
\<close>

theorem normalizeFrames_drift_counterexample:
  "normalizeFrames (preorder (Some windowFrame) windowTree 0) (Some windowFrame)
     (reportedFrames windowTree) \<noteq>
   normalizeFrames_spec (preorder (Some windowFrame) windowTree 0) windowFrame
     (reportedFrames windowTree) \<and>
   normalizeFrames (preorder (Some windowFrame) windowTree 0) (Some windowFrame)
     (reportedFrames windowTree) \<noteq>
   normalizeFrames_spec (preorder (Some windowFrame) windowTree 0) windowFrame
     (map (subtractRoot (Some windowFrame)) (reportedFrames windowTree)) \<and>
   map n_rect (snapshotTree windowTree (Some windowFrame)) =
     [None, Some \<lparr>r_x = 3, r_y = 4, r_width = 10, r_height = 10\<rparr>] \<and>
   map fl_frame (preorder (Some windowFrame) windowTree 0) =
     [None, Some \<lparr>fr_x = - 97, fr_y = - 196, fr_width = 10, fr_height = 10\<rparr>]"
proof -
  have c: "normalizeFrames (preorder (Some windowFrame) windowTree 0) (Some windowFrame)
             (reportedFrames windowTree) =
           map (addOrigin windowFrame) (preorder (Some windowFrame) windowTree 0)"
    by (rule normalizeFrames_near) (simp_all add: windowTree_flat)
  have s1: "normalizeFrames_spec (preorder (Some windowFrame) windowTree 0) windowFrame
              (reportedFrames windowTree) = preorder (Some windowFrame) windowTree 0"
    by (simp add: normalizeFrames_spec_def windowTree_flat)
  have s2: "normalizeFrames_spec (preorder (Some windowFrame) windowTree 0) windowFrame
              (map (subtractRoot (Some windowFrame)) (reportedFrames windowTree)) =
            preorder (Some windowFrame) windowTree 0"
    by (simp add: normalizeFrames_spec_def windowTree_flat subtractRoot_def windowFrame_def)
  have d: "map (addOrigin windowFrame) (preorder (Some windowFrame) windowTree 0) \<noteq>
           preorder (Some windowFrame) windowTree 0"
    unfolding windowTree_flat by (simp add: addOrigin_def windowFrame_def)
  have r: "map n_rect (snapshotTree windowTree (Some windowFrame)) =
     [None, Some \<lparr>r_x = 3, r_y = 4, r_width = 10, r_height = 10\<rparr>]"
  proof -
    have "ax_frame windowTree = None" by (simp add: windowTree_def)
    then have "snapshotTree windowTree (Some windowFrame) =
        map mapNode (zip (map (addOrigin windowFrame) (preorder (Some windowFrame) windowTree 0))
                         [0 ..< length (preorder (Some windowFrame) windowTree 0)])"
      by (simp add: snapshotTree_def walk_preorder c Let_def)
    then show ?thesis
      unfolding windowTree_flat by (simp add: addOrigin_def mapNode_def windowFrame_def)
  qed
  show ?thesis
    unfolding c s1 s2 using d r by (simp add: windowTree_flat)
qed

section \<open>Properties of the snapshot capture\<close>

lemma w_spawned_appendAxTrace [simp]:
  "w_spawned (appendAxTrace path result w) = w_spawned w"
  by (simp add: appendAxTrace_def appendFileSync_def Let_def)

lemma w_ext_appendAxTrace [simp]:
  "w_ext (appendAxTrace path result w) = w_ext w"
  by (simp add: appendAxTrace_def appendFileSync_def Let_def)

lemma spawn_spawned:
  "spawn env cmd args dir w = (r, w') \<Longrightarrow> w_spawned w' = w_spawned w @ [(cmd, args)]"
  by (auto simp: spawn_def split: prod.splits)

lemma axAttempt_spawned:
  assumes "axAttempt env binary t w = (r, w')"
  shows "w_spawned w' = w_spawned w @ [(binary, [])]"
proof -
  obtain r1 w1 where s: "spawn env binary [] None w = (r1, w1)"
    by (cases "spawn env binary [] None w")
  have "w_spawned w' = w_spawned w1"
    using assms s by (auto simp: axAttempt_def Let_def split: sum.splits option.splits if_splits)
  then show ?thesis using spawn_spawned [OF s] by simp
qed

lemma retryLoop_spawned:
  "(\<forall>u r u'. fn u = (r, u') \<longrightarrow> g u' = g u @ [x]) \<Longrightarrow>
   retryLoop fn atts base maxD jit should rnd attempt lastError w tr = (res, w', tr') \<Longrightarrow>
   \<exists>k. calls tr' = calls tr + k \<and> g w' = g w @ replicate k x"
proof (induction fn atts base maxD jit should rnd attempt lastError w tr rule: retryLoop.induct)
  case (1 fn atts base maxD jit should rnd attempt lastError w tr)
  note step = "1.prems"(1) and run = "1.prems"(2)
  show ?case
  proof (cases "of_int attempt \<le> atts")
    case False
    then have "tr' = tr" and "w' = w" using run by (simp_all add: retryLoop_exhausted)
    then show ?thesis by simp
  next
    case True
    obtain r w1 where fw: "fn w = (r, w1)" by (cases "fn w")
    have g1: "g w1 = g w @ [x]" using step fw by blast
    show ?thesis
    proof (cases r)
      case (Inr v)
      then have "tr' = tr @ [Called attempt None]" and "w' = w1"
        using True fw run by (simp_all add: retryLoop_success)
      then have "calls tr' = calls tr + 1 \<and> g w' = g w @ replicate 1 x"
        using g1 by (simp add: calls_def)
      then show ?thesis by blast
    next
      case (Inl err)
      have fwl: "fn w = (Inl err, w1)" using fw Inl by simp
      show ?thesis
      proof (cases "atts \<le> of_int attempt \<or> (\<exists>f. should = Some f \<and> \<not> f err attempt)")
        case stop: True
        have "retryLoop fn atts base maxD jit should rnd attempt lastError w tr =
                (Inl (throwLast err), w1, tr @ [Called attempt (Some err)])"
          using True fwl stop by (intro retryLoop_stop) auto
        then have "tr' = tr @ [Called attempt (Some err)]" and "w' = w1"
          using run by simp_all
        then have "calls tr' = calls tr + 1 \<and> g w' = g w @ replicate 1 x"
          using g1 by (simp add: calls_def)
        then show ?thesis by blast
      next
        case go: False
        then have lt: "of_int attempt < atts" and ok: "\<forall>f. should = Some f \<longrightarrow> f err attempt"
          by auto
        have c: "(case should of None \<Rightarrow> False | Some f \<Rightarrow> \<not> f err attempt) = False"
          using ok by (auto split: option.splits)
        let ?tr1 = "tr @ [Called attempt (Some err),
                          Slept (computeDelay base maxD jit attempt (rnd attempt))]"
        have run1: "retryLoop fn atts base maxD jit should rnd (attempt + 1) err w1 ?tr1 =
                      (res, w', tr')"
          using retryLoop_continue [of attempt atts fn w err w1 should, OF lt fwl ok] run by simp
        have p4: "\<not> atts \<le> of_int attempt" using lt by simp
        have p5: "\<not> (case should of None \<Rightarrow> False | Some f \<Rightarrow> \<not> f err attempt)"
          using c by simp
        obtain k where k: "calls tr' = calls ?tr1 + k" "g w' = g w1 @ replicate k x"
          using "1.IH" [OF True fw [symmetric] Inl p4 p5 step run1] by auto
        have "calls tr' = calls tr + Suc k \<and> g w' = g w @ replicate (Suc k) x"
          using k g1 by (simp add: calls_def replicate_app_Cons_same)
        then show ?thesis by blast
      qed
    qed
  qed
qed

lemma retryLoop_calls_grow:
  "retryLoop fn atts base maxD jit should rnd attempt lastError w tr = (res, w', tr') \<Longrightarrow>
   of_int attempt \<le> atts \<Longrightarrow> calls tr < calls tr'"
proof (induction fn atts base maxD jit should rnd attempt lastError w tr rule: retryLoop.induct)
  case (1 fn atts base maxD jit should rnd attempt lastError w tr)
  note run = "1.prems"(1) and le = "1.prems"(2)
  obtain r w1 where fw: "fn w = (r, w1)" by (cases "fn w")
  show ?case
  proof (cases r)
    case (Inr v)
    then have "tr' = tr @ [Called attempt None]"
      using le fw run by (simp add: retryLoop_success)
    then show ?thesis by (simp add: calls_def)
  next
    case (Inl err)
    have fwl: "fn w = (Inl err, w1)" using fw Inl by simp
    show ?thesis
    proof (cases "atts \<le> of_int attempt \<or> (\<exists>f. should = Some f \<and> \<not> f err attempt)")
      case stop: True
      have "retryLoop fn atts base maxD jit should rnd attempt lastError w tr =
              (Inl (throwLast err), w1, tr @ [Called attempt (Some err)])"
        using le fwl stop by (intro retryLoop_stop) auto
      then have "tr' = tr @ [Called attempt (Some err)]"
        using run by simp
      then show ?thesis by (simp add: calls_def)
    next
      case go: False
      then have lt: "of_int attempt < atts" and ok: "\<forall>f. should = Some f \<longrightarrow> f err attempt"
        by auto
      have c: "(case should of None \<Rightarrow> False | Some f \<Rightarrow> \<not> f err attempt) = False"
        using ok by (auto split: option.splits)
      let ?tr1 = "tr @ [Called attempt (Some err),
                        Slept (computeDelay base maxD jit attempt (rnd attempt))]"
      have run1: "retryLoop fn atts base maxD jit should rnd (attempt + 1) err w1 ?tr1 =
                    (res, w', tr')"
        using retryLoop_continue [of attempt atts fn w err w1 should, OF lt fwl ok] run by simp
      have p4: "\<not> atts \<le> of_int attempt" using lt by simp
      have p5: "\<not> (case should of None \<Rightarrow> False | Some f \<Rightarrow> \<not> f err attempt)"
        using c by simp
      show ?thesis
      proof (cases "of_int (attempt + 1) \<le> atts")
        case True
        have "calls ?tr1 < calls tr'"
          by (rule "1.IH" [OF le fw [symmetric] Inl p4 p5 run1 True])
        then show ?thesis by (simp add: calls_def)
      next
        case False
        then have "atts < of_int (attempt + 1)" by simp
        then have "tr' = ?tr1" using run1 by (simp add: retryLoop_exhausted)
        then show ?thesis by (simp add: calls_def)
      qed
    qed
  qed
qed

lemma axRetry_fields:
  "attemptsOf axRetryOptions = 3" "baseDelayOf axRetryOptions = 200"
  "maxDelayOf axRetryOptions = 2000" "jitterOf axRetryOptions = 2 / 10"
  "shouldRetry axRetryOptions = Some (\<lambda>err attempt. isRetryableError err)"
  by (simp_all add: axRetryOptions_def attemptsOf_def baseDelayOf_def maxDelayOf_def
        jitterOf_def defaultOptions_def)

lemma axRun_spawned:
  assumes "withRetry (axAttempt env binary t) axRetryOptions rnd w = (res, w', tr)"
  shows "1 \<le> calls tr \<and> calls tr \<le> 3 \<and>
         w_spawned w' = w_spawned w @ replicate (calls tr) (binary, [])"
proof -
  have run: "retryLoop (axAttempt env binary t) 3 200 2000 (2 / 10)
               (Some (\<lambda>err attempt. isRetryableError err)) rnd 1 JUndefined w [] = (res, w', tr)"
    using assms by (simp add: withRetry_def axRetry_fields)
  have "calls [] < calls tr"
    using retryLoop_calls_grow [OF run] by simp
  moreover have "calls tr \<le> calls [] + 3"
    using retryLoop_calls [OF run] by simp
  moreover have "\<exists>k. calls tr = calls [] + k \<and>
                   w_spawned w' = w_spawned w @ replicate k (binary, [])"
    using retryLoop_spawned [of "axAttempt env binary t" w_spawned "(binary, [])", OF _ run]
          axAttempt_spawned [of env binary t]
    by blast
  moreover have "calls [] = 0" by (simp add: calls_def)
  ultimately show ?thesis by auto
qed

lemma isRetryableAxError_iff:
  "isRetryableAxError stderrText \<longleftrightarrow>
     strIncludes (toLowerCase stderrText) ''could not find ios app content'' \<or>
     strIncludes (toLowerCase stderrText) ''timeout''"
  by (simp add: isRetryableAxError_def Let_def)

lemma snapshotFailed_retryable:
  "err_code (snapshotFailed result) = ''COMMAND_FAILED''"
  "Option.bind (err_details (snapshotFailed result)) d_retryable =
     Some (isRetryableAxError (stderrOf result))"
  "isRetryableError (JAppError (snapshotFailed result)) \<longleftrightarrow> isRetryableAxError (stderrOf result)"
  by (simp_all add: snapshotFailed_def isRetryableError_def Let_def stderrOf_def)

lemma axAttempt_failed:
  assumes "spawn env binary [] None w = (Inr result, w1)" and "cr_exitCode result \<noteq> 0"
  shows "\<exists>w2. axAttempt env binary t w = (Inl (JAppError (snapshotFailed result)), w2) \<and>
              w_spawned w2 = w_spawned w @ [(binary, [])]"
proof -
  obtain r w2 where a: "axAttempt env binary t w = (r, w2)"
    by (cases "axAttempt env binary t w")
  have "r = Inl (JAppError (snapshotFailed result))"
    using a assms by (auto simp: axAttempt_def Let_def split: option.splits if_splits)
  then show ?thesis using a axAttempt_spawned [OF a] by simp
qed

lemma decodePayload_not_retryable:
  "decodePayload env out = Inl err \<Longrightarrow> \<not> isRetryableError err"
  by (auto simp: decodePayload_def isRetryableError_def invalidJson_def
           split: option.splits sum.splits payload.splits)

lemma decodePayload_malformed:
  "jsonParse env text = Inl msg \<Longrightarrow>
   decodePayload env (Some text) = Inl (JAppError (invalidJson msg))"
  by (simp add: decodePayload_def)

lemma snapshotAxSupported_decode_failure:
  assumes "ensureAxSnapshotBinary env w = (Inr binary, w1)"
    and "withRetry (axAttempt env binary (traceLogPath options)) axRetryOptions (random env) w1 =
           (Inr result, w2, tr)"
    and "decodePayload env (cr_stdout result) = Inl err"
  shows "snapshotAxSupported env options w = (Inl err, w2)"
    and "w_spawned w2 = w_spawned w1 @ replicate (calls tr) (binary, [])"
    and "\<not> isRetryableError err"
  using assms axRun_spawned [OF assms(2)] decodePayload_not_retryable [OF assms(3)]
  by (simp_all add: snapshotAxSupported_def)


lemma snapshotAxSupported_spawned:
  assumes "ensureAxSnapshotBinary env w = (Inr binary, w1)"
  shows "\<exists>k. 1 \<le> k \<and> k \<le> 3 \<and>
     w_spawned (snd (snapshotAxSupported env options w)) = w_spawned w1 @ replicate k (binary, [])"
proof -
  obtain res w2 tr where
    r: "withRetry (axAttempt env binary (traceLogPath options)) axRetryOptions (random env) w1 =
          (res, w2, tr)"
    by (cases "withRetry (axAttempt env binary (traceLogPath options)) axRetryOptions
                 (random env) w1")
  have "snd (snapshotAxSupported env options w) = w2"
    using assms r by (simp add: snapshotAxSupported_def split: sum.splits prod.splits)
  then show ?thesis using axRun_spawned [OF r] by auto
qed

text \<open>
  Claim C8. For a device whose platform is not \<open>ios\<close> or whose kind is not
  \<open>simulator\<close>, \<open>snapshotAx\<close> throws the error \<open>UNSUPPORTED_OPERATION\<close> and leaves the
  world as it was: no process has been spawned and no file written. For an iOS simulator
  the check passes: \<open>snapshotAx\<close> goes on to find the helper binary, and once it has it,
  runs the helper at least once and at most three times.
\<close>

theorem snapshotAx_unsupported_device:
  "(dev_platform device \<noteq> ''ios'' \<or> dev_kind device \<noteq> ''simulator'' \<longrightarrow>
      snapshotAx env device options w = (Inl (JAppError unsupportedAx), w) \<and>
      err_code unsupportedAx = ''UNSUPPORTED_OPERATION'') \<and>
   (dev_platform device = ''ios'' \<and> dev_kind device = ''simulator'' \<longrightarrow>
      snapshotAx env device options w = snapshotAxSupported env options w \<and>
      (\<forall>binary w1. ensureAxSnapshotBinary env w = (Inr binary, w1) \<longrightarrow>
         (\<exists>k. 1 \<le> k \<and> k \<le> 3 \<and>
            w_spawned (snd (snapshotAx env device options w)) =
              w_spawned w1 @ replicate k (binary, []))))"
proof (intro conjI impI allI)
  assume "dev_platform device \<noteq> ''ios'' \<or> dev_kind device \<noteq> ''simulator''"
  then show "snapshotAx env device options w = (Inl (JAppError unsupportedAx), w)"
    by (simp add: snapshotAx_def)
next
  show "err_code unsupportedAx = ''UNSUPPORTED_OPERATION''"
    by (simp add: unsupportedAx_def)
next
  assume "dev_platform device = ''ios'' \<and> dev_kind device = ''simulator''"
  then show "snapshotAx env device options w = snapshotAxSupported env options w"
    by (simp add: snapshotAx_def)
next
  fix binary w1
  assume d: "dev_platform device = ''ios'' \<and> dev_kind device = ''simulator''"
    and e: "ensureAxSnapshotBinary env w = (Inr binary, w1)"
  have "snapshotAx env device options w = snapshotAxSupported env options w"
    using d by (simp add: snapshotAx_def)
  then show "\<exists>k. 1 \<le> k \<and> k \<le> 3 \<and>
            w_spawned (snd (snapshotAx env device options w)) =
              w_spawned w1 @ replicate k (binary, [])"
    using snapshotAxSupported_spawned [OF e, of options] by simp
qed

lemma helperEnv_binary:
  "ensureAxSnapshotBinary (helperEnv t n p) freshWorld = (Inr ''/opt/axsnapshot'', freshWorld)"
  by (simp add: ensureAxSnapshotBinary_def helperEnv_def Let_def)

text \<open>An Android emulator, an iOS phone and an iOS simulator on the example machine.\<close>

theorem snapshotAx_unsupported_device_witness:
  "snapshotAx (helperEnv [] 0 parseWindow) androidEmulator \<lparr>traceLogPath = None\<rparr> freshWorld =
     (Inl (JAppError unsupportedAx), freshWorld) \<and>
   snapshotAx (helperEnv [] 0 parseWindow) iosPhone \<lparr>traceLogPath = None\<rparr> freshWorld =
     (Inl (JAppError unsupportedAx), freshWorld) \<and>
   w_spawned freshWorld = [] \<and>
   (\<exists>k. 1 \<le> k \<and> k \<le> 3 \<and>
      w_spawned (snd (snapshotAx (helperEnv [] 0 parseWindow) iosSimulator
                        \<lparr>traceLogPath = None\<rparr> freshWorld)) =
        replicate k (''/opt/axsnapshot'', []))"
proof -
  have a: "snapshotAx (helperEnv [] 0 parseWindow) androidEmulator \<lparr>traceLogPath = None\<rparr> freshWorld =
     (Inl (JAppError unsupportedAx), freshWorld)"
    using snapshotAx_unsupported_device
            [of androidEmulator "helperEnv [] 0 parseWindow" "\<lparr>traceLogPath = None\<rparr>" freshWorld]
    by (simp add: androidEmulator_def)
  have b: "snapshotAx (helperEnv [] 0 parseWindow) iosPhone \<lparr>traceLogPath = None\<rparr> freshWorld =
     (Inl (JAppError unsupportedAx), freshWorld)"
    using snapshotAx_unsupported_device
            [of iosPhone "helperEnv [] 0 parseWindow" "\<lparr>traceLogPath = None\<rparr>" freshWorld]
    by (simp add: iosPhone_def)
  have i: "dev_platform iosSimulator = ''ios'' \<and> dev_kind iosSimulator = ''simulator''"
    by (simp add: iosSimulator_def)
  from snapshotAx_unsupported_device
         [of iosSimulator "helperEnv [] 0 parseWindow" "\<lparr>traceLogPath = None\<rparr>" freshWorld]
       i helperEnv_binary [of "[]" 0 parseWindow]
  have "\<exists>k. 1 \<le> k \<and> k \<le> 3 \<and>
      w_spawned (snd (snapshotAx (helperEnv [] 0 parseWindow) iosSimulator
                        \<lparr>traceLogPath = None\<rparr> freshWorld)) =
        w_spawned freshWorld @ replicate k (''/opt/axsnapshot'', [])"
    by blast
  moreover have e: "w_spawned freshWorld = []" by (simp add: freshWorld_def)
  ultimately have c: "\<exists>k. 1 \<le> k \<and> k \<le> 3 \<and>
      w_spawned (snd (snapshotAx (helperEnv [] 0 parseWindow) iosSimulator
                        \<lparr>traceLogPath = None\<rparr> freshWorld)) =
        replicate k (''/opt/axsnapshot'', [])"
    by simp
  show ?thesis using a b c e by simp
qed


lemma axLoop_failed_attempt:
  assumes sp: "spawn env binary [] None u = (Inr result, u1)" and ex: "cr_exitCode result \<noteq> 0"
    and lt: "attempt < 3"
  shows "\<exists>u2. axAttempt env binary t u = (Inl (JAppError (snapshotFailed result)), u2) \<and>
     retryLoop (axAttempt env binary t) 3 200 2000 (2 / 10) (shouldRetry axRetryOptions) rnd
       attempt lastError u tr =
     (if isRetryableAxError (stderrOf result)
      then retryLoop (axAttempt env binary t) 3 200 2000 (2 / 10) (shouldRetry axRetryOptions) rnd
             (attempt + 1) (JAppError (snapshotFailed result)) u2
             (tr @ [Called attempt (Some (JAppError (snapshotFailed result))),
                    Slept (computeDelay 200 2000 (2 / 10) attempt (rnd attempt))])
      else (Inl (JAppError (snapshotFailed result)), u2,
            tr @ [Called attempt (Some (JAppError (snapshotFailed result)))]))"
proof -
  obtain u2 where a: "axAttempt env binary t u = (Inl (JAppError (snapshotFailed result)), u2)"
    using axAttempt_failed [OF sp ex] by blast
  have tl: "throwLast (JAppError (snapshotFailed result)) = JAppError (snapshotFailed result)"
    by (simp add: throwLast_def)
  have ltr: "of_int attempt < (3::real)" using lt by simp
  show ?thesis
  proof (cases "isRetryableAxError (stderrOf result)")
    case True
    then have ok: "\<forall>f. shouldRetry axRetryOptions = Some f \<longrightarrow>
                     f (JAppError (snapshotFailed result)) attempt"
      by (simp add: axRetry_fields snapshotFailed_retryable)
    show ?thesis
      using retryLoop_continue [of attempt 3 "axAttempt env binary t" u _ u2, OF ltr a ok] True a
      by simp
  next
    case False
    then have no: "(3::real) \<le> of_int attempt \<or> (\<exists>f. shouldRetry axRetryOptions = Some f \<and>
                     \<not> f (JAppError (snapshotFailed result)) attempt)"
      by (simp add: axRetry_fields snapshotFailed_retryable)
    have le: "of_int attempt \<le> (3::real)" using lt by simp
    show ?thesis
      using retryLoop_stop [of attempt 3 "axAttempt env binary t" u _ u2, OF le a no] False a tl
      by simp
  qed
qed

text \<open>
  Claim C9. The text on stderr is retryable exactly when, in lower case, it contains
  \<open>could not find ios app content\<close> or \<open>timeout\<close>. The error thrown for a run of the
  helper that exits with a code other than 0 has the code \<open>COMMAND_FAILED\<close> and carries
  that verdict as its \<open>retryable\<close> detail, and the predicate \<open>shouldRetry\<close> that
  \<open>snapshotAx\<close> hands to \<open>withRetry\<close> reads it back: after a failed attempt that is not
  the third, the loop goes on to the next attempt if the text is retryable, and throws
  the error at once if it is not. An error of the decoding step is never retryable; a
  parse error is thrown as \<open>COMMAND_FAILED\<close>; and it is thrown behind the retry loop:
  the world is the one the loop left, in which the helper has run once for each call
  the loop made.
\<close>

theorem ax_snapshot_retry_policy:
  "(isRetryableAxError stderrText \<longleftrightarrow>
      strIncludes (toLowerCase stderrText) ''could not find ios app content'' \<or>
      strIncludes (toLowerCase stderrText) ''timeout'') \<and>
   err_code (snapshotFailed result) = ''COMMAND_FAILED'' \<and>
   Option.bind (err_details (snapshotFailed result)) d_retryable =
     Some (isRetryableAxError (stderrOf result)) \<and>
   (isRetryableError (JAppError (snapshotFailed result)) \<longleftrightarrow>
      isRetryableAxError (stderrOf result)) \<and>
   shouldRetry axRetryOptions = Some (\<lambda>err attempt. isRetryableError err) \<and>
   attemptsOf axRetryOptions = 3 \<and>
   (\<forall>attempt lastError u u1 tr.
      attempt < 3 \<and> spawn env binary [] None u = (Inr result, u1) \<and> cr_exitCode result \<noteq> 0 \<longrightarrow>
      (\<exists>u2. axAttempt env binary t u = (Inl (JAppError (snapshotFailed result)), u2) \<and>
         retryLoop (axAttempt env binary t) 3 200 2000 (2 / 10) (shouldRetry axRetryOptions) rnd
           attempt lastError u tr =
         (if isRetryableAxError (stderrOf result)
          then retryLoop (axAttempt env binary t) 3 200 2000 (2 / 10) (shouldRetry axRetryOptions)
                 rnd (attempt + 1) (JAppError (snapshotFailed result)) u2
                 (tr @ [Called attempt (Some (JAppError (snapshotFailed result))),
                        Slept (computeDelay 200 2000 (2 / 10) attempt (rnd attempt))])
          else (Inl (JAppError (snapshotFailed result)), u2,
                tr @ [Called attempt (Some (JAppError (snapshotFailed result)))])))) \<and>
   (\<forall>out err. decodePayload env out = Inl err \<longrightarrow> \<not> isRetryableError err) \<and>
   (\<forall>raw msg. jsonParse env raw = Inl msg \<longrightarrow>
      decodePayload env (Some raw) = Inl (JAppError (invalidJson msg)) \<and>
      err_code (invalidJson msg) = ''COMMAND_FAILED'') \<and>
   (\<forall>w w1 res w2 tr err.
      ensureAxSnapshotBinary env w = (Inr binary, w1) \<and>
      withRetry (axAttempt env binary (traceLogPath options)) axRetryOptions (random env) w1 =
        (Inr res, w2, tr) \<and>
      decodePayload env (cr_stdout res) = Inl err \<longrightarrow>
      snapshotAxSupported env options w = (Inl err, w2) \<and>
      w_spawned w2 = w_spawned w1 @ replicate (calls tr) (binary, []))"
proof (intro conjI allI impI)
  show "isRetryableAxError stderrText \<longleftrightarrow>
      strIncludes (toLowerCase stderrText) ''could not find ios app content'' \<or>
      strIncludes (toLowerCase stderrText) ''timeout''"
    by (rule isRetryableAxError_iff)
  show "err_code (snapshotFailed result) = ''COMMAND_FAILED''"
    by (rule snapshotFailed_retryable)
  show "Option.bind (err_details (snapshotFailed result)) d_retryable =
     Some (isRetryableAxError (stderrOf result))"
    by (rule snapshotFailed_retryable)
  show "isRetryableError (JAppError (snapshotFailed result)) \<longleftrightarrow>
      isRetryableAxError (stderrOf result)"
    by (rule snapshotFailed_retryable)
  show "shouldRetry axRetryOptions = Some (\<lambda>err attempt. isRetryableError err)"
    by (rule axRetry_fields)
  show "attemptsOf axRetryOptions = 3"
    by (rule axRetry_fields)
next
  fix attempt :: int and lastError :: jsval and u u1 :: "'a world" and tr :: "retry_event list"
  assume "attempt < 3 \<and> spawn env binary [] None u = (Inr result, u1) \<and> cr_exitCode result \<noteq> 0"
  then show "\<exists>u2. axAttempt env binary t u = (Inl (JAppError (snapshotFailed result)), u2) \<and>
         retryLoop (axAttempt env binary t) 3 200 2000 (2 / 10) (shouldRetry axRetryOptions) rnd
           attempt lastError u tr =
         (if isRetryableAxError (stderrOf result)
          then retryLoop (axAttempt env binary t) 3 200 2000 (2 / 10) (shouldRetry axRetryOptions)
                 rnd (attempt + 1) (JAppError (snapshotFailed result)) u2
                 (tr @ [Called attempt (Some (JAppError (snapshotFailed result))),
                        Slept (computeDelay 200 2000 (2 / 10) attempt (rnd attempt))])
          else (Inl (JAppError (snapshotFailed result)), u2,
                tr @ [Called attempt (Some (JAppError (snapshotFailed result)))]))"
    using axLoop_failed_attempt [of env binary u result u1 attempt t rnd lastError tr] by blast
next
  fix out err
  assume "decodePayload env out = Inl err"
  then show "\<not> isRetryableError err" by (rule decodePayload_not_retryable)
next
  fix raw msg
  assume "jsonParse env raw = Inl msg"
  then show "decodePayload env (Some raw) = Inl (JAppError (invalidJson msg))"
    by (rule decodePayload_malformed)
next
  fix msg
  show "err_code (invalidJson msg) = ''COMMAND_FAILED''" by (simp add: invalidJson_def)
next
  fix w w1 res w2 tr err
  assume a: "ensureAxSnapshotBinary env w = (Inr binary, w1) \<and>
      withRetry (axAttempt env binary (traceLogPath options)) axRetryOptions (random env) w1 =
        (Inr res, w2, tr) \<and>
      decodePayload env (cr_stdout res) = Inl err"
  then show "snapshotAxSupported env options w = (Inl err, w2)"
    using snapshotAxSupported_decode_failure(1) [of env w binary w1 options res w2 tr err] by blast
  from a show "w_spawned w2 = w_spawned w1 @ replicate (calls tr) (binary, [])"
    using snapshotAxSupported_decode_failure(2) [of env w binary w1 options res w2 tr err] by blast
qed


lemma helperEnv_fields:
  "runCmd (helperEnv t n p) cmd args dir k =
     (Inr (if k < n then \<lparr>cr_stdout = Some [], cr_stderr = Some t, cr_exitCode = 1\<rparr>
           else \<lparr>cr_stdout = Some ''{}'', cr_stderr = Some [], cr_exitCode = 0\<rparr>), Suc k)"
  "jsonParse (helperEnv t n p) = p" "random (helperEnv t n p) = (\<lambda>n. 1 / 2)"
  by (simp_all add: helperEnv_def)

text \<open>
  The helper's two diagnostics and a truncated output: the permission failure is thrown
  after one run, the missing content is retried up to the third run, and the malformed
  output is thrown after the one run that produced it.
\<close>

theorem ax_snapshot_retry_policy_witness:
  "\<not> isRetryableAxError permissionText \<and> isRetryableAxError contentText \<and>
   fst (snapshotAx (helperEnv permissionText 3 parseWindow) iosSimulator
          \<lparr>traceLogPath = None\<rparr> freshWorld) =
     Inl (JAppError (snapshotFailed
            \<lparr>cr_stdout = Some [], cr_stderr = Some permissionText, cr_exitCode = 1\<rparr>)) \<and>
   w_spawned (snd (snapshotAx (helperEnv permissionText 3 parseWindow) iosSimulator
                     \<lparr>traceLogPath = None\<rparr> freshWorld)) =
     [(''/opt/axsnapshot'', [])] \<and>
   w_spawned (snd (snapshotAx (helperEnv contentText 2 parseWindow) iosSimulator
                     \<lparr>traceLogPath = None\<rparr> freshWorld)) =
     [(''/opt/axsnapshot'', []), (''/opt/axsnapshot'', []), (''/opt/axsnapshot'', [])] \<and>
   snapshotAx (helperEnv [] 0 parseError) iosSimulator \<lparr>traceLogPath = None\<rparr> freshWorld =
     (Inl (JAppError (invalidJson ''SyntaxError: Unexpected end of JSON input'')),
      \<lparr>w_spawned = [(''/opt/axsnapshot'', [])], w_appended = [], w_ext = 1\<rparr>)"
proof -
  let ?perm = "\<lparr>cr_stdout = Some [], cr_stderr = Some permissionText, cr_exitCode = 1\<rparr>"
  let ?cont = "\<lparr>cr_stdout = Some [], cr_stderr = Some contentText, cr_exitCode = 1\<rparr>"
  let ?opts = "\<lparr>traceLogPath = None\<rparr>"
  note polp = ax_snapshot_retry_policy
      [where stderrText = permissionText and result = ?perm
         and env = "helperEnv [] 0 parseError" and binary = "''/opt/axsnapshot''"
         and t = None and rnd = "\<lambda>n. 1 / 2" and options = ?opts]
  note polc = ax_snapshot_retry_policy
      [where stderrText = contentText and result = ?cont
         and env = "helperEnv [] 0 parseError" and binary = "''/opt/axsnapshot''"
         and t = None and rnd = "\<lambda>n. 1 / 2" and options = ?opts]
  have p0: "\<not> (strIncludes (toLowerCase permissionText) ''could not find ios app content'' \<or>
                strIncludes (toLowerCase permissionText) ''timeout'')"
    by code_simp
  have c0: "strIncludes (toLowerCase contentText) ''could not find ios app content''"
    by code_simp
  have p: "\<not> isRetryableAxError permissionText"
    using polp p0 by blast
  have c: "isRetryableAxError contentText"
    using polc c0 by blast
  have so: "stderrOf ?perm = permissionText" "stderrOf ?cont = contentText"
    by (simp_all add: stderrOf_def)
  have sim: "dev_platform iosSimulator = ''ios''" "dev_kind iosSimulator = ''simulator''"
    by (simp_all add: iosSimulator_def)
  have sp: "spawn (helperEnv t n q) ''/opt/axsnapshot'' [] None
              \<lparr>w_spawned = l, w_appended = [], w_ext = k\<rparr> =
            (Inr (if k < n then \<lparr>cr_stdout = Some [], cr_stderr = Some t, cr_exitCode = 1\<rparr>
                  else \<lparr>cr_stdout = Some ''{}'', cr_stderr = Some [], cr_exitCode = 0\<rparr>),
             \<lparr>w_spawned = l @ [(''/opt/axsnapshot'', [])], w_appended = [], w_ext = Suc k\<rparr>)"
    for t n q l k
    by (simp add: spawn_def helperEnv_fields)
  have at: "axAttempt (helperEnv t n q) ''/opt/axsnapshot'' None
              \<lparr>w_spawned = l, w_appended = [], w_ext = k\<rparr> =
            (if k < n
             then Inl (JAppError (snapshotFailed
                    \<lparr>cr_stdout = Some [], cr_stderr = Some t, cr_exitCode = 1\<rparr>))
             else Inr \<lparr>cr_stdout = Some ''{}'', cr_stderr = Some [], cr_exitCode = 0\<rparr>,
             \<lparr>w_spawned = l @ [(''/opt/axsnapshot'', [])], w_appended = [], w_ext = Suc k\<rparr>)"
    for t n q l k
    by (simp add: axAttempt_def sp)
  have tl: "throwLast (JAppError e) = JAppError e" for e
    by (simp add: throwLast_def)
  have "isRetryableError (JAppError (snapshotFailed ?perm)) \<longleftrightarrow>
          isRetryableAxError (stderrOf ?perm)"
    using polp by blast
  then have rp: "isRetryableError (JAppError (snapshotFailed ?perm)) = False"
    using p so by simp
  have "isRetryableError (JAppError (snapshotFailed ?cont)) \<longleftrightarrow>
          isRetryableAxError (stderrOf ?cont)"
    using polc by blast
  then have rc: "isRetryableError (JAppError (snapshotFailed ?cont)) = True"
    using c so by simp
  have run_perm:
    "withRetry (axAttempt (helperEnv permissionText 3 parseWindow) ''/opt/axsnapshot'' None)
       axRetryOptions (\<lambda>n. 1 / 2) freshWorld =
     (Inl (JAppError (snapshotFailed ?perm)),
      \<lparr>w_spawned = [(''/opt/axsnapshot'', [])], w_appended = [], w_ext = 1\<rparr>,
      [Called 1 (Some (JAppError (snapshotFailed ?perm)))])"
    by (simp add: withRetry_def axRetry_fields freshWorld_def retryLoop.simps [of _ _ _ _ _ _ _ 1]
          at rp tl)
  have run_cont:
    "\<exists>tr. withRetry (axAttempt (helperEnv contentText 2 parseWindow) ''/opt/axsnapshot'' None)
       axRetryOptions (\<lambda>n. 1 / 2) freshWorld =
     (Inr \<lparr>cr_stdout = Some ''{}'', cr_stderr = Some [], cr_exitCode = 0\<rparr>,
      \<lparr>w_spawned = [(''/opt/axsnapshot'', []), (''/opt/axsnapshot'', []),
                     (''/opt/axsnapshot'', [])], w_appended = [], w_ext = 3\<rparr>, tr)"
    by (simp add: withRetry_def axRetry_fields freshWorld_def
          retryLoop.simps [of _ _ _ _ _ _ _ 1] retryLoop.simps [of _ _ _ _ _ _ _ 2]
          retryLoop.simps [of _ _ _ _ _ _ _ 3] at rc tl)
  have run_ok:
    "withRetry (axAttempt (helperEnv [] 0 parseError) ''/opt/axsnapshot'' None)
       axRetryOptions (\<lambda>n. 1 / 2) freshWorld =
     (Inr \<lparr>cr_stdout = Some ''{}'', cr_stderr = Some [], cr_exitCode = 0\<rparr>,
      \<lparr>w_spawned = [(''/opt/axsnapshot'', [])], w_appended = [], w_ext = 1\<rparr>,
      [Called 1 None])"
    by (simp add: withRetry_def axRetry_fields freshWorld_def retryLoop.simps [of _ _ _ _ _ _ _ 1]
          at)
  have s1: "snapshotAx (helperEnv permissionText 3 parseWindow) iosSimulator ?opts freshWorld =
     (Inl (JAppError (snapshotFailed ?perm)),
      \<lparr>w_spawned = [(''/opt/axsnapshot'', [])], w_appended = [], w_ext = 1\<rparr>)"
    by (simp add: snapshotAx_def sim snapshotAxSupported_def helperEnv_binary helperEnv_fields
          run_perm)
  have s2: "w_spawned (snd (snapshotAx (helperEnv contentText 2 parseWindow) iosSimulator
                     ?opts freshWorld)) =
     [(''/opt/axsnapshot'', []), (''/opt/axsnapshot'', []), (''/opt/axsnapshot'', [])]"
    using run_cont
    by (auto simp: snapshotAx_def sim snapshotAxSupported_def helperEnv_binary helperEnv_fields
          split: sum.splits)
  have d: "decodePayload (helperEnv [] 0 parseError) (Some ''{}'') =
             Inl (JAppError (invalidJson ''SyntaxError: Unexpected end of JSON input''))"
  proof -
    have "jsonParse (helperEnv [] 0 parseError) ''{}'' =
            Inl ''SyntaxError: Unexpected end of JSON input''"
      by (simp add: helperEnv_fields parseError_def)
    then show ?thesis using polp by blast
  qed
  have s3: "snapshotAx (helperEnv [] 0 parseError) iosSimulator ?opts freshWorld =
     (Inl (JAppError (invalidJson ''SyntaxError: Unexpected end of JSON input'')),
      \<lparr>w_spawned = [(''/opt/axsnapshot'', [])], w_appended = [], w_ext = 1\<rparr>)"
    by (simp add: snapshotAx_def sim snapshotAxSupported_def helperEnv_binary helperEnv_fields
          run_ok d)
  show ?thesis using p c s1 s2 s3 by simp
qed

section \<open>Properties of the session daemon\<close>

lemma mapGet_mapDelete: "mapGet (mapDelete m k) k = None"
  by (auto simp: mapGet_def mapDelete_def map_of_eq_None_iff)

lemma mapGet_mapDelete_other: "k' \<noteq> k \<Longrightarrow> mapGet (mapDelete m k) k' = mapGet m k'"
  by (induction m) (auto simp: mapGet_def mapDelete_def)

lemma mapGet_mapSet: "mapGet (mapSet m k v) k = Some v"
  by (induction m) (auto simp: mapGet_def)

lemma handleRequest_close_eq:
  assumes "rq_token req = token env" and "rq_command req = ''close''"
  shows "handleRequest env req st =
     handleClose env req (if rq_session req = [] then ''default'' else rq_session req) st"
  using assms by (simp add: handleRequest_def Let_def)

lemma positionals_nonempty:
  "(case rq_positionals req of Some ps \<Rightarrow> length ps > 0 | None \<Rightarrow> False) \<longleftrightarrow>
   positionalsOf req \<noteq> []"
  by (simp add: positionalsOf_def split: option.splits)

lemma handleClose_dispatch_fails:
  assumes "mapGet (sessions st) name = Some session"
    and "positionalsOf req \<noteq> []"
    and "dispatchCommand env (s_device session) ''close'' (positionalsOf req) (outOf req)
           (contextFromFlags env (rq_flags req) (s_appBundleId session)) (outside st) =
         (Inl err, x1)"
  shows "handleClose env req name st =
     (Inl err,
      st\<lparr>events := events st @ [Dispatched (dev_id (s_device session)) ''close'' (positionalsOf req)],
         outside := x1\<rparr>)"
  using assms by (simp add: handleClose_def positionals_nonempty doDispatch_def)

lemma handleClose_tail:
  assumes "mapGet (sessions st) name = Some session"
    and "(positionalsOf req = [] \<and> st1 = st) \<or>
         (positionalsOf req \<noteq> [] \<and>
          (\<exists>data x1. dispatchCommand env (s_device session) ''close'' (positionalsOf req) (outOf req)
                (contextFromFlags env (rq_flags req) (s_appBundleId session)) (outside st) =
              (Inr data, x1) \<and>
            st1 = st\<lparr>events := events st @
                        [Dispatched (dev_id (s_device session)) ''close'' (positionalsOf req)],
                      outside := x1\<rparr>))"
  shows "handleClose env req name st =
     (case (if isIosSimulator (s_device session)
            then doStopRunner env (dev_id (s_device session)) st1
            else (Inr (), st1)) of
        (Inl err, st2) \<Rightarrow> (Inl err, st2)
      | (Inr u, st2) \<Rightarrow> (Inr (Ok (SessionNamed name)), sessionsDelete name st2))"
  using assms by (auto simp: handleClose_def positionals_nonempty doDispatch_def)


text \<open>
  Claim C2, as amended. For a \<open>close\<close> request with the right token on a session that
  exists: when the request names an app, the platform command \<open>close\<close> is dispatched
  first, and if it throws, the error leaves the handler, the runner is not stopped and
  the entry stays in the map. Otherwise (no app named, or the command has returned) the
  runner of an iOS simulator is stopped, and only then the entry is deleted and the
  response is \<open>ok\<close>; for any other device the entry is deleted at once; and if stopping
  the runner throws, the entry stays. A deleted entry is no longer found.
\<close>

theorem handleRequest_close:
  assumes tok: "rq_token req = token env" and cmd: "rq_command req = ''close''"
    and nm: "name = (if rq_session req = [] then ''default'' else rq_session req)"
    and ses: "mapGet (sessions st) name = Some session"
  shows
    "(\<forall>err x1.
        positionalsOf req \<noteq> [] \<and>
        dispatchCommand env (s_device session) ''close'' (positionalsOf req) (outOf req)
          (contextFromFlags env (rq_flags req) (s_appBundleId session)) (outside st) =
        (Inl err, x1) \<longrightarrow>
        handleRequest env req st =
          (Inl err,
           st\<lparr>events := events st @
                  [Dispatched (dev_id (s_device session)) ''close'' (positionalsOf req)],
              outside := x1\<rparr>) \<and>
        mapGet (sessions (snd (handleRequest env req st))) name = Some session) \<and>
     (\<forall>st1.
        (positionalsOf req = [] \<and> st1 = st) \<or>
        (positionalsOf req \<noteq> [] \<and>
         (\<exists>data x1.
            dispatchCommand env (s_device session) ''close'' (positionalsOf req) (outOf req)
              (contextFromFlags env (rq_flags req) (s_appBundleId session)) (outside st) =
            (Inr data, x1) \<and>
            st1 = st\<lparr>events := events st @
                        [Dispatched (dev_id (s_device session)) ''close'' (positionalsOf req)],
                      outside := x1\<rparr>)) \<longrightarrow>
        (\<not> isIosSimulator (s_device session) \<longrightarrow>
           handleRequest env req st =
             (Inr (Ok (SessionNamed name)),
              st1\<lparr>sessions := mapDelete (sessions st) name,
                  events := events st1 @ [SessionDeleted name]\<rparr>)) \<and>
        (\<forall>x2. isIosSimulator (s_device session) \<and>
           stopIosRunnerSession env (dev_id (s_device session)) (outside st1) = (Inr (), x2) \<longrightarrow>
           handleRequest env req st =
             (Inr (Ok (SessionNamed name)),
              st1\<lparr>sessions := mapDelete (sessions st) name,
                  events := events st1 @
                    [RunnerStopped (dev_id (s_device session)), SessionDeleted name],
                  outside := x2\<rparr>)) \<and>
        (\<forall>err x2. isIosSimulator (s_device session) \<and>
           stopIosRunnerSession env (dev_id (s_device session)) (outside st1) = (Inl err, x2) \<longrightarrow>
           handleRequest env req st =
             (Inl err,
              st1\<lparr>events := events st1 @ [RunnerStopped (dev_id (s_device session))],
                  outside := x2\<rparr>))) \<and>
     mapGet (mapDelete (sessions st) name) name = None"
proof (intro conjI allI impI)
  have h: "handleRequest env req st = handleClose env req name st"
    unfolding nm using tok cmd by (rule handleRequest_close_eq)
  {
    fix err x1
    assume a: "positionalsOf req \<noteq> [] \<and>
        dispatchCommand env (s_device session) ''close'' (positionalsOf req) (outOf req)
          (contextFromFlags env (rq_flags req) (s_appBundleId session)) (outside st) =
        (Inl err, x1)"
    then show r: "handleRequest env req st =
          (Inl err,
           st\<lparr>events := events st @
                  [Dispatched (dev_id (s_device session)) ''close'' (positionalsOf req)],
              outside := x1\<rparr>)"
      unfolding h using handleClose_dispatch_fails [OF ses, of req env err x1] by blast
    show "mapGet (sessions (snd (handleRequest env req st))) name = Some session"
      unfolding r using ses by simp
  }
  {
    fix st1
    assume a: "(positionalsOf req = [] \<and> st1 = st) \<or>
        (positionalsOf req \<noteq> [] \<and>
         (\<exists>data x1.
            dispatchCommand env (s_device session) ''close'' (positionalsOf req) (outOf req)
              (contextFromFlags env (rq_flags req) (s_appBundleId session)) (outside st) =
            (Inr data, x1) \<and>
            st1 = st\<lparr>events := events st @
                        [Dispatched (dev_id (s_device session)) ''close'' (positionalsOf req)],
                      outside := x1\<rparr>))"
    have s1: "sessions st1 = sessions st" using a by auto
    note t = handleClose_tail [OF ses a]
    {
      assume "\<not> isIosSimulator (s_device session)"
      then show "handleRequest env req st =
             (Inr (Ok (SessionNamed name)),
              st1\<lparr>sessions := mapDelete (sessions st) name,
                  events := events st1 @ [SessionDeleted name]\<rparr>)"
        unfolding h t by (simp add: sessionsDelete_def s1)
    }
    {
      fix x2
      assume "isIosSimulator (s_device session) \<and>
           stopIosRunnerSession env (dev_id (s_device session)) (outside st1) = (Inr (), x2)"
      then show "handleRequest env req st =
             (Inr (Ok (SessionNamed name)),
              st1\<lparr>sessions := mapDelete (sessions st) name,
                  events := events st1 @
                    [RunnerStopped (dev_id (s_device session)), SessionDeleted name],
                  outside := x2\<rparr>)"
        unfolding h t by (simp add: sessionsDelete_def doStopRunner_def s1)
    }
    {
      fix err x2
      assume "isIosSimulator (s_device session) \<and>
           stopIosRunnerSession env (dev_id (s_device session)) (outside st1) = (Inl err, x2)"
      then show "handleRequest env req st =
             (Inl err,
              st1\<lparr>events := events st1 @ [RunnerStopped (dev_id (s_device session))],
                  outside := x2\<rparr>)"
        unfolding h t by (simp add: doStopRunner_def)
    }
  }
  show "mapGet (mapDelete (sessions st) name) name = None"
    by (rule mapGet_mapDelete)
qed

lemma stub_session:
  "mapGet (sessions openDaemon) ''default'' = Some settingsSession"
  "s_device settingsSession = iosSimulator" "isIosSimulator iosSimulator"
  "dev_id iosSimulator = ''SIM-1''"
  by (simp_all add: openDaemon_def mapGet_def settingsSession_def isIosSimulator_def
        iosSimulator_def)

text \<open>
  The session of the simulator is closed with an app named, and with none: in both the
  runner is stopped before the entry is deleted.
\<close>

theorem handleRequest_close_witness:
  "handleRequest (stubEnv False) (request [] ''close'' [''Settings'']) openDaemon =
     (Inr (Ok (SessionNamed ''default'')),
      \<lparr>sessions = [],
       events = [Dispatched ''SIM-1'' ''close'' [''Settings''], RunnerStopped ''SIM-1'',
                 SessionDeleted ''default''],
       outside = ()\<rparr>) \<and>
   handleRequest (stubEnv True) (request [] ''close'' []) openDaemon =
     (Inr (Ok (SessionNamed ''default'')),
      \<lparr>sessions = [], events = [RunnerStopped ''SIM-1'', SessionDeleted ''default''],
       outside = ()\<rparr>)"
proof -
  have r: "rq_token (request n c ps) = token (stubEnv b)" "rq_command (request n c ps) = c"
    "rq_session (request n c ps) = n" "positionalsOf (request n c ps) = ps" for n c ps b
    by (simp_all add: request_def stubEnv_def positionalsOf_def)
  have d: "dispatchCommand (stubEnv False) dev ''close'' ps out ctx x =
             (Inr (Some \<lparr>dd_nodes = Some cameraNodes, dd_truncated = None, dd_other = []\<rparr>), x)"
    for dev ps out ctx x
    by (simp add: stubEnv_def)
  have s: "stopIosRunnerSession (stubEnv b) i x = (Inr (), x)" for b i x
    by (simp add: stubEnv_def)
  have a: "handleRequest (stubEnv False) (request [] ''close'' [''Settings'']) openDaemon =
     (Inr (Ok (SessionNamed ''default'')),
      \<lparr>sessions = [],
       events = [Dispatched ''SIM-1'' ''close'' [''Settings''], RunnerStopped ''SIM-1'',
                 SessionDeleted ''default''],
       outside = ()\<rparr>)"
    using handleRequest_close
            [where req = "request [] ''close'' [''Settings'']" and env = "stubEnv False"
               and name = "''default''" and st = openDaemon and session = settingsSession]
    by (simp add: r d s stub_session openDaemon_def mapDelete_def mapGet_def)
  have b: "handleRequest (stubEnv True) (request [] ''close'' []) openDaemon =
     (Inr (Ok (SessionNamed ''default'')),
      \<lparr>sessions = [], events = [RunnerStopped ''SIM-1'', SessionDeleted ''default''],
       outside = ()\<rparr>)"
    using handleRequest_close
            [where req = "request [] ''close'' []" and env = "stubEnv True"
               and name = "''default''" and st = openDaemon and session = settingsSession]
    by (simp add: r s stub_session openDaemon_def mapDelete_def mapGet_def)
  show ?thesis using a b by simp
qed

text \<open>
  Claim C2 as stated fails: when the dispatched \<open>close\<close> of the named app throws, the
  handler throws, the session \<open>default\<close> is still in the map, and the runner has not
  been stopped.
\<close>

theorem handleRequest_close_counterexample:
  "handleRequest (stubEnv True) (request [] ''close'' [''Settings'']) openDaemon =
     (Inl (JAppError closeFailed),
      \<lparr>sessions = [(''default'', settingsSession)],
       events = [Dispatched ''SIM-1'' ''close'' [''Settings'']], outside = ()\<rparr>) \<and>
   mapGet (sessions (snd (handleRequest (stubEnv True) (request [] ''close'' [''Settings''])
                            openDaemon))) ''default'' = Some settingsSession"
  by (simp add: handleRequest_def handleClose_def request_def stubEnv_def openDaemon_def
        mapGet_def doDispatch_def positionalsOf_def settingsSession_def iosSimulator_def Let_def)


lemma handleFill_refForm:
  "refForm req \<Longrightarrow> mapGet (sessions st) name = None \<Longrightarrow>
   handleFill env req name st = Some (Inr noSnapshot, st)"
  by (auto simp: handleFill_def refForm_def snapshotOf_def split: option.splits)

lemma handleFill_other:
  "\<not> refForm req \<Longrightarrow> handleFill env req name st = None"
  by (auto simp: handleFill_def refForm_def split: option.splits)

lemma handleOther_absent:
  "mapGet (sessions st) name = None \<Longrightarrow>
   handleOther env req name st =
     (Inr (Failed ''SESSION_NOT_FOUND'' ''No active session. Run open first.''), st)"
  by (simp add: handleOther_def)

lemma handleClick_absent:
  "mapGet (sessions st) name = None \<Longrightarrow> handleClick env req name st = (Inr noSnapshot, st)"
  by (simp add: handleClick_def snapshotOf_def)

lemma handleGet_absent:
  "mapGet (sessions st) name = None \<Longrightarrow>
   handleGet req name st =
     (Inr (if positionalAt req 0 \<noteq> Some ''text'' \<and> positionalAt req 0 \<noteq> Some ''attrs''
           then Failed ''INVALID_ARGS'' ''get only supports text or attrs'' else noSnapshot), st)"
  by (simp add: handleGet_def snapshotOf_def Let_def)

lemma handleClose_absent:
  "mapGet (sessions st) name = None \<Longrightarrow>
   handleClose env req name st = (Inr (Failed ''SESSION_NOT_FOUND'' ''No active session''), st)"
  by (simp add: handleClose_def)

lemma handleSnapshot_absent:
  assumes "mapGet (sessions st) name = None"
    and "resolveTargetDevice env (case rq_flags req of Some f \<Rightarrow> f | None \<Rightarrow> noFlags) (outside st) =
           (Inr device, x1)"
    and "dispatchCommand env device ''snapshot'' [] (outOf req)
           (contextFromFlags env (rq_flags req) None) x1 = (Inr data, x2)"
  shows "handleSnapshot env req name st =
     (Inr (Ok (Snapshot (attachRefs (case Option.bind data dd_nodes of Some ns \<Rightarrow> ns | None \<Rightarrow> []))
                 (case Option.bind data dd_truncated of Some t \<Rightarrow> t | None \<Rightarrow> False))),
      st\<lparr>sessions := mapSet (sessions st) name
             \<lparr>s_name = name, s_device = device, s_createdAt = dateNow env x2,
              s_appBundleId = None,
              s_snapshot = Some
                \<lparr>ss_nodes = attachRefs (case Option.bind data dd_nodes of Some ns \<Rightarrow> ns
                                         | None \<Rightarrow> []),
                 ss_truncated = Option.bind data dd_truncated,
                 ss_createdAt = dateNow env x2\<rparr>\<rparr>,
         events := events st @ [DeviceResolved, Dispatched (dev_id device) ''snapshot'' [],
                                SessionSet name],
         outside := x2\<rparr>)"
  using assms
  by (simp add: handleSnapshot_def doResolveDevice_def doDispatch_def sessionsSet_def Let_def)

text \<open>
  Claim C3, as amended. For a request with the right token whose session does not exist:
  every command other than \<open>session_list\<close>, \<open>open\<close> and \<open>snapshot\<close> gets an error
  response, and the state of the daemon is the same as before: no session entry is
  written, nothing is dispatched. The code is \<open>SESSION_NOT_FOUND\<close> for \<open>close\<close> and for
  every command that the daemon forwards (\<open>fill\<close> not in the ref form among them), with
  a fixed message that does not name the session, and \<open>INVALID_ARGS\<close> for \<open>click\<close>,
  \<open>get\<close> and \<open>fill\<close> in the ref form. \<open>snapshot\<close> resolves a device from the flags
  and, when the capture returns, answers \<open>ok\<close> and writes a session entry under the name.
\<close>

theorem handleRequest_without_session:
  assumes tok: "rq_token req = token env"
    and nm: "name = (if rq_session req = [] then ''default'' else rq_session req)"
    and abs: "mapGet (sessions st) name = None"
  shows
    "(rq_command req \<notin> {''session_list'', ''open'', ''snapshot''} \<longrightarrow>
        (\<exists>code msg. handleRequest env req st = (Inr (Failed code msg), st) \<and>
           (code = ''SESSION_NOT_FOUND'' \<or> code = ''INVALID_ARGS''))) \<and>
     (rq_command req = ''close'' \<longrightarrow>
        handleRequest env req st = (Inr (Failed ''SESSION_NOT_FOUND'' ''No active session''), st)) \<and>
     (rq_command req \<notin> {''session_list'', ''open'', ''close'', ''snapshot'', ''click'', ''get''} \<and>
      \<not> (rq_command req = ''fill'' \<and> refForm req) \<longrightarrow>
        handleRequest env req st =
          (Inr (Failed ''SESSION_NOT_FOUND'' ''No active session. Run open first.''), st)) \<and>
     (rq_command req = ''click'' \<or> (rq_command req = ''fill'' \<and> refForm req) \<longrightarrow>
        handleRequest env req st =
          (Inr (Failed ''INVALID_ARGS'' ''No snapshot in session. Run snapshot first.''), st)) \<and>
     (rq_command req = ''get'' \<longrightarrow>
        handleRequest env req st =
          (Inr (Failed ''INVALID_ARGS''
                  (if positionalAt req 0 \<noteq> Some ''text'' \<and> positionalAt req 0 \<noteq> Some ''attrs''
                   then ''get only supports text or attrs''
                   else ''No snapshot in session. Run snapshot first.'')), st)) \<and>
     (\<forall>device x1 data x2.
        rq_command req = ''snapshot'' \<and>
        resolveTargetDevice env (case rq_flags req of Some f \<Rightarrow> f | None \<Rightarrow> noFlags) (outside st) =
          (Inr device, x1) \<and>
        dispatchCommand env device ''snapshot'' [] (outOf req)
          (contextFromFlags env (rq_flags req) None) x1 = (Inr data, x2) \<longrightarrow>
        fst (handleRequest env req st) =
          Inr (Ok (Snapshot (attachRefs (case Option.bind data dd_nodes of Some ns \<Rightarrow> ns
                                         | None \<Rightarrow> []))
                     (case Option.bind data dd_truncated of Some t \<Rightarrow> t | None \<Rightarrow> False))) \<and>
        Option.bind (mapGet (sessions (snd (handleRequest env req st))) name)
          (\<lambda>s. Some (s_name s, s_device s, s_appBundleId s)) = Some (name, device, None))"
proof -
  let ?h = "handleRequest env req st"
  have cl: "?h = (Inr (Failed ''SESSION_NOT_FOUND'' ''No active session''), st)"
    if "rq_command req = ''close''"
    using that tok abs nm by (simp add: handleRequest_def handleClose_absent)
  have ck: "?h = (Inr noSnapshot, st)" if "rq_command req = ''click''"
    using that tok abs nm by (simp add: handleRequest_def handleClick_absent)
  have fr: "?h = (Inr noSnapshot, st)" if "rq_command req = ''fill''" and "refForm req"
    using that tok abs nm by (simp add: handleRequest_def handleFill_refForm)
  have gt: "?h = (Inr (if positionalAt req 0 \<noteq> Some ''text'' \<and> positionalAt req 0 \<noteq> Some ''attrs''
           then Failed ''INVALID_ARGS'' ''get only supports text or attrs'' else noSnapshot), st)"
    if "rq_command req = ''get''"
    using that tok abs nm by (simp add: handleRequest_def handleGet_absent)
  have ot: "?h = (Inr (Failed ''SESSION_NOT_FOUND'' ''No active session. Run open first.''), st)"
    if "rq_command req \<notin> {''session_list'', ''open'', ''close'', ''snapshot'', ''click'', ''get''}"
      and "\<not> (rq_command req = ''fill'' \<and> refForm req)"
    using that tok abs nm
    by (auto simp: handleRequest_def handleFill_other handleOther_absent Let_def)
  have sn: "?h = handleSnapshot env req name st" if "rq_command req = ''snapshot''"
    using that tok nm by (simp add: handleRequest_def)
  have all: "\<exists>code msg. ?h = (Inr (Failed code msg), st) \<and>
           (code = ''SESSION_NOT_FOUND'' \<or> code = ''INVALID_ARGS'')"
    if n: "rq_command req \<notin> {''session_list'', ''open'', ''snapshot''}"
  proof -
    consider "rq_command req = ''close''" | "rq_command req = ''click''"
      | "rq_command req = ''get''" | "rq_command req = ''fill'' \<and> refForm req"
      | "rq_command req \<notin> {''session_list'', ''open'', ''close'', ''snapshot'', ''click'', ''get''} \<and>
         \<not> (rq_command req = ''fill'' \<and> refForm req)"
      using n by blast
    then show ?thesis
    proof cases
      case 1 then show ?thesis using cl by blast
    next
      case 2 then show ?thesis using ck by (simp add: noSnapshot_def)
    next
      case 3 then show ?thesis using gt by (simp add: noSnapshot_def)
    next
      case 4 then show ?thesis using fr by (simp add: noSnapshot_def)
    next
      case 5 then show ?thesis using ot by blast
    qed
  qed
  show ?thesis
  proof (intro conjI allI impI)
    assume "rq_command req \<notin> {''session_list'', ''open'', ''snapshot''}"
    then show "\<exists>code msg. ?h = (Inr (Failed code msg), st) \<and>
           (code = ''SESSION_NOT_FOUND'' \<or> code = ''INVALID_ARGS'')"
      by (rule all)
  next
    assume "rq_command req = ''close''"
    then show "?h = (Inr (Failed ''SESSION_NOT_FOUND'' ''No active session''), st)" by (rule cl)
  next
    assume "rq_command req \<notin> {''session_list'', ''open'', ''close'', ''snapshot'', ''click'', ''get''} \<and>
      \<not> (rq_command req = ''fill'' \<and> refForm req)"
    then show "?h = (Inr (Failed ''SESSION_NOT_FOUND'' ''No active session. Run open first.''), st)"
      using ot by blast
  next
    assume "rq_command req = ''click'' \<or> (rq_command req = ''fill'' \<and> refForm req)"
    then show "?h = (Inr (Failed ''INVALID_ARGS'' ''No snapshot in session. Run snapshot first.''), st)"
      using ck fr by (auto simp: noSnapshot_def)
  next
    assume "rq_command req = ''get''"
    then show "?h = (Inr (Failed ''INVALID_ARGS''
                  (if positionalAt req 0 \<noteq> Some ''text'' \<and> positionalAt req 0 \<noteq> Some ''attrs''
                   then ''get only supports text or attrs''
                   else ''No snapshot in session. Run snapshot first.'')), st)"
      using gt by (simp add: noSnapshot_def)
  next
    fix device x1 data x2
    assume a: "rq_command req = ''snapshot'' \<and>
        resolveTargetDevice env (case rq_flags req of Some f \<Rightarrow> f | None \<Rightarrow> noFlags) (outside st) =
          (Inr device, x1) \<and>
        dispatchCommand env device ''snapshot'' [] (outOf req)
          (contextFromFlags env (rq_flags req) None) x1 = (Inr data, x2)"
    then have h: "?h = handleSnapshot env req name st" using sn by blast
    note s = handleSnapshot_absent [OF abs, of env req device x1 data x2]
    show "fst ?h =
          Inr (Ok (Snapshot (attachRefs (case Option.bind data dd_nodes of Some ns \<Rightarrow> ns
                                         | None \<Rightarrow> []))
                     (case Option.bind data dd_truncated of Some t \<Rightarrow> t | None \<Rightarrow> False)))"
      unfolding h using s a by simp
    show "Option.bind (mapGet (sessions (snd ?h)) name)
          (\<lambda>s. Some (s_name s, s_device s, s_appBundleId s)) = Some (name, device, None)"
      unfolding h using s a by (simp add: mapGet_mapSet)
  qed
qed


text \<open>Five commands sent to a daemon without any session, under the name \<open>s1\<close>.\<close>

theorem handleRequest_without_session_witness:
  "handleRequest (stubEnv False) (request ''s1'' ''press'' [''10'', ''20'']) emptyDaemon =
     (Inr (Failed ''SESSION_NOT_FOUND'' ''No active session. Run open first.''), emptyDaemon) \<and>
   handleRequest (stubEnv False) (request ''s1'' ''close'' []) emptyDaemon =
     (Inr (Failed ''SESSION_NOT_FOUND'' ''No active session''), emptyDaemon) \<and>
   handleRequest (stubEnv False) (request ''s1'' ''click'' [''@e1'']) emptyDaemon =
     (Inr (Failed ''INVALID_ARGS'' ''No snapshot in session. Run snapshot first.''), emptyDaemon) \<and>
   handleRequest (stubEnv False) (request ''s1'' ''fill'' [''@e1'', ''hello'']) emptyDaemon =
     (Inr (Failed ''INVALID_ARGS'' ''No snapshot in session. Run snapshot first.''), emptyDaemon) \<and>
   handleRequest (stubEnv False) (request ''s1'' ''get'' [''text'', ''@e1'']) emptyDaemon =
     (Inr (Failed ''INVALID_ARGS'' ''No snapshot in session. Run snapshot first.''), emptyDaemon)"
proof -
  have r: "rq_token (request n c ps) = token (stubEnv b)" "rq_command (request n c ps) = c"
    "rq_session (request n c ps) = n" "positionalAt (request n c ps) 0 = (if ps = [] then None else Some (hd ps))" for n c ps b
    by (simp_all add: request_def stubEnv_def positionalAt_def hd_conv_nth)
  have e: "mapGet (sessions emptyDaemon) ''s1'' = None"
    by (simp add: emptyDaemon_def mapGet_def)
  have nm: "''s1'' = (if rq_session (request ''s1'' c ps) = [] then ''default''
                      else rq_session (request ''s1'' c ps))" for c ps
    by (simp add: r)
  note t = handleRequest_without_session [OF r(1) nm e]
  have "handleRequest (stubEnv False) (request ''s1'' ''press'' [''10'', ''20'']) emptyDaemon =
     (Inr (Failed ''SESSION_NOT_FOUND'' ''No active session. Run open first.''), emptyDaemon)"
    using t [of "''press''" "[''10'', ''20'']" False] by (simp add: r)
  moreover have "handleRequest (stubEnv False) (request ''s1'' ''close'' []) emptyDaemon =
     (Inr (Failed ''SESSION_NOT_FOUND'' ''No active session''), emptyDaemon)"
    using t [of "''close''" "[]" False] by (simp add: r)
  moreover have "handleRequest (stubEnv False) (request ''s1'' ''click'' [''@e1'']) emptyDaemon =
     (Inr (Failed ''INVALID_ARGS'' ''No snapshot in session. Run snapshot first.''), emptyDaemon)"
    using t [of "''click''" "[''@e1'']" False] by (simp add: r)
  moreover have "handleRequest (stubEnv False) (request ''s1'' ''fill'' [''@e1'', ''hello'']) emptyDaemon =
     (Inr (Failed ''INVALID_ARGS'' ''No snapshot in session. Run snapshot first.''), emptyDaemon)"
    using t [of "''fill''" "[''@e1'', ''hello'']" False] by (simp add: r refForm_def)
  moreover have "handleRequest (stubEnv False) (request ''s1'' ''get'' [''text'', ''@e1'']) emptyDaemon =
     (Inr (Failed ''INVALID_ARGS'' ''No snapshot in session. Run snapshot first.''), emptyDaemon)"
    using t [of "''get''" "[''text'', ''@e1'']" False] by (simp add: r)
  ultimately show ?thesis by simp
qed

text \<open>
  Claim C3 as stated fails: \<open>snapshot\<close> under the name \<open>s1\<close>, sent to a daemon without
  any session, is answered \<open>ok\<close> and leaves a session \<open>s1\<close>; \<open>click\<close> fails with
  \<open>INVALID_ARGS\<close>, not with a missing session; and the message of \<open>SESSION_NOT_FOUND\<close>
  does not contain the name.
\<close>

theorem handleRequest_without_session_counterexample:
  "mapGet (sessions emptyDaemon) ''s1'' = None \<and>
   handleRequest (stubEnv False) (request ''s1'' ''snapshot'' []) emptyDaemon =
     (Inr (Ok (Snapshot (attachRefs cameraNodes) False)),
      \<lparr>sessions =
         [(''s1'', \<lparr>s_name = ''s1'', s_device = iosSimulator, s_createdAt = 1000,
                    s_appBundleId = None,
                    s_snapshot = Some \<lparr>ss_nodes = attachRefs cameraNodes, ss_truncated = None,
                                       ss_createdAt = 1000\<rparr>\<rparr>)],
       events = [DeviceResolved, Dispatched ''SIM-1'' ''snapshot'' [], SessionSet ''s1''],
       outside = ()\<rparr>) \<and>
   handleRequest (stubEnv False) (request ''s1'' ''click'' [''@e1'']) emptyDaemon =
     (Inr (Failed ''INVALID_ARGS'' ''No snapshot in session. Run snapshot first.''), emptyDaemon) \<and>
   handleRequest (stubEnv False) (request ''s1'' ''press'' [''10'', ''20'']) emptyDaemon =
     (Inr (Failed ''SESSION_NOT_FOUND'' ''No active session. Run open first.''), emptyDaemon) \<and>
   \<not> strIncludes ''No active session. Run open first.'' ''s1''"
proof -
  have a: "mapGet (sessions emptyDaemon) ''s1'' = None"
    by (simp add: emptyDaemon_def mapGet_def)
  have b: "handleRequest (stubEnv False) (request ''s1'' ''snapshot'' []) emptyDaemon =
     (Inr (Ok (Snapshot (attachRefs cameraNodes) False)),
      \<lparr>sessions =
         [(''s1'', \<lparr>s_name = ''s1'', s_device = iosSimulator, s_createdAt = 1000,
                    s_appBundleId = None,
                    s_snapshot = Some \<lparr>ss_nodes = attachRefs cameraNodes, ss_truncated = None,
                                       ss_createdAt = 1000\<rparr>\<rparr>)],
       events = [DeviceResolved, Dispatched ''SIM-1'' ''snapshot'' [], SessionSet ''s1''],
       outside = ()\<rparr>)"
    by (simp add: handleRequest_def handleSnapshot_def request_def stubEnv_def emptyDaemon_def
          mapGet_def doResolveDevice_def doDispatch_def sessionsSet_def outOf_def Let_def
          iosSimulator_def)
  have c: "handleRequest (stubEnv False) (request ''s1'' ''click'' [''@e1'']) emptyDaemon =
     (Inr (Failed ''INVALID_ARGS'' ''No snapshot in session. Run snapshot first.''), emptyDaemon)"
    by (simp add: handleRequest_def handleClick_def request_def stubEnv_def emptyDaemon_def
          mapGet_def snapshotOf_def noSnapshot_def Let_def)
  have d: "handleRequest (stubEnv False) (request ''s1'' ''press'' [''10'', ''20'']) emptyDaemon =
     (Inr (Failed ''SESSION_NOT_FOUND'' ''No active session. Run open first.''), emptyDaemon)"
    by (simp add: handleRequest_def handleOther_def request_def stubEnv_def emptyDaemon_def
          mapGet_def Let_def)
  have e: "\<not> strIncludes ''No active session. Run open first.'' ''s1''"
    by code_simp
  show ?thesis using a b c d e by simp
qed

end
